(* ===== verification/Prelude.thy ===== *)
theory Prelude
  imports Main "HOL-Library.Word" "HOL-Library.Char_ord" "HOL-Library.List_Lexorder"
    "HOL-Library.Multiset" "HOL-Library.Sublist" "HOL-Library.Code_Target_Numeral"
begin

unbundle bit_operations_syntax

text \<open>
  Shared vocabulary of the development: Go's fixed-width integers, Go's
  \<open>if err != nil { return err }\<close> discipline as two combinators, and the generic lemmas on
  lists, maps and sums that the component theories rely on.
\<close>

section \<open>Collections of facts\<close>

named_theorems go_simps \<open>evaluation rules for the Go string and number primitives\<close>
named_theorems guard_simps \<open>inversion rules for sequences of guards\<close>
named_theorems sql_simps \<open>evaluation rules for generated statements\<close>

section \<open>Machine integers\<close>

text \<open>
  Go's \<open>int\<close> (64 bit on every supported platform) and \<open>int64\<close> are \<^typ>\<open>int\<close> values in
  \<open>int64_range\<close>; the operations that can leave the range wrap, written out by \<open>wrap64\<close>.
  Unsigned 32-bit identifiers are \<^typ>\<open>32 word\<close>. A \<open>float64\<close> is only ever carried from a
  column to a field, so it is its IEEE bit pattern.
\<close>

type_synonym int64 = int
type_synonym uint32 = "32 word"
type_synonym float64 = "64 word"

definition int64_range :: "int \<Rightarrow> bool" where
  "int64_range x \<longleftrightarrow> - (2 ^ 63) \<le> x \<and> x < 2 ^ 63"

definition wrap64 :: "int \<Rightarrow> int64" where
  "wrap64 x = (x + 2 ^ 63) mod 2 ^ 64 - 2 ^ 63"

lemma wrap64_range [simp, intro]: "int64_range (wrap64 x)"
proof -
  have "0 \<le> (x + 2 ^ 63) mod 2 ^ 64" "(x + 2 ^ 63) mod 2 ^ 64 < (2 ^ 64 :: int)"
    by simp_all
  then show ?thesis by (simp add: wrap64_def int64_range_def)
qed

lemma wrap64_id [go_simps]: "int64_range x \<Longrightarrow> wrap64 x = x"
  by (simp add: wrap64_def int64_range_def)

text \<open>Go's integer division truncates towards zero; the divisors here are never zero.\<close>

definition go_div :: "int \<Rightarrow> int \<Rightarrow> int" where
  "go_div a b = sgn a * sgn b * (\<bar>a\<bar> div \<bar>b\<bar>)"

lemma go_div_nonneg [go_simps]: "0 \<le> a \<Longrightarrow> 0 < b \<Longrightarrow> go_div a b = a div b"
  by (cases "a = 0") (simp_all add: go_div_def)

text \<open>A \<open>time.Duration\<close> is a count of nanoseconds.\<close>

type_synonym duration = int

definition second :: duration where "second = 1000000000"
definition minute :: duration where "minute = 60 * second"
definition hour :: duration where "hour = 60 * minute"

lemma duration_pos [simp]: "0 < second" "0 < minute" "0 < hour"
  by (simp_all add: second_def minute_def hour_def)

definition max_duration :: duration where "max_duration = 2 ^ 63 - 1"
definition min_duration :: duration where "min_duration = - (2 ^ 63)"

text \<open>\<open>Time.Sub\<close> saturates at the ends of the range of \<open>Duration\<close>.\<close>

definition time_sub :: "int \<Rightarrow> int \<Rightarrow> duration" where
  "time_sub t u = max min_duration (min max_duration (t - u))"

lemma time_sub_mono: "t \<le> t' \<Longrightarrow> time_sub t u \<le> time_sub t' u"
  by (simp add: time_sub_def)

lemma time_sub_self [simp]: "time_sub t t = 0"
  by (simp add: time_sub_def max_duration_def min_duration_def)

text \<open>\<open>Duration.Seconds\<close> followed by a conversion to an integer truncates towards zero.\<close>

definition duration_seconds :: "duration \<Rightarrow> int" where
  "duration_seconds d = go_div d second"

section \<open>Guards\<close>

text \<open>
  \<open>guard_err g k\<close> is \<open>if err := g; err != nil { return err }\<close> followed by \<open>k\<close>;
  \<open>fail_if b e k\<close> is \<open>if b { return e }\<close> followed by \<open>k\<close>; \<open>bind_err m k\<close> is a call
  whose error is returned and whose value goes on to \<open>k\<close>.
\<close>

definition guard_err :: "'e option \<Rightarrow> 'e + 'a \<Rightarrow> 'e + 'a" where
  "guard_err g k = (case g of Some e \<Rightarrow> Inl e | None \<Rightarrow> k)"

definition fail_if :: "bool \<Rightarrow> 'e \<Rightarrow> 'e + 'a \<Rightarrow> 'e + 'a" where
  "fail_if b e k = (if b then Inl e else k)"

definition bind_err :: "'e + 'a \<Rightarrow> ('a \<Rightarrow> 'e + 'b) \<Rightarrow> 'e + 'b" where
  "bind_err m k = (case m of Inl e \<Rightarrow> Inl e | Inr x \<Rightarrow> k x)"

lemma guard_err_Inr [guard_simps]: "guard_err g k = Inr x \<longleftrightarrow> g = None \<and> k = Inr x"
  by (simp add: guard_err_def split: option.splits)

lemma guard_err_Inl [guard_simps]:
  "guard_err g k = Inl e \<longleftrightarrow> g = Some e \<or> g = None \<and> k = Inl e"
  by (auto simp: guard_err_def split: option.splits)

lemma fail_if_Inr [guard_simps]: "fail_if b e k = Inr x \<longleftrightarrow> \<not> b \<and> k = Inr x"
  by (simp add: fail_if_def)

lemma fail_if_Inl [guard_simps]: "fail_if b e k = Inl e' \<longleftrightarrow> b \<and> e = e' \<or> \<not> b \<and> k = Inl e'"
  by (auto simp: fail_if_def)

lemma bind_err_Inr [guard_simps]: "bind_err m k = Inr y \<longleftrightarrow> (\<exists>x. m = Inr x \<and> k x = Inr y)"
  by (auto simp: bind_err_def split: sum.splits)

lemma bind_err_Inl [guard_simps]:
  "bind_err m k = Inl e \<longleftrightarrow> m = Inl e \<or> (\<exists>x. m = Inr x \<and> k x = Inl e)"
  by (auto simp: bind_err_def split: sum.splits)

lemma guard_eval [simp]:
  "guard_err (Some e) k = Inl e" "guard_err None k = k"
  "fail_if True e k = Inl e" "fail_if False e k = k"
  "bind_err (Inl e) f = Inl e" "bind_err (Inr x) f = f x"
  by (simp_all add: guard_err_def fail_if_def bind_err_def)

text \<open>A loop that appends the value of each call and stops at the first error.\<close>

fun map_err :: "('a \<Rightarrow> 'e + 'b) \<Rightarrow> 'a list \<Rightarrow> 'e + 'b list" where
  "map_err f [] = Inr []"
| "map_err f (x # xs) = bind_err (f x) (\<lambda>y. bind_err (map_err f xs) (\<lambda>ys. Inr (y # ys)))"

lemma map_err_Inr: "map_err f xs = Inr ys \<longleftrightarrow> list_all2 (\<lambda>x y. f x = Inr y) xs ys"
  by (induction xs arbitrary: ys) (auto simp: guard_simps list_all2_Cons1)

lemma map_err_length: "map_err f xs = Inr ys \<Longrightarrow> length ys = length xs"
  by (auto simp: map_err_Inr dest: list_all2_lengthD)

lemma map_err_Inl: "map_err f xs = Inl e \<Longrightarrow> \<exists>x \<in> set xs. f x = Inl e"
  by (induction xs) (auto simp: guard_simps)

section \<open>Steps\<close>

text \<open>
  Stateful operations that can fail: a function from the state to a result and the next state.
  The state survives an error. \<open>bind_step\<close> is a call whose error is returned,
  \<open>attempt\<close> a call whose error the caller looks at.
\<close>

type_synonym ('s, 'e, 'a) step = "'s \<Rightarrow> ('e + 'a) \<times> 's"

definition return :: "'a \<Rightarrow> ('s, 'e, 'a) step" where
  "return x s = (Inr x, s)"

definition fail :: "'e \<Rightarrow> ('s, 'e, 'a) step" where
  "fail e s = (Inl e, s)"

definition attempt :: "('s, 'e, 'a) step \<Rightarrow> ('e + 'a \<Rightarrow> 's \<Rightarrow> 'r \<times> 's) \<Rightarrow> 's \<Rightarrow> 'r \<times> 's" where
  "attempt m f s = (case m s of (r, s') \<Rightarrow> f r s')"

definition bind_step :: "('s, 'e, 'a) step \<Rightarrow> ('a \<Rightarrow> ('s, 'e, 'b) step) \<Rightarrow> ('s, 'e, 'b) step" where
  "bind_step m f = attempt m (\<lambda>r. case r of Inl e \<Rightarrow> fail e | Inr x \<Rightarrow> f x)"

lemma step_eval [simp]:
  "return x s = (Inr x, s)" "fail e s = (Inl e, s)"
  by (simp_all add: return_def fail_def)

lemma attempt_pair [simp]: "m s = (r, s') \<Longrightarrow> attempt m f s = f r s'"
  by (simp add: attempt_def)

lemma bind_step_eval [simp]:
  "m s = (Inl e, s') \<Longrightarrow> bind_step m f s = (Inl e, s')"
  "m s = (Inr x, s') \<Longrightarrow> bind_step m f s = f x s'"
  by (simp_all add: bind_step_def)

lemma bind_step_Inr [guard_simps]:
  "bind_step m f s = (Inr y, s'') \<longleftrightarrow> (\<exists>x s'. m s = (Inr x, s') \<and> f x s' = (Inr y, s''))"
  by (auto simp: bind_step_def attempt_def split: prod.splits sum.splits)

lemma bind_step_Inl [guard_simps]:
  "bind_step m f s = (Inl e, s'') \<longleftrightarrow>
     m s = (Inl e, s'') \<or> (\<exists>x s'. m s = (Inr x, s') \<and> f x s' = (Inl e, s''))"
  by (auto simp: bind_step_def attempt_def split: prod.splits sum.splits)

lemma attempt_eq: "attempt m f s = x \<longleftrightarrow> (\<exists>r s'. m s = (r, s') \<and> f r s' = x)"
  by (auto simp: attempt_def split: prod.splits)

lemma attempt_case [guard_simps]:
  "attempt m (\<lambda>r. case r of Inl e \<Rightarrow> f e | Inr x \<Rightarrow> g x) s = y \<longleftrightarrow>
     (\<exists>e s'. m s = (Inl e, s') \<and> f e s' = y) \<or> (\<exists>x s'. m s = (Inr x, s') \<and> g x s' = y)"
  by (auto simp: attempt_def split: prod.splits sum.splits)

lemma not_isl_step: "\<not> isl (fst p) \<Longrightarrow> \<exists>x s'. p = (Inr x, s')"
  by (cases p; cases "fst p") auto

lemma not_isl_unit: "\<not> isl (fst p) \<Longrightarrow> \<exists>s'. p = (Inr (), s')"
  using not_isl_step [of p] by auto

text \<open>A property of the state that an operation keeps, whether it succeeds or not.\<close>

definition keeps :: "('s \<Rightarrow> bool) \<Rightarrow> ('s \<Rightarrow> 'r \<times> 's) \<Rightarrow> bool" where
  "keeps P m \<longleftrightarrow> (\<forall>s. P s \<longrightarrow> P (snd (m s)))"

named_theorems keeps_intros \<open>introduction rules for operations that keep a property\<close>

lemma keepsI: "(\<And>s. P s \<Longrightarrow> P (snd (m s))) \<Longrightarrow> keeps P m"
  by (simp add: keeps_def)

lemma keepsD: "keeps P m \<Longrightarrow> P s \<Longrightarrow> m s = (r, s') \<Longrightarrow> P s'"
  by (metis keeps_def snd_conv)

lemma keeps_return [keeps_intros]: "keeps P (return x)"
  by (simp add: keeps_def)

lemma keeps_fail [keeps_intros]: "keeps P (fail e)"
  by (simp add: keeps_def)

lemma keeps_attempt [keeps_intros]: "keeps P m \<Longrightarrow> (\<And>r. keeps P (f r)) \<Longrightarrow> keeps P (attempt m f)"
  by (auto simp: keeps_def attempt_def split: prod.splits)

lemma keeps_bind [keeps_intros]: "keeps P m \<Longrightarrow> (\<And>x. keeps P (f x)) \<Longrightarrow> keeps P (bind_step m f)"
  unfolding bind_step_def by (intro keeps_attempt) (auto split: sum.splits intro: keeps_fail)

lemma keeps_if [keeps_intros]: "keeps P m \<Longrightarrow> keeps P m' \<Longrightarrow> keeps P (if b then m else m')"
  by simp

lemma keeps_option [keeps_intros]:
  "keeps P m \<Longrightarrow> (\<And>x. keeps P (f x)) \<Longrightarrow> keeps P (case r of None \<Rightarrow> m | Some x \<Rightarrow> f x)"
  by (cases r) auto

lemma keeps_sum [keeps_intros]:
  "(\<And>e. keeps P (f e)) \<Longrightarrow> (\<And>x. keeps P (g x)) \<Longrightarrow>
     keeps P (case r of Inl e \<Rightarrow> f e | Inr x \<Rightarrow> g x)"
  by (cases r) auto

section \<open>Lists and maps\<close>

lemma list_all2_set2D: "list_all2 P xs ys \<Longrightarrow> y \<in> set ys \<Longrightarrow> \<exists>x \<in> set xs. P x y"
  by (induction rule: list_all2_induct) auto

lemma count_list_replicate [simp]: "count_list (replicate n x) y = (if x = y then n else 0)"
  by (induction n) auto

lemma count_list_concat: "count_list (concat xss) x = sum_list (map (\<lambda>xs. count_list xs x) xss)"
  by (induction xss) auto

lemma finite_dom_restrict: "finite (dom m) \<Longrightarrow> finite (dom (m |` A))"
  by (metis dom_restrict finite_Int)

lemma filter_map_inj_on:
  "(\<And>x. x \<in> set xs \<Longrightarrow> P (f x) = Q x) \<Longrightarrow> filter P (map f xs) = map f (filter Q xs)"
  by (induction xs) auto

end
