(* ===== verification/GoStrings.thy ===== *)
theory GoStrings
  imports Prelude
begin

text \<open>
  The part of Go's string handling the program uses. A Go string is a sequence of bytes, and
  so is an Isabelle \<^typ>\<open>string\<close> (a \<^typ>\<open>char\<close> is one byte); \<open>len\<close> is \<^const>\<open>length\<close>. A
  \<open>range\<close> loop decodes UTF-8: \<open>go_runes\<close> gives the runes with the bytes each one came from.
  The functions of \<open>strings\<close> and \<open>strconv\<close> are written after their documentation.
\<close>

section \<open>Bytes and runes\<close>

definition byte :: "char \<Rightarrow> nat" where
  "byte c = of_char c"

lemma byte_less [simp]: "byte c < 256"
  by (simp add: byte_def)

lemma byte_eq_iff [simp]: "byte c = byte d \<longleftrightarrow> c = d"
  by (simp add: byte_def)

definition cont :: "nat \<Rightarrow> nat \<Rightarrow> char \<Rightarrow> bool" where
  "cont lo hi c \<longleftrightarrow> lo \<le> byte c \<and> byte c \<le> hi"

abbreviation rune_error :: nat where "rune_error \<equiv> 65533"

text \<open>
  \<open>utf8.DecodeRune\<close> on a string that starts with \<open>c\<close>: the rune and how many bytes it took.
  A byte that starts no valid encoding is \<open>RuneError\<close> of width one.
\<close>

definition decode_rune :: "char \<Rightarrow> string \<Rightarrow> nat \<times> nat" where
  "decode_rune c s =
     (let b = byte c in
      if b < 128 then (b, 1)
      else if b < 194 then (rune_error, 1)
      else if b < 224 then
        (case s of
           c1 # _ \<Rightarrow> if cont 128 191 c1 then ((b - 192) * 64 + (byte c1 - 128), 2)
                     else (rune_error, 1)
         | _ \<Rightarrow> (rune_error, 1))
      else if b < 240 then
        (case s of
           c1 # c2 # _ \<Rightarrow>
             if cont (if b = 224 then 160 else 128) (if b = 237 then 159 else 191) c1
                \<and> cont 128 191 c2
             then ((b - 224) * 4096 + (byte c1 - 128) * 64 + (byte c2 - 128), 3)
             else (rune_error, 1)
         | _ \<Rightarrow> (rune_error, 1))
      else if b < 245 then
        (case s of
           c1 # c2 # c3 # _ \<Rightarrow>
             if cont (if b = 240 then 144 else 128) (if b = 244 then 143 else 191) c1
                \<and> cont 128 191 c2 \<and> cont 128 191 c3
             then ((b - 240) * 262144 + (byte c1 - 128) * 4096 + (byte c2 - 128) * 64
                   + (byte c3 - 128), 4)
             else (rune_error, 1)
         | _ \<Rightarrow> (rune_error, 1))
      else (rune_error, 1))"

fun go_runes :: "string \<Rightarrow> (nat \<times> string) list" where
  "go_runes [] = []"
| "go_runes (c # s) =
     (let (r, n) = decode_rune c s
      in (r, c # take (n - 1) s) # go_runes (drop (n - 1) s))"

abbreviation runes :: "string \<Rightarrow> nat list" where
  "runes s \<equiv> map fst (go_runes s)"

lemma go_runes_bytes: "concat (map snd (go_runes s)) = s"
  by (induction s rule: go_runes.induct) (auto simp: Let_def split: prod.splits)

lemma decode_rune_ascii: "byte c < 128 \<Longrightarrow> decode_rune c s = (byte c, 1)"
  by (simp add: decode_rune_def)

lemma go_runes_ascii: "byte c < 128 \<Longrightarrow> go_runes (c # s) = (byte c, [c]) # go_runes s"
  by (simp add: decode_rune_ascii)

text \<open>The bytes that a multi-byte encoding swallows are never ASCII.\<close>

lemma decode_rune_tail:
  "decode_rune c s = (r, n) \<Longrightarrow> d \<in> set (take (n - 1) s) \<Longrightarrow> 128 \<le> byte d"
  by (auto simp: decode_rune_def cont_def Let_def split: if_splits list.splits)

lemma decode_rune_ge: "decode_rune c s = (r, n) \<Longrightarrow> 128 \<le> byte c \<Longrightarrow> 128 \<le> r"
  by (auto simp: decode_rune_def cont_def Let_def split: if_splits list.splits)

text \<open>Hence an ASCII byte of a string is one of its runes.\<close>

lemma ascii_rune_in: "c \<in> set s \<Longrightarrow> byte c < 128 \<Longrightarrow> byte c \<in> set (runes s)"
proof (induction s rule: go_runes.induct)
  case 1
  then show ?case by simp
next
  case (2 d s)
  obtain r n where rn: "decode_rune d s = (r, n)" by fastforce
  show ?case
  proof (cases "c = d")
    case True
    with 2 rn show ?thesis by (simp add: decode_rune_ascii)
  next
    case False
    with 2(2) have "c \<in> set s" by simp
    then have "c \<in> set (take (n - 1) s) \<or> c \<in> set (drop (n - 1) s)"
      by (metis Un_iff append_take_drop_id set_append)
    with decode_rune_tail [OF rn] 2(3) have "c \<in> set (drop (n - 1) s)" by fastforce
    with "2.IH" [OF rn [symmetric] refl] 2(3) rn show ?thesis by simp
  qed
qed

definition is_control :: "nat \<Rightarrow> bool" where
  "is_control r \<longleftrightarrow> r < 32 \<or> 127 \<le> r \<and> r < 160"

text \<open>\<open>unicode.IsSpace\<close>: the White_Space property.\<close>

definition is_space :: "nat \<Rightarrow> bool" where
  "is_space r \<longleftrightarrow> 9 \<le> r \<and> r \<le> 13 \<or> r = 32 \<or> r = 133 \<or> r = 160 \<or> r = 5760
     \<or> 8192 \<le> r \<and> r \<le> 8202 \<or> r = 8232 \<or> r = 8233 \<or> r = 8239 \<or> r = 8287 \<or> r = 12288"

definition trim_space :: "string \<Rightarrow> string" where
  "trim_space s =
     concat (map snd (rev (dropWhile (is_space \<circ> fst)
       (rev (dropWhile (is_space \<circ> fst) (go_runes s))))))"

lemma trim_space_Nil [simp]: "trim_space [] = []"
  by (simp add: trim_space_def)

lemma go_runes_nonempty: "p \<in> set (go_runes s) \<Longrightarrow> snd p \<noteq> []"
  by (induction s rule: go_runes.induct) (auto simp: Let_def split: prod.splits)

lemma trim_space_empty_iff: "trim_space s = [] \<longleftrightarrow> (\<forall>r \<in> set (runes s). is_space r)"
proof -
  let ?d = "dropWhile (is_space \<circ> fst) (go_runes s)"
  let ?e = "rev (dropWhile (is_space \<circ> fst) (rev ?d))"
  have sub: "set ?e \<subseteq> set (go_runes s)"
    by (metis dual_order.trans set_rev subsetI set_dropWhileD)
  have "trim_space s = [] \<longleftrightarrow> (\<forall>p \<in> set ?e. snd p = [])"
    by (simp add: trim_space_def)
  also have "\<dots> \<longleftrightarrow> ?e = []"
    using sub go_runes_nonempty by (metis list.set_intros(1) neq_Nil_conv subsetD empty_iff empty_set)
  also have "\<dots> \<longleftrightarrow> (\<forall>p \<in> set ?d. is_space (fst p))"
    by (simp add: dropWhile_eq_Nil_conv)
  also have "\<dots> \<longleftrightarrow> ?d = []"
    by (metis comp_apply dropWhile_eq_Nil_conv empty_iff empty_set hd_dropWhile hd_in_set)
  also have "\<dots> \<longleftrightarrow> (\<forall>r \<in> set (runes s). is_space r)"
    by (auto simp: dropWhile_eq_Nil_conv)
  finally show ?thesis .
qed

text \<open>Printable ASCII is carried rune by rune, and there is nothing to trim from it.\<close>

definition printable :: "string \<Rightarrow> bool" where
  "printable s \<longleftrightarrow> list_all (\<lambda>c. 33 \<le> byte c \<and> byte c < 127) s"

lemma go_runes_printable: "printable s \<Longrightarrow> go_runes s = map (\<lambda>c. (byte c, [c])) s"
  by (induction s) (simp_all add: printable_def go_runes_ascii del: go_runes.simps(2))

lemma trim_space_printable: "printable s \<Longrightarrow> trim_space s = s"
proof -
  assume p: "printable s"
  let ?rs = "map (\<lambda>c. (byte c, [c])) s"
  have id: "concat (map snd ?rs) = s" by (induction s) auto
  have no: "\<not> (is_space \<circ> fst) r" if "r \<in> set ?rs" for r
    using p that by (auto simp: printable_def list_all_iff is_space_def)
  then have "dropWhile (is_space \<circ> fst) ?rs = ?rs"
    unfolding dropWhile_eq_self_iff using hd_in_set [of ?rs] by blast
  moreover from no have "dropWhile (is_space \<circ> fst) (rev ?rs) = rev ?rs"
    unfolding dropWhile_eq_self_iff using hd_in_set [of "rev ?rs"] set_rev [of ?rs] by blast
  ultimately show ?thesis
    using id by (simp add: trim_space_def go_runes_printable [OF p])
qed

section \<open>Splitting and joining\<close>

text \<open>\<open>strings.Split\<close> with a separator of one byte, and \<open>strings.Join\<close>.\<close>

fun split_on :: "char \<Rightarrow> string \<Rightarrow> string list" where
  "split_on d [] = [[]]"
| "split_on d (c # s) =
     (if c = d then [] # split_on d s
      else case split_on d s of [] \<Rightarrow> [[c]] | w # ws \<Rightarrow> (c # w) # ws)"

fun join :: "string \<Rightarrow> string list \<Rightarrow> string" where
  "join sep [] = []"
| "join sep [w] = w"
| "join sep (w # v # ws) = w @ sep @ join sep (v # ws)"

lemma split_on_not_Nil [simp]: "split_on d s \<noteq> []"
  by (induction s) (auto split: list.splits)

lemma split_on_single: "d \<notin> set w \<Longrightarrow> split_on d w = [w]"
  by (induction w) auto

lemma split_on_append: "d \<notin> set w \<Longrightarrow> split_on d (w @ d # s) = w # split_on d s"
  by (induction w) auto

lemma split_on_join:
  "ws \<noteq> [] \<Longrightarrow> (\<And>w. w \<in> set ws \<Longrightarrow> d \<notin> set w) \<Longrightarrow> split_on d (join [d] ws) = ws"
  by (induction "[d]" ws rule: join.induct) (auto simp: split_on_single split_on_append)

lemma join_split_on: "join [d] (split_on d s) = s"
proof (induction s)
  case (Cons c s)
  obtain w ws where w: "split_on d s = w # ws" by (cases "split_on d s") auto
  with Cons show ?case by (cases ws) auto
qed simp

lemma set_join_subset: "c \<in> set (join sep ws) \<Longrightarrow> c \<in> set sep \<or> (\<exists>w \<in> set ws. c \<in> set w)"
  by (induction sep ws rule: join.induct) auto

lemma join_Cons: "join sep (w # ws) = (if ws = [] then w else w @ sep @ join sep ws)"
  by (cases ws) auto

text \<open>\<open>strings.Cut\<close> with a separator of one byte.\<close>

fun cut :: "char \<Rightarrow> string \<Rightarrow> string \<times> string \<times> bool" where
  "cut d [] = ([], [], False)"
| "cut d (c # s) =
     (if c = d then ([], s, True) else case cut d s of (a, b, f) \<Rightarrow> (c # a, b, f))"

definition has_prefix :: "string \<Rightarrow> string \<Rightarrow> bool" where
  "has_prefix s p \<longleftrightarrow> take (length p) s = p"

definition has_suffix :: "string \<Rightarrow> string \<Rightarrow> bool" where
  "has_suffix s p \<longleftrightarrow> length p \<le> length s \<and> drop (length s - length p) s = p"

definition trim_suffix :: "string \<Rightarrow> string \<Rightarrow> string" where
  "trim_suffix s p = (if has_suffix s p then take (length s - length p) s else s)"

definition trim_prefix :: "string \<Rightarrow> string \<Rightarrow> string" where
  "trim_prefix s p = (if has_prefix s p then drop (length p) s else s)"

text \<open>
  A \<open>strings.Replacer\<close> whose old strings are single bytes replaces byte by byte, in one
  pass: nothing it wrote is looked at again.
\<close>

definition replace_bytes :: "(char \<rightharpoonup> string) \<Rightarrow> string \<Rightarrow> string" where
  "replace_bytes m s = concat (map (\<lambda>c. case m c of Some w \<Rightarrow> w | None \<Rightarrow> [c]) s)"

text \<open>
  \<open>strings.ToLower\<close> as far as a comparison with a lower-case ASCII word can see it, for the
  words the program compares with: no rune outside ASCII is mapped to one of their letters.
\<close>

definition lower_ascii :: "string \<Rightarrow> string" where
  "lower_ascii s =
     map (\<lambda>c. if 65 \<le> byte c \<and> byte c \<le> 90 then char_of (byte c + 32) else c) s"

section \<open>Numbers\<close>

definition digit :: "nat \<Rightarrow> char" where
  "digit d = char_of (48 + d)"

definition digit_val :: "char \<Rightarrow> nat option" where
  "digit_val c = (if 48 \<le> byte c \<and> byte c \<le> 57 then Some (byte c - 48) else None)"

lemma byte_digit: "d < 10 \<Longrightarrow> byte (digit d) = 48 + d"
  by (simp add: byte_def digit_def)

lemma digit_val_digit [simp]: "d < 10 \<Longrightarrow> digit_val (digit d) = Some d"
  by (simp add: digit_val_def byte_digit)

fun fmt_nat :: "nat \<Rightarrow> string" where
  "fmt_nat n = (if n < 10 then [digit n] else fmt_nat (n div 10) @ [digit (n mod 10)])"

declare fmt_nat.simps [simp del]

definition fmt_int :: "int \<Rightarrow> string" where
  "fmt_int x = (if x < 0 then CHR ''-'' # fmt_nat (nat (- x)) else fmt_nat (nat x))"

text \<open>
  \<open>strconv.Atoi\<close> and \<open>strconv.ParseInt(s, 10, 64)\<close>: an optional sign, at least one digit,
  digits only, in range.
\<close>

fun digits_val :: "nat \<Rightarrow> string \<Rightarrow> nat option" where
  "digits_val acc [] = Some acc"
| "digits_val acc (c # s) =
     (case digit_val c of None \<Rightarrow> None | Some d \<Rightarrow> digits_val (10 * acc + d) s)"

definition parse_uint :: "string \<Rightarrow> nat option" where
  "parse_uint s = (if s = [] then None else digits_val 0 s)"

definition parse_int64 :: "string \<Rightarrow> int64 option" where
  "parse_int64 s =
     (let neg = (s \<noteq> [] \<and> hd s = CHR ''-'');
          body = (if s \<noteq> [] \<and> (hd s = CHR ''-'' \<or> hd s = CHR ''+'') then tl s else s)
      in case parse_uint body of
           None \<Rightarrow> None
         | Some n \<Rightarrow> let x = (if neg then - int n else int n)
                      in if int64_range x then Some x else None)"

lemma digits_val_append:
  "digits_val acc (s @ t) =
     (case digits_val acc s of None \<Rightarrow> None | Some n \<Rightarrow> digits_val n t)"
  by (induction s arbitrary: acc) (auto split: option.splits)

lemma fmt_nat_not_Nil [simp]: "fmt_nat n \<noteq> []"
  by (subst fmt_nat.simps) simp

lemma digits_val_fmt_nat: "digits_val 0 (fmt_nat n) = Some n"
proof (induction n rule: fmt_nat.induct)
  case (1 n)
  show ?case
  proof (cases "n < 10")
    case True
    then show ?thesis by (subst fmt_nat.simps) simp
  next
    case False
    with 1 show ?thesis
      by (subst fmt_nat.simps) (simp add: digits_val_append)
  qed
qed

lemma fmt_nat_digits: "c \<in> set (fmt_nat n) \<Longrightarrow> 48 \<le> byte c \<and> byte c \<le> 57"
proof (induction n rule: fmt_nat.induct)
  case (1 n)
  then show ?case
    by (subst (asm) (2) fmt_nat.simps) (auto simp: byte_digit split: if_splits)
qed

lemma byte_char_simps [go_simps]:
  "byte (CHR ''-'') = 45" "byte (CHR '';'') = 59" "byte (CHR ''+'') = 43"
  by (simp_all add: byte_def)

lemma parse_uint_fmt_nat [simp]: "parse_uint (fmt_nat n) = Some n"
  by (simp add: parse_uint_def digits_val_fmt_nat)

lemma hd_fmt_nat: "48 \<le> byte (hd (fmt_nat n)) \<and> byte (hd (fmt_nat n)) \<le> 57"
  by (rule fmt_nat_digits [OF hd_in_set]) simp

lemma parse_int64_fmt_int: "int64_range x \<Longrightarrow> parse_int64 (fmt_int x) = Some x"
proof -
  assume r: "int64_range x"
  have "hd (fmt_nat n) \<noteq> CHR ''-''" "hd (fmt_nat n) \<noteq> CHR ''+''" for n
    using hd_fmt_nat [of n] by (auto simp: go_simps)
  with r show ?thesis by (simp add: fmt_int_def parse_int64_def Let_def)
qed

lemma fmt_int_bytes: "c \<in> set (fmt_int x) \<Longrightarrow> 45 \<le> byte c \<and> byte c \<le> 57 \<and> byte c \<noteq> 46"
  by (auto simp: fmt_int_def go_simps dest: fmt_nat_digits split: if_splits)

text \<open>\<open>strconv.ParseBool\<close>.\<close>

definition parse_bool :: "string \<Rightarrow> bool option" where
  "parse_bool s =
     (if s \<in> set [''1'', ''t'', ''T'', ''TRUE'', ''true'', ''True''] then Some True
      else if s \<in> set [''0'', ''f'', ''F'', ''FALSE'', ''false'', ''False''] then Some False
      else None)"

end
