(* ===== verification/Permissions.thy ===== *)
theory Permissions
  imports GoStrings
begin

text \<open>
  Permission strings and resolved permission sets (\<^verbatim>\<open>internal/auth/permissions.go\<close>), and what the
  demonstration account may hold (\<open>DemoPermissions\<close> in \<^verbatim>\<open>internal/auth/bootstrap.go\<close>).
\<close>

section \<open>The catalogue\<close>

definition PermHostsRead :: string where "PermHostsRead = ''hosts:read''"
definition PermServicesRead :: string where "PermServicesRead = ''services:read''"
definition PermProblemsRead :: string where "PermProblemsRead = ''problems:read''"
definition PermDowntimesRead :: string where "PermDowntimesRead = ''downtimes:read''"
definition PermAcksRead :: string where "PermAcksRead = ''acknowledgements:read''"
definition PermLogEntriesRead :: string where "PermLogEntriesRead = ''logentries:read''"
definition PermHistoryRead :: string where "PermHistoryRead = ''history:read''"
definition PermMetricsRead :: string where "PermMetricsRead = ''metrics:read''"
definition PermAuditRead :: string where "PermAuditRead = ''audit:read''"
definition PermCmdReschedule :: string where "PermCmdReschedule = ''commands:reschedule''"
definition PermCmdAcknowledge :: string where "PermCmdAcknowledge = ''commands:acknowledge''"
definition PermCmdDowntime :: string where "PermCmdDowntime = ''commands:downtime''"
definition PermCmdNotification :: string where "PermCmdNotification = ''commands:notification''"
definition PermCmdPassiveResult :: string where "PermCmdPassiveResult = ''commands:passiveresult''"
definition PermCmdToggle :: string where "PermCmdToggle = ''commands:toggle''"
definition PermUsersManage :: string where "PermUsersManage = ''users:manage''"
definition Wildcard :: string where "Wildcard = ''*''"

lemmas perm_names = PermHostsRead_def PermServicesRead_def PermProblemsRead_def
  PermDowntimesRead_def PermAcksRead_def PermLogEntriesRead_def PermHistoryRead_def
  PermMetricsRead_def PermAuditRead_def PermCmdReschedule_def PermCmdAcknowledge_def
  PermCmdDowntime_def PermCmdNotification_def PermCmdPassiveResult_def PermCmdToggle_def
  PermUsersManage_def Wildcard_def

definition read_permissions :: "string list" where
  "read_permissions =
     [PermHostsRead, PermServicesRead, PermProblemsRead, PermDowntimesRead,
      PermAcksRead, PermLogEntriesRead, PermHistoryRead, PermMetricsRead]"

definition command_permissions :: "string list" where
  "command_permissions =
     [PermCmdReschedule, PermCmdAcknowledge, PermCmdDowntime,
      PermCmdNotification, PermCmdPassiveResult, PermCmdToggle]"

definition demo_command_permission :: "string \<Rightarrow> string option" where
  "demo_command_permission name =
     (if name = ''acknowledge'' then Some PermCmdAcknowledge
      else if name = ''downtime'' then Some PermCmdDowntime
      else if name = ''reschedule'' then Some PermCmdReschedule
      else if name = ''submit-result'' then Some PermCmdPassiveResult
      else if name = ''toggle'' then Some PermCmdToggle
      else None)"

definition all_permissions :: "string list" where
  "all_permissions = (read_permissions @ command_permissions) @ [PermAuditRead, PermUsersManage]"

definition is_known_permission :: "string \<Rightarrow> bool" where
  "is_known_permission s \<longleftrightarrow> s = Wildcard \<or> list_ex (\<lambda>p. p = s) all_permissions"

section \<open>Resolved sets\<close>

record permission_set =
  ps_all :: bool
  ps_perms :: "string set"

definition add_permission :: "permission_set \<Rightarrow> string \<Rightarrow> permission_set" where
  "add_permission ps raw =
     (let p = trim_space raw in
      if p = Wildcard then ps\<lparr>ps_all := True\<rparr>
      else if p \<noteq> [] then ps\<lparr>ps_perms := insert p (ps_perms ps)\<rparr>
      else ps)"

definition new_permission_set :: "string list \<Rightarrow> permission_set" where
  "new_permission_set perms = foldl add_permission \<lparr>ps_all = False, ps_perms = {}\<rparr> perms"

definition has :: "permission_set \<Rightarrow> string \<Rightarrow> bool" where
  "has ps perm \<longleftrightarrow> (if ps_all ps then True else perm \<in> ps_perms ps)"

definition has_any_command :: "permission_set \<Rightarrow> bool" where
  "has_any_command ps \<longleftrightarrow> (if ps_all ps then True else list_ex (has ps) command_permissions)"

definition ps_list :: "permission_set \<Rightarrow> string list" where
  "ps_list ps =
     (if ps_all ps then all_permissions
      else filter (\<lambda>p. p \<in> ps_perms ps) all_permissions)"

definition demo_permissions :: "string list \<Rightarrow> string list" where
  "demo_permissions allowlist =
     read_permissions @ concat (map (\<lambda>name. case demo_command_permission name of
        Some perm \<Rightarrow> [perm] | None \<Rightarrow> []) allowlist)"

section \<open>Facts\<close>

lemma is_known_permission_iff:
  "is_known_permission s \<longleftrightarrow> s = Wildcard \<or> s \<in> set all_permissions"
  by (auto simp: is_known_permission_def list_ex_iff)

lemma all_permissions_split:
  "set all_permissions = set read_permissions \<union> set command_permissions \<union> {PermAuditRead, PermUsersManage}"
  by (simp add: all_permissions_def)

lemma Wildcard_not_listed: "Wildcard \<notin> set all_permissions"
  by (simp add: all_permissions_def read_permissions_def command_permissions_def perm_names)

lemma foldl_add_permission:
  "ps_all (foldl add_permission ps perms) \<longleftrightarrow> ps_all ps \<or> Wildcard \<in> trim_space ` set perms"
  "ps_perms (foldl add_permission ps perms)
     = ps_perms ps \<union> (trim_space ` set perms - {Wildcard, []})"
  by (induction perms arbitrary: ps) (auto simp: add_permission_def Let_def)

lemma new_permission_set_all [simp]:
  "ps_all (new_permission_set perms) \<longleftrightarrow> Wildcard \<in> trim_space ` set perms"
  by (simp add: new_permission_set_def foldl_add_permission)

lemma new_permission_set_perms [simp]:
  "ps_perms (new_permission_set perms) = trim_space ` set perms - {Wildcard, []}"
  by (simp add: new_permission_set_def foldl_add_permission)

text \<open>The names of the catalogue are their own trimmed form, and none of them is empty.\<close>

lemma printable_known: "list_all (\<lambda>p. printable p \<and> p \<noteq> []) (Wildcard # all_permissions)"
  by (simp add: all_permissions_def read_permissions_def command_permissions_def perm_names
      printable_def byte_def)

lemma trim_known_iff: "p \<in> set all_permissions \<Longrightarrow> trim_space p = p \<and> p \<noteq> []"
  "trim_space Wildcard = Wildcard"
  using printable_known by (auto simp: list_all_iff trim_space_printable)

lemma trim_image_known:
  "set perms \<subseteq> insert Wildcard (set all_permissions) \<Longrightarrow> trim_space ` set perms = set perms"
  using trim_known_iff by force

text \<open>A role whose list holds known permissions grants exactly them, or everything.\<close>

lemma has_new_permission_set:
  assumes "set perms \<subseteq> insert Wildcard (set all_permissions)" and "p \<in> set all_permissions"
  shows "has (new_permission_set perms) p \<longleftrightarrow> Wildcard \<in> set perms \<or> p \<in> set perms"
  using assms Wildcard_not_listed trim_known_iff(1) [OF assms(2)]
  by (auto simp: has_def trim_image_known)

lemma set_ps_list: "set (ps_list ps) = {p \<in> set all_permissions. has ps p}"
  by (auto simp: ps_list_def has_def)

lemma has_any_command_iff: "has_any_command ps \<longleftrightarrow> (\<exists>p \<in> set command_permissions. has ps p)"
  by (auto simp: has_any_command_def list_ex_iff has_def command_permissions_def)

lemma set_demo_permissions:
  "set (demo_permissions allowlist) =
     set read_permissions \<union> {p. \<exists>name \<in> set allowlist. demo_command_permission name = Some p}"
  by (force simp: demo_permissions_def split: option.splits)

lemma demo_command_permission_command:
  "demo_command_permission name = Some p \<Longrightarrow>
     p \<in> set command_permissions \<and> p \<noteq> PermCmdNotification"
  by (auto simp: demo_command_permission_def command_permissions_def perm_names split: if_splits)

lemma demo_permissions_known: "set (demo_permissions allowlist) \<subseteq> set all_permissions"
  using demo_command_permission_command
  by (auto simp: set_demo_permissions all_permissions_split)

lemma has_demo_permissions:
  "p \<in> set all_permissions \<Longrightarrow>
     has (new_permission_set (demo_permissions allowlist)) p
       \<longleftrightarrow> p \<in> set (demo_permissions allowlist)"
  using has_new_permission_set [of "demo_permissions allowlist" p] demo_permissions_known
    Wildcard_not_listed by blast

end
