(* ===== verification/Password.thy ===== *)
theory Password
  imports GoStrings
begin

text \<open>
  Password hashes in PHC format (\<^verbatim>\<open>internal/auth/password.go\<close>): the raw base64 encoding, the
  part of \<open>fmt.Sscanf\<close> that the two format strings use, and hashing and verification. The key
  derivation itself (\<open>argon2.IDKey\<close> and its version number, a third-party package) is a
  parameter: \<open>idkey password salt time memory threads length\<close>.
\<close>

section \<open>Raw base64\<close>

definition std_alphabet :: string where
  "std_alphabet = ''ABCDEFGHIJKLMNOPQRSTUVWXYZabcdefghijklmnopqrstuvwxyz0123456789+/''"

definition url_alphabet :: string where
  "url_alphabet = ''ABCDEFGHIJKLMNOPQRSTUVWXYZabcdefghijklmnopqrstuvwxyz0123456789-_''"

fun sextets :: "nat list \<Rightarrow> nat list" where
  "sextets [] = []"
| "sextets [a] = [a div 4, a mod 4 * 16]"
| "sextets [a, b] = [a div 4, a mod 4 * 16 + b div 16, b mod 16 * 4]"
| "sextets (a # b # c # r) =
     a div 4 # (a mod 4 * 16 + b div 16) # (b mod 16 * 4 + c div 64) # (c mod 64) # sextets r"

text \<open>A trailing group of one digit is an error; spare bits of a short group are ignored.\<close>

fun unsextets :: "nat list \<Rightarrow> nat list option" where
  "unsextets [] = Some []"
| "unsextets [w] = None"
| "unsextets [w, x] = Some [w * 4 + x div 16]"
| "unsextets [w, x, y] = Some [w * 4 + x div 16, x mod 16 * 16 + y div 4]"
| "unsextets (w # x # y # z # r) =
     map_option (\<lambda>bs. (w * 4 + x div 16) # (x mod 16 * 16 + y div 4) # (y mod 4 * 64 + z) # bs)
       (unsextets r)"

definition b64_encode :: "string \<Rightarrow> string \<Rightarrow> string" where
  "b64_encode alphabet s = map (\<lambda>i. alphabet ! i) (sextets (map byte s))"

definition b64_index :: "string \<Rightarrow> char \<Rightarrow> nat option" where
  "b64_index alphabet c = map_of (zip alphabet [0..<length alphabet]) c"

fun digits_of :: "(char \<Rightarrow> nat option) \<Rightarrow> string \<Rightarrow> nat list option" where
  "digits_of ix [] = Some []"
| "digits_of ix (c # s) =
     (case ix c of None \<Rightarrow> None | Some i \<Rightarrow> map_option (Cons i) (digits_of ix s))"

text \<open>The decoder skips line breaks wherever they stand.\<close>

definition b64_decode :: "string \<Rightarrow> string \<Rightarrow> string option" where
  "b64_decode alphabet s =
     (case digits_of (b64_index alphabet) (filter (\<lambda>c. byte c \<noteq> 10 \<and> byte c \<noteq> 13) s) of
        None \<Rightarrow> None
      | Some ds \<Rightarrow> map_option (map char_of) (unsextets ds))"

lemma sextets_less: "list_all (\<lambda>b. b < 256) bs \<Longrightarrow> i \<in> set (sextets bs) \<Longrightarrow> i < 64"
  by (induction bs rule: sextets.induct) (auto simp: less_mult_imp_div_less)

lemma unsextets_sextets: "list_all (\<lambda>b. b < 256) bs \<Longrightarrow> unsextets (sextets bs) = Some bs"
  by (induction bs rule: sextets.induct) (auto simp: div_mult2_eq mod_mult2_eq)

lemma alphabet_ok:
  "length std_alphabet = 64" "distinct std_alphabet" "CHR ''$'' \<notin> set std_alphabet"
  "list_all (\<lambda>c. byte c \<noteq> 10 \<and> byte c \<noteq> 13) std_alphabet"
  by (simp_all add: std_alphabet_def byte_def)

lemma b64_index_nth:
  assumes "distinct alphabet" and "i < length alphabet"
  shows "b64_index alphabet (alphabet ! i) = Some i"
proof -
  have "map fst (zip alphabet [0..<length alphabet]) = alphabet" by simp
  with assms show ?thesis
    unfolding b64_index_def by (intro map_of_is_SomeI) (auto simp: set_zip)
qed

lemma digits_of_nth:
  "distinct alphabet \<Longrightarrow> (\<And>i. i \<in> set ds \<Longrightarrow> i < length alphabet) \<Longrightarrow>
     digits_of (b64_index alphabet) (map ((!) alphabet) ds) = Some ds"
  by (induction ds) (simp_all add: b64_index_nth)

lemma bytes_list_all: "list_all (\<lambda>b. b < 256) (map byte s)"
  by (simp add: list_all_iff)

lemma b64_decode_encode:
  "b64_decode std_alphabet (b64_encode std_alphabet s) = Some s"
proof -
  let ?ds = "sextets (map byte s)"
  have small: "i < length std_alphabet" if "i \<in> set ?ds" for i
    using sextets_less [OF bytes_list_all that] by (simp add: alphabet_ok)
  have "filter (\<lambda>c. byte c \<noteq> 10 \<and> byte c \<noteq> 13) (b64_encode std_alphabet s)
      = b64_encode std_alphabet s"
    using alphabet_ok(4) small
    by (auto simp: b64_encode_def list_all_iff intro!: filter_True)
  then show ?thesis
    using digits_of_nth [OF alphabet_ok(2) small] unsextets_sextets [OF bytes_list_all]
    by (simp add: b64_decode_def b64_encode_def byte_def [abs_def] comp_def)
qed

lemma b64_encode_no_dollar: "CHR ''$'' \<notin> set (b64_encode std_alphabet s)"
proof
  assume "CHR ''$'' \<in> set (b64_encode std_alphabet s)"
  then obtain i where "i \<in> set (sextets (map byte s))" "CHR ''$'' = std_alphabet ! i"
    by (auto simp: b64_encode_def)
  with sextets_less [OF bytes_list_all] have "CHR ''$'' \<in> set std_alphabet"
    by (metis alphabet_ok(1) nth_mem)
  with alphabet_ok(3) show False ..
qed

section \<open>Scanning numbers\<close>

text \<open>\<open>%d\<close> skips spaces, fails on a line break, and then needs at least one digit.\<close>

fun skip_spaces :: "(nat \<times> string) list \<Rightarrow> (nat \<times> string) list option" where
  "skip_spaces [] = Some []"
| "skip_spaces ((r, b) # rs) =
     (if r = 10 then None else if is_space r then skip_spaces rs else Some ((r, b) # rs))"

definition skip_space :: "string \<Rightarrow> string option" where
  "skip_space s = map_option (concat \<circ> map snd) (skip_spaces (go_runes s))"

abbreviation is_digit :: "char \<Rightarrow> bool" where
  "is_digit c \<equiv> digit_val c \<noteq> None"

definition scan_digits :: "string \<Rightarrow> (nat \<times> string) option" where
  "scan_digits s =
     (case parse_uint (takeWhile is_digit s) of
        None \<Rightarrow> None | Some n \<Rightarrow> Some (n, dropWhile is_digit s))"

definition scan_uint :: "nat \<Rightarrow> string \<Rightarrow> (nat \<times> string) option" where
  "scan_uint bits s =
     (case skip_space s of
        None \<Rightarrow> None
      | Some t \<Rightarrow>
          case scan_digits t of
            None \<Rightarrow> None
          | Some (n, rest) \<Rightarrow> if n < 2 ^ bits then Some (n, rest) else None)"

definition scan_int :: "string \<Rightarrow> (int \<times> string) option" where
  "scan_int s =
     (case skip_space s of
        None \<Rightarrow> None
      | Some t \<Rightarrow>
          let neg = (t \<noteq> [] \<and> hd t = CHR ''-'');
              u = (if t \<noteq> [] \<and> (hd t = CHR ''-'' \<or> hd t = CHR ''+'') then tl t else t)
          in case scan_digits u of
               None \<Rightarrow> None
             | Some (n, rest) \<Rightarrow>
                 let x = (if neg then - int n else int n)
                 in if int64_range x then Some (x, rest) else None)"

definition scan_lit :: "string \<Rightarrow> string \<Rightarrow> string option" where
  "scan_lit lit s = (if has_prefix s lit then Some (drop (length lit) s) else None)"

text \<open>The two formats. Text after the last number is not looked at.\<close>

definition scan_version :: "string \<Rightarrow> int option" where
  "scan_version s = Option.bind (scan_lit ''v='' s) (\<lambda>s. map_option fst (scan_int s))"

definition scan_params :: "string \<Rightarrow> (nat \<times> nat \<times> nat) option" where
  "scan_params s =
     Option.bind (scan_lit ''m='' s) (\<lambda>s.
     Option.bind (scan_uint 32 s) (\<lambda>(m, s).
     Option.bind (scan_lit '',t='' s) (\<lambda>s.
     Option.bind (scan_uint 32 s) (\<lambda>(t, s).
     Option.bind (scan_lit '',p='' s) (\<lambda>s.
     Option.bind (scan_uint 8 s) (\<lambda>(p, s). Some (m, t, p)))))))"

lemma scan_lit_append [simp]: "scan_lit lit (lit @ s) = Some s"
  by (simp add: scan_lit_def has_prefix_def)

lemma fmt_nat_all_digits: "list_all is_digit (fmt_nat n)"
  using fmt_nat_digits by (fastforce simp: list_all_iff digit_val_def)

lemma skip_space_digit:
  assumes "48 \<le> byte c" and "byte c \<le> 57"
  shows "skip_space (c # s) = Some (c # s)"
proof -
  have "go_runes (c # s) = (byte c, [c]) # go_runes s"
    using assms by (simp add: go_runes_ascii del: go_runes.simps(2))
  moreover have "\<not> is_space (byte c)" using assms by (simp add: is_space_def)
  ultimately show ?thesis
    using assms by (simp add: skip_space_def go_runes_bytes del: go_runes.simps(2))
qed

lemma skip_space_fmt_nat [simp]: "skip_space (fmt_nat n @ rest) = Some (fmt_nat n @ rest)"
proof -
  obtain c s where "fmt_nat n = c # s" by (cases "fmt_nat n") auto
  with hd_fmt_nat [of n] show ?thesis by (simp add: skip_space_digit)
qed

lemma while_list_all:
  "list_all P xs \<Longrightarrow> takeWhile P (xs @ ys) = xs @ takeWhile P ys"
  "list_all P xs \<Longrightarrow> dropWhile P (xs @ ys) = dropWhile P ys"
  by (induction xs) auto

lemma scan_digits_fmt_nat:
  assumes "rest = [] \<or> \<not> is_digit (hd rest)"
  shows "scan_digits (fmt_nat n @ rest) = Some (n, rest)"
proof -
  have "takeWhile is_digit rest = []" "dropWhile is_digit rest = rest"
    using assms by (cases rest; auto)+
  then have "takeWhile is_digit (fmt_nat n @ rest) = fmt_nat n"
    "dropWhile is_digit (fmt_nat n @ rest) = rest"
    using fmt_nat_all_digits [of n]
    by (simp_all add: while_list_all)
  then show ?thesis by (simp add: scan_digits_def)
qed

lemma scan_uint_fmt_nat:
  "rest = [] \<or> \<not> is_digit (hd rest) \<Longrightarrow> n < 2 ^ bits \<Longrightarrow>
     scan_uint bits (fmt_nat n @ rest) = Some (n, rest)"
  by (simp add: scan_uint_def scan_digits_fmt_nat)

lemma scan_int_fmt_nat:
  assumes "rest = [] \<or> \<not> is_digit (hd rest)" and "n < 2 ^ 63"
  shows "scan_int (fmt_nat n @ rest) = Some (int n, rest)"
proof -
  have hd: "hd (fmt_nat n) \<noteq> CHR ''-''" "hd (fmt_nat n) \<noteq> CHR ''+''"
    using hd_fmt_nat [of n] by (auto simp: go_simps)
  have "int n < int (2 ^ 63)" using assms(2) by (simp only: of_nat_less_iff)
  then have "int n < 2 ^ 63" by simp
  with hd show ?thesis
    by (simp add: scan_int_def Let_def scan_digits_fmt_nat [OF assms(1)] int64_range_def)
qed

lemma scan_version_fmt: "n < 2 ^ 63 \<Longrightarrow> scan_version (''v='' @ fmt_nat n) = Some (int n)"
  using scan_int_fmt_nat [of "[]" n] by (simp add: scan_version_def del: append_Cons)

lemma scan_params_fmt:
  assumes "m < 2 ^ 32" and "t < 2 ^ 32" and "p < 2 ^ 8"
  shows "scan_params (''m='' @ fmt_nat m @ '',t='' @ fmt_nat t @ '',p='' @ fmt_nat p)
           = Some (m, t, p)"
proof -
  have comma: "\<not> is_digit (hd ('',t='' @ s))" "\<not> is_digit (hd ('',p='' @ s))" for s
    by (simp_all add: digit_val_def byte_def)
  show ?thesis
    using assms scan_uint_fmt_nat [of "'',t='' @ fmt_nat t @ '',p='' @ fmt_nat p" m 32]
      scan_uint_fmt_nat [of "'',p='' @ fmt_nat p" t 32] scan_uint_fmt_nat [of "[]" p 8] comma
    by (simp only: scan_params_def scan_lit_append bind.simps prod.case append_Nil2 simp_thms)
qed

section \<open>Hashing and verification\<close>

datatype hash_error = SaltSource | InvalidHash | UnsupportedVersion int

type_synonym kdf = "string \<Rightarrow> string \<Rightarrow> nat \<Rightarrow> nat \<Rightarrow> nat \<Rightarrow> nat \<Rightarrow> string"

definition argonTime :: nat where "argonTime = 3"
definition argonMemory :: nat where "argonMemory = 64 * 1024"
definition argonThreads :: nat where "argonThreads = 2"
definition argonKeyLen :: nat where "argonKeyLen = 32"
definition argonSaltLen :: nat where "argonSaltLen = 16"

definition phc :: "nat \<Rightarrow> nat \<Rightarrow> nat \<Rightarrow> nat \<Rightarrow> string \<Rightarrow> string \<Rightarrow> string" where
  "phc version memory time threads salt key =
     ''$argon2id$v='' @ fmt_nat version @ ''$m='' @ fmt_nat memory @ '',t='' @ fmt_nat time
     @ '',p='' @ fmt_nat threads @ ''$'' @ b64_encode std_alphabet salt
     @ ''$'' @ b64_encode std_alphabet key"

text \<open>\<open>salt\<close> is what the random source gives for a request of \<open>argonSaltLen\<close> bytes.\<close>

definition hash_password ::
  "kdf \<Rightarrow> nat \<Rightarrow> string option \<Rightarrow> string \<Rightarrow> hash_error + string" where
  "hash_password idkey version salt password =
     (case salt of
        None \<Rightarrow> Inl SaltSource
      | Some s \<Rightarrow>
          let key = idkey password s argonTime argonMemory argonThreads argonKeyLen
          in Inr (phc version argonMemory argonTime argonThreads s key))"

definition verify_password ::
  "kdf \<Rightarrow> nat \<Rightarrow> string \<Rightarrow> string \<Rightarrow> hash_error + bool" where
  "verify_password idkey argon_version password encoded =
     (let parts = split_on (CHR ''$'') encoded in
      if length parts \<noteq> 6 \<or> parts ! 0 \<noteq> [] \<or> parts ! 1 \<noteq> ''argon2id'' then Inl InvalidHash
      else case scan_version (parts ! 2) of
        None \<Rightarrow> Inl InvalidHash
      | Some version \<Rightarrow>
          if version \<noteq> int argon_version then Inl (UnsupportedVersion version)
          else case scan_params (parts ! 3) of
            None \<Rightarrow> Inl InvalidHash
          | Some (memory, t, threads) \<Rightarrow>
              case b64_decode std_alphabet (parts ! 4) of
                None \<Rightarrow> Inl InvalidHash
              | Some salt \<Rightarrow>
                  case b64_decode std_alphabet (parts ! 5) of
                    None \<Rightarrow> Inl InvalidHash
                  | Some want \<Rightarrow>
                      let got = idkey password salt t memory threads (length want mod 2 ^ 32)
                      in Inr (got = want))"

text \<open>Cutting a PHC string gives back its six fields.\<close>

lemma no_dollar [simp]:
  "CHR ''$'' \<notin> set (fmt_nat n)"
  by (auto dest!: fmt_nat_digits simp: byte_def)

lemma split_phc:
  "split_on (CHR ''$'') (phc version memory time threads salt key) =
     [[], ''argon2id'', ''v='' @ fmt_nat version,
      ''m='' @ fmt_nat memory @ '',t='' @ fmt_nat time @ '',p='' @ fmt_nat threads,
      b64_encode std_alphabet salt, b64_encode std_alphabet key]" (is "_ = ?ws")
proof -
  have "join [CHR ''$''] ?ws = phc version memory time threads salt key"
    by (simp add: phc_def)
  moreover have "split_on (CHR ''$'') (join [CHR ''$''] ?ws) = ?ws"
    by (rule split_on_join) (auto simp: b64_encode_no_dollar)
  ultimately show ?thesis by simp
qed

lemma verify_phc:
  assumes "version < 2 ^ 63" and "m < 2 ^ 32" and "t < 2 ^ 32" and "p < 2 ^ 8"
    and "length key < 2 ^ 32"
  shows "verify_password idkey version password (phc version m t p salt key)
    = Inr (idkey password salt t m p (length key) = key)"
  using assms
  by (simp add: verify_password_def split_phc Let_def scan_version_fmt [simplified]
      scan_params_fmt [simplified] b64_decode_encode nth_Cons')

text \<open>
  A stored hash is checked with the parameters it was written with, not with the current
  constants, so raising them invalidates nothing: verification recomputes exactly the stored
  derivation and compares all of it.
\<close>
theorem verify_uses_stored_parameters:
  assumes "version < 2 ^ 63" and "m < 2 ^ 32" and "t < 2 ^ 32" and "p < 2 ^ 8"
    and "length key < 2 ^ 32"
  shows "verify_password idkey version password (phc version m t p salt key)
    = Inr (idkey password salt t m p (length key) = key)"
  using assms by (rule verify_phc)

definition sample_kdf :: kdf where
  "sample_kdf password salt time memory threads len = take len (password @ salt @ replicate len (CHR ''k''))"

theorem verify_uses_stored_parameters_witness:
  "verify_password sample_kdf 19 ''secret'' (phc 19 65536 3 2 ''salt'' ''secr'')
    = Inr (sample_kdf ''secret'' ''salt'' 3 65536 2 (length ''secr'') = ''secr'')"
  by (rule verify_uses_stored_parameters) simp_all

lemma verify_hashed:
  assumes "hash_password idkey version salt password = Inr h" and "version < 2 ^ 63"
    and "\<And>pw s t m p n. length (idkey pw s t m p n) = n"
  shows "\<exists>s. salt = Some s \<and> verify_password idkey version candidate h
    = Inr (idkey candidate s argonTime argonMemory argonThreads argonKeyLen
           = idkey password s argonTime argonMemory argonThreads argonKeyLen)"
proof -
  from assms(1) obtain s where s: "salt = Some s"
    "h = phc version argonMemory argonTime argonThreads s
           (idkey password s argonTime argonMemory argonThreads argonKeyLen)"
    by (auto simp: hash_password_def Let_def split: option.splits)
  have small: "argonMemory < 2 ^ 32" "argonTime < 2 ^ 32" "argonThreads < 2 ^ 8"
    "length (idkey password s argonTime argonMemory argonThreads argonKeyLen) < 2 ^ 32"
    by (simp_all add: assms(3) argonTime_def argonMemory_def argonThreads_def argonKeyLen_def)
  have "verify_password idkey version candidate h
    = Inr (idkey candidate s argonTime argonMemory argonThreads argonKeyLen
           = idkey password s argonTime argonMemory argonThreads argonKeyLen)"
    unfolding s(2) verify_phc [OF assms(2) small] assms(3) ..
  with s(1) show ?thesis by blast
qed

text \<open>
  C27. Hashing and verifying are inverse: a hash made from a password accepts a candidate exactly
  when the derivation cannot tell the two apart, and in particular it accepts the password
  itself.
\<close>
theorem hash_password_verifies:
  assumes "hash_password idkey version salt password = Inr h" and "version < 2 ^ 63"
    and "\<And>pw s t m p n. length (idkey pw s t m p n) = n"
  shows "\<exists>s. salt = Some s \<and> verify_password idkey version candidate h
    = Inr (idkey candidate s argonTime argonMemory argonThreads argonKeyLen
           = idkey password s argonTime argonMemory argonThreads argonKeyLen)"
  by (rule verify_hashed [OF assms])

theorem hash_password_verifies_witness:
  "\<exists>h s. hash_password sample_kdf 19 (Some ''0123456789abcdef'') ''hunter2hunter2'' = Inr h
     \<and> verify_password sample_kdf 19 ''hunter3hunter3'' h
       = Inr (sample_kdf ''hunter3hunter3'' s argonTime argonMemory argonThreads argonKeyLen
              = sample_kdf ''hunter2hunter2'' s argonTime argonMemory argonThreads argonKeyLen)"
proof -
  have len: "length (sample_kdf pw s t m p n) = n" for pw s t m p n
    by (simp add: sample_kdf_def)
  obtain h where h: "hash_password sample_kdf 19 (Some ''0123456789abcdef'') ''hunter2hunter2'' = Inr h"
    by (simp add: hash_password_def Let_def)
  from hash_password_verifies [OF h _ len, of "''hunter3hunter3''"] h show ?thesis by auto
qed

end
