(* ===== verification/AuthStore.thy ===== *)
theory AuthStore
  imports Permissions Password
begin

text \<open>
  Accounts, roles and sessions (\<^verbatim>\<open>internal/auth/store.go\<close>) over the tables of
  \<^verbatim>\<open>internal/migrate/sql/0001_auth.sql\<close>. A table is the list of its rows, and each statement of
  the code is one step on the tables. What the code leaves to MySQL is a parameter: \<open>coll\<close> is
  the collation, the key by which names are compared and ordered, and \<open>db_faults\<close> says which
  of the coming statements fail (a lost connection, a full disk); a statement that fails changes
  nothing. Keys and foreign keys are checked by the tables, as declared.
\<close>

section \<open>Rows and tables\<close>

record role_row =
  rr_id :: uint32
  rr_name :: string
  rr_description :: string
  rr_permissions :: "string list option"  \<comment> \<open>the JSON column; None when it is not a list of strings\<close>
  rr_is_system :: bool
  rr_created_at :: int64

record user_row =
  ur_id :: uint32
  ur_username :: string
  ur_password_hash :: string
  ur_display_name :: string
  ur_email :: string
  ur_role_id :: uint32
  ur_is_active :: bool
  ur_created_at :: int64
  ur_updated_at :: int64
  ur_last_login_at :: "int64 option"

record session_row =
  se_id :: string
  se_user_id :: uint32
  se_created_at :: int64
  se_expires_at :: int64
  se_user_agent :: string
  se_ip :: string

record db =
  db_roles :: "role_row list"
  db_users :: "user_row list"
  db_sessions :: "session_row list"
  db_next_role :: nat
  db_next_user :: nat
  db_faults :: "bool list"

section \<open>Values\<close>

record role =
  ro_id :: uint32
  ro_name :: string
  ro_description :: string
  ro_permissions :: "string list"
  ro_is_system :: bool

record user =
  us_id :: uint32
  us_username :: string
  us_password_hash :: string
  us_display_name :: string
  us_email :: string
  us_role_id :: uint32
  us_role_name :: string
  us_is_active :: bool
  us_created_at :: int64
  us_last_login_at :: "int64 option"

record session =
  sn_id :: string
  sn_user_id :: uint32
  sn_created_at :: int64
  sn_expires_at :: int64

datatype auth_error =
    NotFound
  | Duplicate string
  | StoreError string
  | UnknownPermission string
  | UnreadablePermissions string
  | ListingFailed auth_error
  | InvalidCredentials
  | RateLimited
  | TokenSource
  | HashFailed hash_error
  | MissingRole string uint32
  | DemoNeedsRole string auth_error
  | DemoWrongRole string string
  | DemoHoldsMore string string

text \<open>\<open>errors.Is\<close> looks through the wrapping errors.\<close>

fun is_not_found :: "auth_error \<Rightarrow> bool" where
  "is_not_found NotFound = True"
| "is_not_found (ListingFailed e) = is_not_found e"
| "is_not_found (DemoNeedsRole r e) = is_not_found e"
| "is_not_found _ = False"

fun is_duplicate :: "auth_error \<Rightarrow> bool" where
  "is_duplicate (Duplicate w) = True"
| "is_duplicate (ListingFailed e) = is_duplicate e"
| "is_duplicate (DemoNeedsRole r e) = is_duplicate e"
| "is_duplicate _ = False"

type_synonym 'a store_op = "(db, auth_error, 'a) step"

section \<open>Statements\<close>

definition statement :: "string \<Rightarrow> 'a store_op \<Rightarrow> 'a store_op" where
  "statement what body d =
     (let d' = d\<lparr>db_faults := tl (db_faults d)\<rparr>
      in if db_faults d \<noteq> [] \<and> hd (db_faults d) then (Inl (StoreError what), d') else body d')"

text \<open>
  An \<open>UPDATE\<close> by primary key: the rows it changes, and how many it changed. The driver reports
  changed rows, not matched ones.
\<close>

definition update_rows :: "('r \<Rightarrow> bool) \<Rightarrow> ('r \<Rightarrow> 'r) \<Rightarrow> 'r list \<Rightarrow> nat \<times> 'r list" where
  "update_rows P f rows =
     (length (filter (\<lambda>r. P r \<and> f r \<noteq> r) rows), map (\<lambda>r. if P r then f r else r) rows)"

definition affect_one :: "string \<Rightarrow> (db \<Rightarrow> nat \<times> db) \<Rightarrow> unit store_op" where
  "affect_one what upd =
     statement what (\<lambda>d. let (n, d') = upd d in if n = 0 then (Inl NotFound, d') else (Inr (), d'))"

definition update_users :: "(user_row \<Rightarrow> bool) \<Rightarrow> (user_row \<Rightarrow> user_row) \<Rightarrow> db \<Rightarrow> nat \<times> db" where
  "update_users P f d = (let (n, rows) = update_rows P f (db_users d) in (n, d\<lparr>db_users := rows\<rparr>))"

definition delete_sessions :: "(session_row \<Rightarrow> bool) \<Rightarrow> db \<Rightarrow> db" where
  "delete_sessions P d = d\<lparr>db_sessions := filter (\<lambda>s. \<not> P s) (db_sessions d)\<rparr>"

section \<open>Users\<close>

text \<open>\<open>FROM sei_users u JOIN sei_roles r ON r.id = u.role_id\<close>\<close>

definition user_of :: "user_row \<Rightarrow> role_row \<Rightarrow> user" where
  "user_of u r =
     \<lparr>us_id = ur_id u, us_username = ur_username u, us_password_hash = ur_password_hash u,
      us_display_name = ur_display_name u, us_email = ur_email u, us_role_id = ur_role_id u,
      us_role_name = rr_name r, us_is_active = ur_is_active u, us_created_at = ur_created_at u,
      us_last_login_at = ur_last_login_at u\<rparr>"

definition join_role :: "db \<Rightarrow> user_row \<Rightarrow> user list" where
  "join_role d u = map (user_of u) (filter (\<lambda>r. rr_id r = ur_role_id u) (db_roles d))"

definition select_users :: "(user_row \<Rightarrow> bool) \<Rightarrow> db \<Rightarrow> user list" where
  "select_users P d = concat (map (join_role d) (filter P (db_users d)))"

definition first_row :: "'a list \<Rightarrow> auth_error + 'a" where
  "first_row rows = (case rows of [] \<Rightarrow> Inl NotFound | r # _ \<Rightarrow> Inr r)"

definition user_by_username :: "(string \<Rightarrow> string) \<Rightarrow> string \<Rightarrow> user store_op" where
  "user_by_username coll username =
     statement ''user'' (\<lambda>d. (first_row (select_users (\<lambda>u. coll (ur_username u) = coll username) d), d))"

definition user_by_id :: "uint32 \<Rightarrow> user store_op" where
  "user_by_id i = statement ''user'' (\<lambda>d. (first_row (select_users (\<lambda>u. ur_id u = i) d), d))"

definition list_users :: "(string \<Rightarrow> string) \<Rightarrow> user list store_op" where
  "list_users coll =
     statement ''listing users''
       (\<lambda>d. (Inr (sort_key (\<lambda>u. coll (us_username u)) (select_users (\<lambda>u. True) d)), d))"

definition create_user :: "(string \<Rightarrow> string) \<Rightarrow> int64 \<Rightarrow> user \<Rightarrow> uint32 store_op" where
  "create_user coll now u =
     statement ''creating user'' (\<lambda>d.
       if list_ex (\<lambda>v. coll (ur_username v) = coll (us_username u)) (db_users d)
       then (Inl (Duplicate (us_username u)), d)
       else if \<not> list_ex (\<lambda>r. rr_id r = us_role_id u) (db_roles d) \<or> 2 ^ 32 \<le> db_next_user d
       then (Inl (StoreError ''creating user''), d)
       else
         let i = of_nat (db_next_user d) in
         (Inr i, d\<lparr>db_users := db_users d @
            [\<lparr>ur_id = i, ur_username = us_username u, ur_password_hash = us_password_hash u,
              ur_display_name = us_display_name u, ur_email = us_email u,
              ur_role_id = us_role_id u, ur_is_active = us_is_active u,
              ur_created_at = now, ur_updated_at = now, ur_last_login_at = None\<rparr>],
            db_next_user := Suc (db_next_user d)\<rparr>))"

definition set_password :: "int64 \<Rightarrow> uint32 \<Rightarrow> string \<Rightarrow> unit store_op" where
  "set_password now i h =
     affect_one ''setting password''
       (update_users (\<lambda>u. ur_id u = i) (\<lambda>u. u\<lparr>ur_password_hash := h, ur_updated_at := now\<rparr>))"

text \<open>An update that breaks the foreign key fails as a whole.\<close>

definition set_role :: "int64 \<Rightarrow> uint32 \<Rightarrow> uint32 \<Rightarrow> unit store_op" where
  "set_role now i role_id d =
     (if list_ex (\<lambda>u. ur_id u = i) (db_users d) \<and> \<not> list_ex (\<lambda>r. rr_id r = role_id) (db_roles d)
      then statement ''setting role'' (\<lambda>d. (Inl (StoreError ''setting role''), d)) d
      else affect_one ''setting role''
        (update_users (\<lambda>u. ur_id u = i) (\<lambda>u. u\<lparr>ur_role_id := role_id, ur_updated_at := now\<rparr>)) d)"

definition delete_user_sessions :: "uint32 \<Rightarrow> unit store_op" where
  "delete_user_sessions i =
     statement ''deleting user sessions'' (\<lambda>d. (Inr (), delete_sessions (\<lambda>s. se_user_id s = i) d))"

definition set_active :: "int64 \<Rightarrow> uint32 \<Rightarrow> bool \<Rightarrow> unit store_op" where
  "set_active now i active =
     bind_step
       (affect_one ''setting active''
         (update_users (\<lambda>u. ur_id u = i) (\<lambda>u. u\<lparr>ur_is_active := active, ur_updated_at := now\<rparr>)))
       (\<lambda>_. if \<not> active then delete_user_sessions i else return ())"

definition touch_login :: "int64 \<Rightarrow> uint32 \<Rightarrow> unit store_op" where
  "touch_login now i =
     statement ''recording login'' (\<lambda>d.
       (Inr (), snd (update_users (\<lambda>u. ur_id u = i) (\<lambda>u. u\<lparr>ur_last_login_at := Some now\<rparr>) d)))"

section \<open>Roles\<close>

definition scan_role :: "role_row \<Rightarrow> auth_error + role" where
  "scan_role r =
     (case rr_permissions r of
        None \<Rightarrow> Inl (UnreadablePermissions (rr_name r))
      | Some perms \<Rightarrow>
          Inr \<lparr>ro_id = rr_id r, ro_name = rr_name r, ro_description = rr_description r,
               ro_permissions = perms, ro_is_system = rr_is_system r\<rparr>)"

definition role_by_name :: "(string \<Rightarrow> string) \<Rightarrow> string \<Rightarrow> role store_op" where
  "role_by_name coll name =
     statement ''role'' (\<lambda>d.
       (bind_err (first_row (filter (\<lambda>r. coll (rr_name r) = coll name) (db_roles d))) scan_role, d))"

definition list_roles :: "(string \<Rightarrow> string) \<Rightarrow> role list store_op" where
  "list_roles coll =
     statement ''listing roles'' (\<lambda>d.
       (case map_err scan_role (sort_key (\<lambda>r. coll (rr_name r)) (db_roles d)) of
          Inl e \<Rightarrow> Inl (ListingFailed e)
        | Inr rs \<Rightarrow> Inr rs, d))"

fun unknown_permission :: "string list \<Rightarrow> string option" where
  "unknown_permission [] = None"
| "unknown_permission (p # ps) = (if \<not> is_known_permission p then Some p else unknown_permission ps)"

definition create_role :: "(string \<Rightarrow> string) \<Rightarrow> int64 \<Rightarrow> role \<Rightarrow> uint32 store_op" where
  "create_role coll now r =
     (case unknown_permission (ro_permissions r) of
        Some p \<Rightarrow> fail (UnknownPermission p)
      | None \<Rightarrow>
          statement ''creating role'' (\<lambda>d.
            if list_ex (\<lambda>x. coll (rr_name x) = coll (ro_name r)) (db_roles d)
            then (Inl (Duplicate (ro_name r)), d)
            else if 2 ^ 32 \<le> db_next_role d then (Inl (StoreError ''creating role''), d)
            else
              let i = of_nat (db_next_role d) in
              (Inr i, d\<lparr>db_roles := db_roles d @
                 [\<lparr>rr_id = i, rr_name = ro_name r, rr_description = ro_description r,
                   rr_permissions = Some (ro_permissions r), rr_is_system = ro_is_system r,
                   rr_created_at = now\<rparr>],
                 db_next_role := Suc (db_next_role d)\<rparr>)))"

definition set_role_permissions :: "uint32 \<Rightarrow> string list \<Rightarrow> unit store_op" where
  "set_role_permissions i perms =
     (case unknown_permission perms of
        Some p \<Rightarrow> fail (UnknownPermission p)
      | None \<Rightarrow>
          affect_one ''updating role permissions'' (\<lambda>d.
            let (n, rows) = update_rows (\<lambda>r. rr_id r = i)
                  (\<lambda>r. r\<lparr>rr_permissions := Some perms\<rparr>) (db_roles d)
            in (n, d\<lparr>db_roles := rows\<rparr>)))"

section \<open>Sessions\<close>

definition truncate_bytes :: "string \<Rightarrow> nat \<Rightarrow> string" where
  "truncate_bytes s n = (if length s \<le> n then s else take n s)"

definition session_row_of :: "session \<Rightarrow> string \<Rightarrow> string \<Rightarrow> session_row" where
  "session_row_of sess user_agent ip =
     \<lparr>se_id = sn_id sess, se_user_id = sn_user_id sess, se_created_at = sn_created_at sess,
      se_expires_at = sn_expires_at sess, se_user_agent = truncate_bytes user_agent 255,
      se_ip = truncate_bytes ip 45\<rparr>"

lemma session_row_of_sel [simp]:
  "se_id (session_row_of x ua ip) = sn_id x" "se_user_id (session_row_of x ua ip) = sn_user_id x"
  "se_expires_at (session_row_of x ua ip) = sn_expires_at x"
  "se_created_at (session_row_of x ua ip) = sn_created_at x"
  by (simp_all add: session_row_of_def)

definition create_session :: "session \<Rightarrow> string \<Rightarrow> string \<Rightarrow> unit store_op" where
  "create_session sess user_agent ip =
     statement ''creating session'' (\<lambda>d.
       if list_ex (\<lambda>s. se_id s = sn_id sess) (db_sessions d)
          \<or> \<not> list_ex (\<lambda>u. ur_id u = sn_user_id sess) (db_users d)
       then (Inl (StoreError ''creating session''), d)
       else (Inr (), d\<lparr>db_sessions := db_sessions d @
          [session_row_of sess user_agent ip]\<rparr>))"

definition session_by_id :: "int64 \<Rightarrow> string \<Rightarrow> session store_op" where
  "session_by_id now i =
     statement ''reading session'' (\<lambda>d.
       (first_row (map (\<lambda>s. \<lparr>sn_id = se_id s, sn_user_id = se_user_id s,
                             sn_created_at = se_created_at s, sn_expires_at = se_expires_at s\<rparr>)
          (filter (\<lambda>s. se_id s = i \<and> se_expires_at s > now) (db_sessions d))), d))"

definition extend_session :: "string \<Rightarrow> int64 \<Rightarrow> unit store_op" where
  "extend_session i expires_at =
     statement ''extending session'' (\<lambda>d.
       (Inr (), d\<lparr>db_sessions :=
          map (\<lambda>s. if se_id s = i then s\<lparr>se_expires_at := expires_at\<rparr> else s) (db_sessions d)\<rparr>))"

definition delete_session :: "string \<Rightarrow> unit store_op" where
  "delete_session i =
     statement ''deleting session'' (\<lambda>d. (Inr (), delete_sessions (\<lambda>s. se_id s = i) d))"

definition delete_expired_sessions :: "int64 \<Rightarrow> nat store_op" where
  "delete_expired_sessions now =
     statement ''pruning sessions'' (\<lambda>d.
       (Inr (length (filter (\<lambda>s. se_expires_at s \<le> now) (db_sessions d))),
        delete_sessions (\<lambda>s. se_expires_at s \<le> now) d))"


section \<open>The invariant of the tables\<close>

text \<open>Primary keys, unique keys and foreign keys, and counters ahead of the keys given out.\<close>

definition roles_ok :: "(string \<Rightarrow> string) \<Rightarrow> role_row list \<Rightarrow> nat \<Rightarrow> bool" where
  "roles_ok coll rs n \<longleftrightarrow>
     distinct (map rr_id rs) \<and> distinct (map (\<lambda>r. coll (rr_name r)) rs)
     \<and> (\<forall>r \<in> set rs. unat (rr_id r) < n)"

definition users_ok :: "(string \<Rightarrow> string) \<Rightarrow> uint32 set \<Rightarrow> user_row list \<Rightarrow> nat \<Rightarrow> bool" where
  "users_ok coll ids us n \<longleftrightarrow>
     distinct (map ur_id us) \<and> distinct (map (\<lambda>u. coll (ur_username u)) us)
     \<and> (\<forall>u \<in> set us. unat (ur_id u) < n \<and> ur_role_id u \<in> ids)"

definition sessions_ok :: "uint32 set \<Rightarrow> session_row list \<Rightarrow> bool" where
  "sessions_ok ids ss \<longleftrightarrow>
     distinct (map se_id ss) \<and> (\<forall>s \<in> set ss. se_user_id s \<in> ids)"

definition db_inv :: "(string \<Rightarrow> string) \<Rightarrow> db \<Rightarrow> bool" where
  "db_inv coll d \<longleftrightarrow>
     roles_ok coll (db_roles d) (db_next_role d)
     \<and> users_ok coll (rr_id ` set (db_roles d)) (db_users d) (db_next_user d)
     \<and> sessions_ok (ur_id ` set (db_users d)) (db_sessions d)"

definition empty_db :: db where
  "empty_db = \<lparr>db_roles = [], db_users = [], db_sessions = [], db_next_role = 1,
               db_next_user = 1, db_faults = []\<rparr>"

lemma empty_db_inv: "db_inv coll empty_db"
  by (simp add: db_inv_def roles_ok_def users_ok_def sessions_ok_def empty_db_def)

lemma db_inv_faults [simp]: "db_inv coll (d\<lparr>db_faults := fs\<rparr>) = db_inv coll d"
  by (simp add: db_inv_def)

lemma keeps_statement:
  assumes "\<And>d. db_inv coll d \<Longrightarrow> db_inv coll (snd (body d))"
  shows "keeps (db_inv coll) (statement what body)"
  using assms by (auto simp: keeps_def statement_def Let_def)

lemma keeps_query [keeps_intros]: "keeps (db_inv coll) (statement what (\<lambda>d. (f d, d)))"
  by (rule keeps_statement) simp

lemma unat_of_nat_next: "n < 2 ^ 32 \<Longrightarrow> unat (of_nat n :: uint32) = n"
  by (simp add: unat_of_nat)

lemma roles_ok_append:
  assumes "roles_ok coll rs n" and "n < 2 ^ 32" and "rr_id r = of_nat n"
    and "\<not> list_ex (\<lambda>x. coll (rr_name x) = coll (rr_name r)) rs"
  shows "roles_ok coll (rs @ [r]) (Suc n)"
  using assms unat_of_nat_next [OF assms(2)] by (fastforce simp: roles_ok_def list_ex_iff)

lemma users_ok_append:
  assumes "users_ok coll ids us n" and "n < 2 ^ 32" and "ur_id u = of_nat n"
    and "\<not> list_ex (\<lambda>x. coll (ur_username x) = coll (ur_username u)) us" and "ur_role_id u \<in> ids"
  shows "users_ok coll ids (us @ [u]) (Suc n)"
  using assms unat_of_nat_next [OF assms(2)] by (fastforce simp: users_ok_def list_ex_iff)

lemma users_ok_mono: "users_ok coll ids us n \<Longrightarrow> ids \<subseteq> ids' \<Longrightarrow> users_ok coll ids' us n"
  by (auto simp: users_ok_def)

lemma sessions_ok_mono: "sessions_ok ids ss \<Longrightarrow> ids \<subseteq> ids' \<Longrightarrow> sessions_ok ids' ss"
  by (auto simp: sessions_ok_def)

lemma sessions_ok_filter: "sessions_ok ids ss \<Longrightarrow> sessions_ok ids (filter P ss)"
  by (auto simp: sessions_ok_def intro: distinct_map_filter)

lemma update_rows_map:
  "(\<And>r. g (f r) = g r) \<Longrightarrow> map g (snd (update_rows P f rs)) = map g rs"
  by (simp add: update_rows_def)

lemma update_rows_image:
  "(\<And>r. g (f r) = g r) \<Longrightarrow> g ` set (snd (update_rows P f rs)) = g ` set rs"
  by (metis update_rows_map list.set_map)

lemma update_rows_elem:
  "x \<in> set (snd (update_rows P f rs)) \<Longrightarrow> \<exists>r \<in> set rs. x = (if P r then f r else r)"
  by (auto simp: update_rows_def)

lemma users_ok_update:
  assumes "users_ok coll ids us n"
    and "\<And>u. ur_id (f u) = ur_id u" "\<And>u. ur_username (f u) = ur_username u"
    and "\<And>u. u \<in> set us \<Longrightarrow> P u \<Longrightarrow> ur_role_id (f u) \<in> ids"
  shows "users_ok coll ids (snd (update_rows P f us)) n"
proof -
  have "distinct (map ur_id (snd (update_rows P f us)))"
    "distinct (map (\<lambda>u. coll (ur_username u)) (snd (update_rows P f us)))"
    using assms(1-3) by (simp_all add: update_rows_map users_ok_def)
  moreover have "unat (ur_id x) < n \<and> ur_role_id x \<in> ids"
    if "x \<in> set (snd (update_rows P f us))" for x
    using update_rows_elem [OF that] assms by (auto simp: users_ok_def)
  ultimately show ?thesis by (simp add: users_ok_def)
qed

lemma update_users_inv:
  assumes "db_inv coll d"
    and "\<And>u. ur_id (f u) = ur_id u" "\<And>u. ur_username (f u) = ur_username u"
    and "\<And>u. u \<in> set (db_users d) \<Longrightarrow> P u \<Longrightarrow> ur_role_id (f u) \<in> rr_id ` set (db_roles d)"
  shows "db_inv coll (snd (update_users P f d))"
proof -
  from assms(1) have u: "users_ok coll (rr_id ` set (db_roles d)) (db_users d) (db_next_user d)"
    by (simp add: db_inv_def)
  have "users_ok coll (rr_id ` set (db_roles d)) (snd (update_rows P f (db_users d))) (db_next_user d)"
    by (rule users_ok_update [OF u assms(2,3,4)])
  moreover have "ur_id ` set (snd (update_rows P f (db_users d))) = ur_id ` set (db_users d)"
    by (rule update_rows_image) (rule assms(2))
  ultimately show ?thesis
    using assms(1) by (simp add: db_inv_def update_users_def case_prod_beta)
qed

lemma db_inv_role_id: "db_inv coll d \<Longrightarrow> u \<in> set (db_users d) \<Longrightarrow> ur_role_id u \<in> rr_id ` set (db_roles d)"
  by (simp add: db_inv_def users_ok_def)

lemma keeps_affect_one:
  assumes "\<And>d. db_inv coll d \<Longrightarrow> db_inv coll (snd (upd d))"
  shows "keeps (db_inv coll) (affect_one what upd)"
  unfolding affect_one_def using assms by (intro keeps_statement) (simp add: Let_def case_prod_beta)

lemma delete_sessions_inv: "db_inv coll d \<Longrightarrow> db_inv coll (delete_sessions P d)"
  by (simp add: db_inv_def delete_sessions_def sessions_ok_filter)

section \<open>Every operation keeps it\<close>

lemma keeps_reads [keeps_intros]:
  "keeps (db_inv coll) (user_by_username coll' n)" "keeps (db_inv coll) (user_by_id i)"
  "keeps (db_inv coll) (list_users coll')" "keeps (db_inv coll) (role_by_name coll' n)"
  "keeps (db_inv coll) (list_roles coll')" "keeps (db_inv coll) (session_by_id now k)"
  by (simp_all add: user_by_username_def user_by_id_def list_users_def role_by_name_def
      list_roles_def session_by_id_def keeps_query)

lemma keeps_create_user [keeps_intros]: "keeps (db_inv coll) (create_user coll now u)"
  unfolding create_user_def
  by (rule keeps_statement)
    (auto simp: db_inv_def Let_def list_ex_iff intro!: users_ok_append image_eqI
      elim!: sessions_ok_mono)

lemma keeps_set_password [keeps_intros]: "keeps (db_inv coll) (set_password now i h)"
  unfolding set_password_def
  by (intro keeps_affect_one update_users_inv) (auto dest: db_inv_role_id)

lemma keeps_delete_user_sessions [keeps_intros]: "keeps (db_inv coll) (delete_user_sessions i)"
  unfolding delete_user_sessions_def by (rule keeps_statement) (simp add: delete_sessions_inv)

lemma keeps_set_active [keeps_intros]: "keeps (db_inv coll) (set_active now i b)"
  unfolding set_active_def
  by (intro keeps_intros keeps_affect_one update_users_inv) (auto dest: db_inv_role_id)

lemma keeps_touch_login [keeps_intros]: "keeps (db_inv coll) (touch_login now i)"
  unfolding touch_login_def
  by (rule keeps_statement) (auto intro!: update_users_inv dest: db_inv_role_id)

lemma keeps_set_role [keeps_intros]: "keeps (db_inv coll) (set_role now i r)"
proof (rule keepsI)
  fix d
  assume inv: "db_inv coll d"
  show "db_inv coll (snd (set_role now i r d))"
  proof (cases "list_ex (\<lambda>u. ur_id u = i) (db_users d) \<and> \<not> list_ex (\<lambda>x. rr_id x = r) (db_roles d)")
    case True
    with inv show ?thesis by (simp add: set_role_def statement_def Let_def)
  next
    case False
    let ?d = "d\<lparr>db_faults := tl (db_faults d)\<rparr>"
    have "db_inv coll (snd (update_users (\<lambda>u. ur_id u = i)
        (\<lambda>u. u\<lparr>ur_role_id := r, ur_updated_at := now\<rparr>) ?d))"
      using inv False by (intro update_users_inv) (auto simp: list_ex_iff)
    with False inv show ?thesis
      by (auto simp: set_role_def affect_one_def statement_def Let_def split: prod.splits)
  qed
qed

lemma keeps_create_role [keeps_intros]: "keeps (db_inv coll) (create_role coll now r)"
  unfolding create_role_def
  by (intro keeps_option keeps_fail keeps_statement)
    (auto simp: db_inv_def Let_def intro!: roles_ok_append elim: users_ok_mono sessions_ok_mono)

lemma keeps_set_role_permissions [keeps_intros]: "keeps (db_inv coll) (set_role_permissions i ps)"
proof -
  have "map rr_id (snd (update_rows (\<lambda>r. rr_id r = i) (\<lambda>r. r\<lparr>rr_permissions := Some ps\<rparr>) rs)) = map rr_id rs"
    "map (\<lambda>r. coll (rr_name r)) (snd (update_rows (\<lambda>r. rr_id r = i) (\<lambda>r. r\<lparr>rr_permissions := Some ps\<rparr>) rs))
       = map (\<lambda>r. coll (rr_name r)) rs"
    "rr_id ` set (snd (update_rows (\<lambda>r. rr_id r = i) (\<lambda>r. r\<lparr>rr_permissions := Some ps\<rparr>) rs)) = rr_id ` set rs"
    for rs :: "role_row list"
    by (rule update_rows_map update_rows_image, simp)+
  moreover have "unat (rr_id x) < n"
    if "x \<in> set (snd (update_rows (\<lambda>r. rr_id r = i) (\<lambda>r. r\<lparr>rr_permissions := Some ps\<rparr>) rs))"
      "\<forall>r \<in> set rs. unat (rr_id r) < n" for x rs n
    using update_rows_elem [OF that(1)] that(2) by auto
  ultimately show ?thesis
    unfolding set_role_permissions_def
    by (intro keeps_option keeps_fail keeps_affect_one)
      (simp add: db_inv_def roles_ok_def case_prod_beta Let_def, blast)
qed

lemma keeps_create_session [keeps_intros]: "keeps (db_inv coll) (create_session s ua ip)"
  unfolding create_session_def
  by (rule keeps_statement)
    (auto simp: db_inv_def sessions_ok_def list_ex_iff intro!: image_eqI)

lemma keeps_session_ops [keeps_intros]:
  "keeps (db_inv coll) (extend_session k e)" "keeps (db_inv coll) (delete_session k)"
  "keeps (db_inv coll) (delete_expired_sessions now)"
proof -
  show "keeps (db_inv coll) (extend_session k e)"
    unfolding extend_session_def
    by (rule keeps_statement) (auto simp: db_inv_def sessions_ok_def comp_def if_distrib
        cong: if_cong)
qed (unfold delete_session_def delete_expired_sessions_def,
     (rule keeps_statement, simp add: delete_sessions_inv)+)


section \<open>What each operation answers\<close>

abbreviation pop_fault :: "db \<Rightarrow> db" where
  "pop_fault d \<equiv> d\<lparr>db_faults := tl (db_faults d)\<rparr>"

definition faulty :: "db \<Rightarrow> bool" where
  "faulty d \<longleftrightarrow> db_faults d \<noteq> [] \<and> hd (db_faults d)"

lemma statement_eq:
  "statement what body d =
     (if faulty d then (Inl (StoreError what), pop_fault d) else body (pop_fault d))"
  by (simp add: statement_def faulty_def Let_def)

lemma no_faults [simp]: "db_faults d = [] \<Longrightarrow> \<not> faulty d" "db_faults d = [] \<Longrightarrow> pop_fault d = d"
  by (simp_all add: faulty_def)

lemma select_users_pop [simp]: "select_users P (d\<lparr>db_faults := fs\<rparr>) = select_users P d"
  by (simp add: select_users_def join_role_def [abs_def])

lemma first_row_Inr: "first_row rows = Inr x \<longleftrightarrow> (\<exists>rest. rows = x # rest)"
  by (cases rows) (auto simp: first_row_def)

lemma first_row_Inl: "first_row rows = Inl e \<longleftrightarrow> rows = [] \<and> e = NotFound"
  by (cases rows) (auto simp: first_row_def)

lemma set_select_users:
  "u \<in> set (select_users P d) \<longleftrightarrow>
     (\<exists>ur \<in> set (db_users d). \<exists>rr \<in> set (db_roles d).
        P ur \<and> rr_id rr = ur_role_id ur \<and> u = user_of ur rr)"
  by (auto simp: select_users_def join_role_def)

lemma user_by_username_Inr:
  assumes "user_by_username coll n d = (Inr u, d')"
  shows "d' = pop_fault d \<and>
    (\<exists>ur \<in> set (db_users d). \<exists>rr \<in> set (db_roles d).
       coll (ur_username ur) = coll n \<and> rr_id rr = ur_role_id ur \<and> u = user_of ur rr)"
proof -
  from assms have "d' = pop_fault d"
    and "\<exists>rest. select_users (\<lambda>ur. coll (ur_username ur) = coll n) d = u # rest"
    by (auto simp: user_by_username_def statement_eq first_row_Inr split: if_splits)
  then show ?thesis using set_select_users [of u "\<lambda>ur. coll (ur_username ur) = coll n" d] by auto
qed

lemma user_by_id_Inr:
  assumes "user_by_id i d = (Inr u, d')"
  shows "d' = pop_fault d \<and>
    (\<exists>ur \<in> set (db_users d). \<exists>rr \<in> set (db_roles d).
       ur_id ur = i \<and> rr_id rr = ur_role_id ur \<and> u = user_of ur rr)"
proof -
  from assms have "d' = pop_fault d"
    and "\<exists>rest. select_users (\<lambda>ur. ur_id ur = i) d = u # rest"
    by (auto simp: user_by_id_def statement_eq first_row_Inr split: if_splits)
  then show ?thesis using set_select_users [of u "\<lambda>ur. ur_id ur = i" d] by auto
qed

lemma query_state:
  "snd (user_by_username coll n d) = pop_fault d" "snd (user_by_id i d) = pop_fault d"
  "snd (role_by_name coll n d) = pop_fault d" "snd (list_roles coll d) = pop_fault d"
  "snd (session_by_id now k d) = pop_fault d" "snd (list_users coll d) = pop_fault d"
  by (simp_all add: user_by_username_def user_by_id_def role_by_name_def list_roles_def
      session_by_id_def list_users_def statement_eq)

lemma user_of_sel [simp]:
  "us_id (user_of u r) = ur_id u" "us_username (user_of u r) = ur_username u"
  "us_password_hash (user_of u r) = ur_password_hash u" "us_role_id (user_of u r) = ur_role_id u"
  "us_role_name (user_of u r) = rr_name r" "us_is_active (user_of u r) = ur_is_active u"
  by (simp_all add: user_of_def)

lemma scan_role_Inr:
  "scan_role rr = Inr r \<Longrightarrow>
     ro_id r = rr_id rr \<and> ro_name r = rr_name rr \<and> rr_permissions rr = Some (ro_permissions r)"
  by (auto simp: scan_role_def split: option.splits)

lemma list_roles_Inr:
  assumes "list_roles coll d = (Inr rs, d')" and "r \<in> set rs"
  shows "\<exists>rr \<in> set (db_roles d). scan_role rr = Inr r"
proof -
  from assms(1) have "map_err scan_role (sort_key (\<lambda>r. coll (rr_name r)) (db_roles d)) = Inr rs"
    by (auto simp: list_roles_def statement_eq split: if_splits sum.splits)
  then show ?thesis
    using list_all2_set2D [OF _ assms(2)] by (force simp: map_err_Inr)
qed

lemma role_by_name_Inr:
  assumes "role_by_name coll n d = (Inr r, d')"
  shows "d' = pop_fault d \<and>
    (\<exists>rr \<in> set (db_roles d). coll (rr_name rr) = coll n \<and> scan_role rr = Inr r)"
proof -
  from assms have d: "d' = pop_fault d"
    and "bind_err (first_row (filter (\<lambda>r. coll (rr_name r) = coll n) (db_roles d))) scan_role = Inr r"
    by (auto simp: role_by_name_def statement_eq split: if_splits)
  then obtain rr rest where rr: "filter (\<lambda>r. coll (rr_name r) = coll n) (db_roles d) = rr # rest"
    "scan_role rr = Inr r"
    by (auto simp: guard_simps first_row_Inr)
  then have "rr \<in> set (filter (\<lambda>r. coll (rr_name r) = coll n) (db_roles d))" by simp
  with rr(2) d show ?thesis by auto
qed

lemma affect_one_Inr:
  "affect_one what upd d = (Inr x, d') \<Longrightarrow> \<not> faulty d \<and> d' = snd (upd (pop_fault d))
     \<and> fst (upd (pop_fault d)) \<noteq> 0"
  by (auto simp: affect_one_def statement_eq case_prod_beta Let_def split: if_splits)

lemma update_users_sel [simp]:
  "db_users (snd (update_users P f d)) = map (\<lambda>u. if P u then f u else u) (db_users d)"
  "db_sessions (snd (update_users P f d)) = db_sessions d"
  "db_roles (snd (update_users P f d)) = db_roles d"
  "db_faults (snd (update_users P f d)) = db_faults d"
  by (simp_all add: update_users_def update_rows_def)

lemma delete_user_sessions_Inr:
  "delete_user_sessions i d = (Inr x, d') \<Longrightarrow>
     d' = delete_sessions (\<lambda>s. se_user_id s = i) (pop_fault d)"
  by (auto simp: delete_user_sessions_def statement_eq split: if_splits)

section \<open>Sessions as a finite map\<close>

text \<open>
  The interface the service relies on: sessions are a map from keys to sessions, \<open>view\<close>, and the
  operations do to it what their names say; an operation that fails leaves it alone.
\<close>

locale session_store =
  fixes create :: "session \<Rightarrow> string \<Rightarrow> string \<Rightarrow> 's \<Rightarrow> (auth_error + unit) \<times> 's"
    and lookup :: "int64 \<Rightarrow> string \<Rightarrow> 's \<Rightarrow> (auth_error + session) \<times> 's"
    and extend :: "string \<Rightarrow> int64 \<Rightarrow> 's \<Rightarrow> (auth_error + unit) \<times> 's"
    and remove :: "string \<Rightarrow> 's \<Rightarrow> (auth_error + unit) \<times> 's"
    and view :: "'s \<Rightarrow> string \<Rightarrow> session option"
    and inv :: "'s \<Rightarrow> bool"
  assumes create_ok: "inv s \<Longrightarrow> create x ua ip s = (Inr (), s') \<Longrightarrow>
      view s (sn_id x) = None \<and> view s' = (view s)(sn_id x \<mapsto> x)"
    and extend_ok: "inv s \<Longrightarrow> extend k e s = (Inr (), s') \<Longrightarrow>
      view s' = (view s)(k := map_option (\<lambda>x. x\<lparr>sn_expires_at := e\<rparr>) (view s k))"
    and remove_ok: "inv s \<Longrightarrow> remove k s = (Inr (), s') \<Longrightarrow> view s' = (view s)(k := None)"
    and lookup_ok: "inv s \<Longrightarrow> lookup now k s = (Inr x, s') \<Longrightarrow>
      view s k = Some x \<and> now < sn_expires_at x"
    and lookup_view: "inv s \<Longrightarrow> lookup now k s = (r, s') \<Longrightarrow> view s' = view s"
    and failed_view: "inv s \<Longrightarrow>
      create x ua ip s = (Inl err, s') \<or> extend k t s = (Inl err, s') \<or> remove k s = (Inl err, s') \<Longrightarrow>
      view s' = view s"
begin

lemma lookup_created:
  assumes "inv s" and "create x ua ip s = (Inr (), s')" and "inv s'"
    and "lookup now (sn_id x) s' = (Inr y, s'')"
  shows "y = x \<and> now < sn_expires_at x"
  using create_ok [OF assms(1,2)] lookup_ok [OF assms(3,4)] by auto

lemma lookup_removed:
  assumes "inv s" and "remove k s = (Inr (), s')" and "inv s'"
  shows "lookup now k s' \<noteq> (Inr y, s'')"
  using remove_ok [OF assms(1,2)] lookup_ok [OF assms(3)] by fastforce

lemma lookup_extended:
  assumes "inv s" and "extend k e s = (Inr (), s')" and "inv s'"
    and "lookup now k s' = (Inr y, s'')"
  shows "\<exists>x. view s k = Some x \<and> y = x\<lparr>sn_expires_at := e\<rparr> \<and> now < e"
  using extend_ok [OF assms(1,2)] lookup_ok [OF assms(3,4)] by (auto split: option.splits)

end

definition session_of :: "session_row \<Rightarrow> session" where
  "session_of s = \<lparr>sn_id = se_id s, sn_user_id = se_user_id s,
                   sn_created_at = se_created_at s, sn_expires_at = se_expires_at s\<rparr>"

definition sessions_view :: "db \<Rightarrow> string \<Rightarrow> session option" where
  "sessions_view d k = map_option session_of (find (\<lambda>s. se_id s = k) (db_sessions d))"

lemma sessions_view_pop [simp]: "sessions_view (d\<lparr>db_faults := fs\<rparr>) = sessions_view d"
  by (simp add: sessions_view_def [abs_def])

lemma sessions_view_SomeD:
  "sessions_view d k = Some x \<Longrightarrow>
     \<exists>row \<in> set (db_sessions d). se_id row = k \<and> x = session_of row"
  by (auto simp: sessions_view_def find_Some_iff intro: nth_mem)

lemma find_append: "find P (xs @ ys) = (case find P xs of None \<Rightarrow> find P ys | Some x \<Rightarrow> Some x)"
  by (induction xs) auto

lemma find_None_set: "find P xs = None \<longleftrightarrow> (\<forall>x \<in> set xs. \<not> P x)"
  by (auto simp: find_None_iff)

lemma find_filter_key:
  "find (\<lambda>s. g s = k) (filter (\<lambda>s. g s \<noteq> k') xs) = (if k = k' then None else find (\<lambda>s. g s = k) xs)"
  by (induction xs) auto

lemma find_map_key:
  "(\<And>s. g (f s) = g s) \<Longrightarrow>
     find (\<lambda>s. g s = k) (map (\<lambda>s. if g s = k' then f s else s) xs) =
       (if k = k' then map_option f (find (\<lambda>s. g s = k) xs) else find (\<lambda>s. g s = k) xs)"
  by (induction xs) auto

lemma find_filter_first:
  "distinct (map g xs) \<Longrightarrow> filter (\<lambda>s. g s = k \<and> Q s) xs =
     (case find (\<lambda>s. g s = k) xs of None \<Rightarrow> [] | Some s \<Rightarrow> if Q s then [s] else [])"
proof (induction xs)
  case (Cons x xs)
  show ?case
  proof (cases "g x = k")
    case True
    with Cons.prems have "filter (\<lambda>s. g s = k \<and> Q s) xs = []"
      by (auto simp: filter_empty_conv image_iff)
    with True show ?thesis by simp
  next
    case False
    with Cons show ?thesis by simp
  qed
qed simp

lemma session_by_id_eq:
  assumes "db_inv coll d"
  shows "session_by_id now k d =
    (if faulty d then Inl (StoreError ''reading session'')
     else case sessions_view d k of
       None \<Rightarrow> Inl NotFound
     | Some x \<Rightarrow> if now < sn_expires_at x then Inr x else Inl NotFound, pop_fault d)"
  using assms
  by (simp add: session_by_id_def statement_eq db_inv_def sessions_ok_def sessions_view_def
      find_filter_first [where g = se_id] first_row_def session_of_def [abs_def]
      split: option.splits)

interpretation ss: session_store create_session session_by_id extend_session delete_session
  sessions_view "db_inv coll" for coll
proof unfold_locales
  fix d x ua ip d'
  assume c: "create_session x ua ip d = (Inr (), d')"
  then have none: "find (\<lambda>s. se_id s = sn_id x) (db_sessions d) = None"
    by (auto simp: create_session_def statement_eq list_ex_iff find_None_set split: if_splits)
  from c have "d' = (pop_fault d)\<lparr>db_sessions := db_sessions d @ [session_row_of x ua ip]\<rparr>"
    by (simp add: create_session_def statement_eq split: if_splits)
  with none show "sessions_view d (sn_id x) = None \<and> sessions_view d' = (sessions_view d)(sn_id x \<mapsto> x)"
    by (auto simp: sessions_view_def fun_eq_iff find_append session_of_def split: option.splits)
next
  fix d k e d'
  assume "db_inv coll d" "extend_session k e d = (Inr (), d')"
  then show "sessions_view d'
      = (sessions_view d)(k := map_option (\<lambda>x. x\<lparr>sn_expires_at := e\<rparr>) (sessions_view d k))"
    by (auto simp: extend_session_def statement_eq sessions_view_def fun_eq_iff
        find_map_key [where g = se_id] session_of_def option.map_comp comp_def split: if_splits)
next
  fix d k d'
  assume "db_inv coll d" "delete_session k d = (Inr (), d')"
  then show "sessions_view d' = (sessions_view d)(k := None)"
    by (auto simp: delete_session_def delete_sessions_def statement_eq sessions_view_def fun_eq_iff
        find_filter_key [where g = se_id] split: if_splits)
next
  fix d now k x d'
  assume "db_inv coll d" "session_by_id now k d = (Inr x, d')"
  then show "sessions_view d k = Some x \<and> now < sn_expires_at x"
    by (auto simp: session_by_id_eq split: if_splits option.splits)
next
  fix d now k r d'
  assume "session_by_id now k d = (r, d')"
  then show "sessions_view d' = sessions_view d"
    using query_state(5) [of now k d] by simp
next
  fix d x ua ip e d' k t
  assume "create_session x ua ip d = (Inl e, d') \<or> extend_session k t d = (Inl e, d')
    \<or> delete_session k d = (Inl e, d')"
  then show "sessions_view d' = sessions_view d"
    by (auto simp: create_session_def extend_session_def delete_session_def statement_eq
        split: if_splits)
qed

end
