(* ===== verification/RateLimit.thy ===== *)
theory RateLimit
  imports GoStrings "HOL-Library.AList"
begin

text \<open>
  The fixed-window throttle (\<^verbatim>\<open>internal/ratelimit/ratelimit.go\<close>) that logins and commands share.
  Its map of entries is an association list with distinct keys; instants are nanoseconds, one
  reading of the clock per call. The mutex makes every operation one step. The interface its
  clients rely on is the locale \<open>throttle\<close>, interpreted here on the code.
\<close>

section \<open>State and operations\<close>

record entry =
  en_count :: int
  en_start :: int

record window =
  w_limit :: int
  w_window :: duration
  w_entries :: "(string \<times> entry) list"

definition new_window :: "int \<Rightarrow> duration \<Rightarrow> window" where
  "new_window limit win =
     \<lparr>w_limit = (if limit \<le> 0 then 10 else limit),
      w_window = (if win \<le> 0 then minute else win),
      w_entries = []\<rparr>"

definition sweep :: "int \<Rightarrow> window \<Rightarrow> window" where
  "sweep now w =
     (if length (w_entries w) < 1024 then w
      else w\<lparr>w_entries :=
             filter (\<lambda>(k, e). \<not> w_window w < time_sub now (en_start e)) (w_entries w)\<rparr>)"

definition allow :: "window \<Rightarrow> string \<Rightarrow> int \<Rightarrow> bool \<times> window" where
  "allow w key now =
     (if key = [] then (True, w)
      else
        let fresh = (True, sweep now
              (w\<lparr>w_entries := AList.update key \<lparr>en_count = 1, en_start = now\<rparr> (w_entries w)\<rparr>))
        in case map_of (w_entries w) key of
             None \<Rightarrow> fresh
           | Some e \<Rightarrow>
               if w_window w < time_sub now (en_start e) then fresh
               else
                 let e' = e\<lparr>en_count := en_count e + 1\<rparr>
                 in (en_count e' \<le> w_limit w,
                     w\<lparr>w_entries := AList.update key e' (w_entries w)\<rparr>))"

definition reset :: "window \<Rightarrow> string \<Rightarrow> window" where
  "reset w key = w\<lparr>w_entries := AList.delete key (w_entries w)\<rparr>"

definition retry :: "window \<Rightarrow> string \<Rightarrow> int \<Rightarrow> duration" where
  "retry w key now =
     (case map_of (w_entries w) key of
        None \<Rightarrow> 0
      | Some e \<Rightarrow>
          let left = w_window w - time_sub now (en_start e)
          in if left < 0 then 0 else left)"

section \<open>The invariant\<close>

definition window_inv :: "window \<Rightarrow> bool" where
  "window_inv w \<longleftrightarrow>
     distinct (map fst (w_entries w)) \<and> 0 < w_limit w
     \<and> 0 < w_window w \<and> w_window w < max_duration
     \<and> (\<forall>(k, e) \<in> set (w_entries w). k \<noteq> [] \<and> 1 \<le> en_count e)"

lemma window_invD:
  assumes "window_inv w" and "map_of (w_entries w) k = Some e"
  shows "1 \<le> en_count e" "k \<noteq> []"
  using assms by (auto simp: window_inv_def dest: map_of_SomeD)

lemma new_window_inv: "win < max_duration \<Longrightarrow> window_inv (new_window limit win)"
  by (simp add: window_inv_def new_window_def minute_def second_def max_duration_def)

lemma sweep_same [simp]: "w_limit (sweep now w) = w_limit w" "w_window (sweep now w) = w_window w"
  by (simp_all add: sweep_def)

lemma sweep_inv: "window_inv w \<Longrightarrow> window_inv (sweep now w)"
  by (auto simp: window_inv_def sweep_def intro: distinct_map_filter)

lemma set_update_subset: "set (AList.update key e al) \<subseteq> insert (key, e) (set al)"
  by (induction al) auto

lemma update_entries_inv:
  assumes "window_inv w" and "key \<noteq> []" and "1 \<le> en_count e"
  shows "window_inv (w\<lparr>w_entries := AList.update key e (w_entries w)\<rparr>)"
  using assms set_update_subset [of key e "w_entries w"]
  by (fastforce simp: window_inv_def distinct_update)

lemma allow_inv: "window_inv w \<Longrightarrow> window_inv (snd (allow w key now))"
  using window_invD(1) [of w key]
  by (fastforce simp: allow_def Let_def intro!: sweep_inv update_entries_inv
      split: option.splits)

lemma allow_same [simp]:
  "w_limit (snd (allow w key now)) = w_limit w" "w_window (snd (allow w key now)) = w_window w"
  by (simp_all add: allow_def Let_def split: option.splits)

lemma reset_inv: "window_inv w \<Longrightarrow> window_inv (reset w key)"
  by (auto simp: window_inv_def reset_def AList.delete_eq intro: distinct_map_filter)

section \<open>Observable state\<close>

text \<open>
  What a caller can observe of a key at an instant: its entry, unless its window is over. A
  stale entry is the same as none, which is why the sweep may drop it.
\<close>

definition live :: "window \<Rightarrow> string \<Rightarrow> int \<Rightarrow> entry option" where
  "live w k t =
     (case map_of (w_entries w) k of
        None \<Rightarrow> None
      | Some e \<Rightarrow> if w_window w < time_sub t (en_start e) then None else Some e)"

lemma map_of_filter_distinct:
  "distinct (map fst al) \<Longrightarrow>
     map_of (filter P al) k =
       (case map_of al k of None \<Rightarrow> None | Some v \<Rightarrow> if P (k, v) then Some v else None)"
  by (induction al) (auto split: option.splits dest: weak_map_of_SomeI map_of_SomeD
      simp: image_iff)

lemma live_sweep:
  assumes "distinct (map fst (w_entries w))" and "now \<le> t"
  shows "live (sweep now w) k t = live w k t"
proof -
  have "time_sub now s \<le> time_sub t s" for s
    using assms(2) by (rule time_sub_mono)
  then have "w_window w < time_sub now s \<Longrightarrow> w_window w < time_sub t s" for s
    by (meson less_le_trans)
  with assms(1) show ?thesis
    by (simp add: live_def sweep_def map_of_filter_distinct split: option.splits)
qed

lemma allow_live:
  assumes "key \<noteq> []"
  shows "allow w key now =
    (case live w key now of
       None \<Rightarrow> (True, sweep now
         (w\<lparr>w_entries := AList.update key \<lparr>en_count = 1, en_start = now\<rparr> (w_entries w)\<rparr>))
     | Some e \<Rightarrow>
         (en_count e + 1 \<le> w_limit w,
          w\<lparr>w_entries := AList.update key (e\<lparr>en_count := en_count e + 1\<rparr>) (w_entries w)\<rparr>))"
  using assms by (simp add: allow_def live_def Let_def split: option.splits)

section \<open>The interface of a throttle\<close>

text \<open>The answers given to the events on one key, and how many events there were.\<close>

fun answers :: "string \<Rightarrow> (string \<times> int) list \<Rightarrow> bool list \<Rightarrow> bool list" where
  "answers k ((k', t) # evs) (b # bs) =
     (if k' = k then b # answers k evs bs else answers k evs bs)"
| "answers k _ _ = []"

definition events_on :: "string \<Rightarrow> (string \<times> int) list \<Rightarrow> nat" where
  "events_on k evs = count_list (map fst evs) k"

lemma events_on_simps [simp]:
  "events_on k [] = 0"
  "events_on k (ev # evs) = (if fst ev = k then Suc (events_on k evs) else events_on k evs)"
  by (simp_all add: events_on_def)

text \<open>
  What a client may rely on. \<open>budget w k t\<close> is how many events on \<open>k\<close> still fit at \<open>t\<close>, and
  \<open>horizon w k t\<close> how long that answer stands if nothing happens.
\<close>

locale throttle =
  fixes admit :: "'w \<Rightarrow> string \<Rightarrow> int \<Rightarrow> bool \<times> 'w"
    and inv :: "'w \<Rightarrow> bool"
    and budget :: "'w \<Rightarrow> string \<Rightarrow> int \<Rightarrow> nat"
    and horizon :: "'w \<Rightarrow> string \<Rightarrow> int \<Rightarrow> int"
  assumes admit_inv: "inv w \<Longrightarrow> inv (snd (admit w k t))"
    and admit_iff: "inv w \<Longrightarrow> k \<noteq> [] \<Longrightarrow> fst (admit w k t) \<longleftrightarrow> 0 < budget w k t"
    and admit_hit: "inv w \<Longrightarrow> k \<noteq> [] \<Longrightarrow>
      budget (snd (admit w k t)) k t = budget w k t - 1
      \<and> horizon w k t \<le> horizon (snd (admit w k t)) k t"
    and admit_miss: "inv w \<Longrightarrow> k' \<noteq> k \<Longrightarrow> t \<le> t' \<Longrightarrow>
      budget (snd (admit w k t)) k' t' = budget w k' t'
      \<and> horizon (snd (admit w k t)) k' t' = horizon w k' t'"
    and stable: "inv w \<Longrightarrow> t \<le> t' \<Longrightarrow> t' \<le> horizon w k t \<Longrightarrow>
      budget w k t' = budget w k t \<and> horizon w k t \<le> horizon w k t'"
begin

text \<open>A run of events at non-decreasing instants, and the answers it got.\<close>

fun run :: "'w \<Rightarrow> (string \<times> int) list \<Rightarrow> bool list" where
  "run w [] = []"
| "run w ((k, t) # evs) = fst (admit w k t) # run (snd (admit w k t)) evs"

text \<open>
  Within a horizon exactly the budget is admitted: the first events up to the budget pass, every
  later one is refused, whatever happens on other keys in between.
\<close>

lemma run_budget:
  assumes "inv w" and "k \<noteq> []" and "sorted (t0 # map snd evs)"
    and "\<forall>(k', t) \<in> set evs. t \<le> horizon w k t0"
  shows "answers k evs (run w evs)
      = replicate (min (events_on k evs) (budget w k t0)) True
        @ replicate (events_on k evs - budget w k t0) False"
  using assms
proof (induction evs arbitrary: w t0)
  case Nil
  show ?case by simp
next
  case (Cons ev evs)
  obtain k' t where ev: "ev = (k', t)" by force
  let ?w = "snd (admit w k' t)"
  from Cons.prems ev have t: "t0 \<le> t" "t \<le> horizon w k t0" by auto
  from stable [OF Cons.prems(1) t] have st: "budget w k t = budget w k t0"
    "horizon w k t0 \<le> horizon w k t" by auto
  from Cons.prems(1) have inv': "inv ?w" by (rule admit_inv)
  have srt: "sorted (t # map snd evs)" using Cons.prems(3) ev by simp
  show ?case
  proof (cases "k' = k")
    case True
    with Cons.prems(1,2) have hit: "budget ?w k t = budget w k t0 - 1"
      "horizon w k t \<le> horizon ?w k t" "fst (admit w k' t) \<longleftrightarrow> 0 < budget w k t0"
      using admit_hit [of w k t] admit_iff [of w k t] st by auto
    have "\<forall>(k', t') \<in> set evs. t' \<le> horizon ?w k t"
      using Cons.prems(4) hit(2) st(2) by auto
    with Cons.IH [OF inv' Cons.prems(2) srt] hit(1) have
      n: "answers k evs (run ?w evs)
        = replicate (min (events_on k evs) (budget w k t0 - 1)) True
          @ replicate (events_on k evs - (budget w k t0 - 1)) False"
      by simp
    show ?thesis
    proof (cases "budget w k t0")
      case 0
      with n ev True hit(3) show ?thesis by simp
    next
      case (Suc b)
      with n ev True hit(3) show ?thesis by simp
    qed
  next
    case False
    then have miss: "budget ?w k t = budget w k t" "horizon ?w k t = horizon w k t"
      using admit_miss [OF Cons.prems(1), of k k' t t] by auto
    have "\<forall>(k', t') \<in> set evs. t' \<le> horizon ?w k t"
      using Cons.prems(4) miss(2) st(2) by auto
    with Cons.IH [OF inv' Cons.prems(2) srt] miss(1) st(1) show ?thesis
      using ev False by auto
  qed
qed

lemma run_at_most:
  assumes "inv w" and "k \<noteq> []" and "sorted (t0 # map snd evs)"
    and "\<forall>(k', t) \<in> set evs. t \<le> horizon w k t0"
  shows "count_list (answers k evs (run w evs)) True \<le> budget w k t0"
  using run_budget [OF assms] by auto

end

section \<open>The throttle of the code\<close>

definition window_budget :: "window \<Rightarrow> string \<Rightarrow> int \<Rightarrow> nat" where
  "window_budget w k t =
     (case live w k t of None \<Rightarrow> nat (w_limit w) | Some e \<Rightarrow> nat (w_limit w - en_count e))"

definition window_horizon :: "window \<Rightarrow> string \<Rightarrow> int \<Rightarrow> int" where
  "window_horizon w k t =
     (case live w k t of None \<Rightarrow> t + w_window w | Some e \<Rightarrow> en_start e + w_window w)"

lemma live_update:
  "live (w\<lparr>w_entries := AList.update key e (w_entries w)\<rparr>) k t =
     (if k = key then (if w_window w < time_sub t (en_start e) then None else Some e)
      else live w k t)"
  by (auto simp: live_def update_conv' split: option.splits)

lemma time_sub_le: "w < max_duration \<Longrightarrow> 0 \<le> w \<Longrightarrow> w < time_sub t s \<longleftrightarrow> s + w < t"
  by (auto simp: time_sub_def max_duration_def min_duration_def)

lemma allow_live_after:
  assumes "window_inv w" and "key \<noteq> []" and "now \<le> t"
  shows "live (snd (allow w key now)) k t =
    (if k \<noteq> key then live w k t
     else case live w key now of
       None \<Rightarrow> if now + w_window w < t then None else Some \<lparr>en_count = 1, en_start = now\<rparr>
     | Some e \<Rightarrow> if en_start e + w_window w < t then None
         else Some (e\<lparr>en_count := en_count e + 1\<rparr>))"
proof -
  let ?w = "w\<lparr>w_entries := AList.update key \<lparr>en_count = 1, en_start = now\<rparr> (w_entries w)\<rparr>"
  have d: "distinct (map fst (w_entries ?w))" and b: "w_window w < max_duration" "0 \<le> w_window w"
    using assms(1) by (auto simp: window_inv_def distinct_update)
  from live_sweep [OF d assms(3)] assms(2) show ?thesis
    by (simp add: allow_live live_update time_sub_le [OF b] split: option.splits)
qed

lemma live_stable:
  assumes "window_inv w" and "t \<le> t'"
  shows "live w k t' =
    (case live w k t of None \<Rightarrow> None
     | Some e \<Rightarrow> if en_start e + w_window w < t' then None else Some e)"
proof -
  have b: "w_window w < max_duration" "0 \<le> w_window w"
    using assms(1) by (auto simp: window_inv_def)
  from assms(2) show ?thesis
    by (auto simp: live_def time_sub_le [OF b] split: option.splits)
qed

lemma live_SomeD:
  "window_inv w \<Longrightarrow> live w k t = Some e \<Longrightarrow> t \<le> en_start e + w_window w \<and> 1 \<le> en_count e"
  using window_invD [of w k]
  by (auto simp: live_def time_sub_le window_inv_def split: option.splits if_splits)

interpretation rl: throttle allow window_inv window_budget window_horizon
proof unfold_locales
  fix w k t
  assume "window_inv w"
  then show "window_inv (snd (allow w k t))" by (rule allow_inv)
next
  fix w and k :: string and t
  assume "window_inv w" and "k \<noteq> []"
  then show "fst (allow w k t) \<longleftrightarrow> 0 < window_budget w k t"
    by (auto simp: allow_live window_budget_def window_inv_def split: option.splits)
next
  fix w and k :: string and t
  assume i: "window_inv w" and k: "k \<noteq> []"
  show "window_budget (snd (allow w k t)) k t = window_budget w k t - 1
      \<and> window_horizon w k t \<le> window_horizon (snd (allow w k t)) k t"
    using i live_SomeD [OF i] unfolding window_budget_def window_horizon_def
    by (auto simp: allow_live_after [OF i k] window_inv_def nat_diff_distrib'
        split: option.splits if_splits) (fastforce)+
next
  fix w and k k' :: string and t t' :: int
  assume i: "window_inv w" and ne: "k' \<noteq> k" and t: "t \<le> t'"
  show "window_budget (snd (allow w k t)) k' t' = window_budget w k' t'
      \<and> window_horizon (snd (allow w k t)) k' t' = window_horizon w k' t'"
  proof (cases "k = []")
    case True
    then show ?thesis by (simp add: allow_def)
  next
    case False
    with i ne t show ?thesis
      by (auto simp: window_budget_def window_horizon_def allow_live_after split: option.splits)
  qed
next
  fix w and k :: string and t t' :: int
  assume i: "window_inv w" and t: "t \<le> t'" "t' \<le> window_horizon w k t"
  show "window_budget w k t' = window_budget w k t
      \<and> window_horizon w k t \<le> window_horizon w k t'"
    using t unfolding window_budget_def window_horizon_def live_stable [OF i t(1)]
    by (auto split: option.splits)
qed


section \<open>Properties\<close>

text \<open>The code's throttle, run over a sequence of calls.\<close>

fun allow_all :: "window \<Rightarrow> (string \<times> int) list \<Rightarrow> bool list" where
  "allow_all w [] = []"
| "allow_all w ((k, t) # evs) = (let (b, w') = allow w k t in b # allow_all w' evs)"

lemma allow_all_run: "allow_all w evs = rl.run w evs"
proof (induction evs arbitrary: w)
  case (Cons ev evs)
  then show ?case by (cases ev) (simp add: case_prod_beta Let_def)
qed simp

lemma allow_all_fixed_window:
  assumes "window_inv w" and "key \<noteq> []" and "live w key t0 = None"
    and "sorted (t0 # map snd evs)" and "\<forall>(k, t) \<in> set evs. t \<le> t0 + w_window w"
  shows "answers key evs (allow_all w evs)
    = replicate (min (events_on key evs) (nat (w_limit w))) True
      @ replicate (events_on key evs - nat (w_limit w)) False"
proof -
  have "window_budget w key t0 = nat (w_limit w)" "window_horizon w key t0 = t0 + w_window w"
    using assms(3) by (simp_all add: window_budget_def window_horizon_def)
  with rl.run_budget [OF assms(1,2,4)] assms(5) show ?thesis
    by (simp add: allow_all_run)
qed

text \<open>
  C20. A fixed window: from the moment a key has no live entry, of all the events that fall in the
  next window exactly the first \<open>limit\<close> on that key are let through and every later one is
  refused, whatever happens on other keys in between and although the calls themselves sweep the
  table.
\<close>
theorem throttle_fixed_window:
  assumes "window_inv w" and "key \<noteq> []" and "live w key t0 = None"
    and "sorted (t0 # map snd evs)" and "\<forall>(k, t) \<in> set evs. t \<le> t0 + w_window w"
  shows "answers key evs (allow_all w evs)
    = replicate (min (events_on key evs) (nat (w_limit w))) True
      @ replicate (events_on key evs - nat (w_limit w)) False"
  using assms by (rule allow_all_fixed_window)

theorem throttle_fixed_window_witness:
  "answers ''bob'' [(''bob'', 5), (''eve'', 6), (''bob'', 7), (''bob'', 9)]
     (allow_all (new_window 2 second) [(''bob'', 5), (''eve'', 6), (''bob'', 7), (''bob'', 9)])
   = [True, True, False]"
proof -
  have "window_inv (new_window 2 second)"
    by (rule new_window_inv) (simp add: second_def max_duration_def)
  moreover have "live (new_window 2 second) ''bob'' 5 = None"
    by (simp add: live_def new_window_def)
  ultimately show ?thesis
    using throttle_fixed_window [of "new_window 2 second" "''bob''" 5
        "[(''bob'', 5), (''eve'', 6), (''bob'', 7), (''bob'', 9)]"]
    by (simp add: new_window_def second_def numeral_2_eq_2)
qed

lemma refused_entry:
  assumes "window_inv w" and "\<not> fst (allow w key t)"
  shows "key \<noteq> []" "\<exists>e. live w key t = Some e \<and> w_limit w < en_count e + 1"
  using assms by (auto simp: allow_def live_def Let_def split: option.splits if_splits)

text \<open>
  The wait that a refused caller is told is exact: no event on its key is let through until
  that much time has passed, and one just after it is.
\<close>
theorem retry_is_exact:
  assumes "window_inv w" and "allow w key t = (False, w')" and "t \<le> t'"
    and "\<forall>e. map_of (w_entries w) key = Some e \<longrightarrow> en_start e \<le> t"
  shows "fst (allow w' key t') \<longleftrightarrow> t + retry w' key t < t'"
proof -
  have ref: "\<not> fst (allow w key t)" and w': "w' = snd (allow w key t)"
    using assms(2) by simp_all
  from refused_entry [OF assms(1) ref] obtain e where
    k: "key \<noteq> []" and e: "live w key t = Some e" "w_limit w < en_count e + 1" by auto
  have past: "en_start e \<le> t"
    using assms(4) e(1) by (auto simp: live_def split: option.splits if_splits)
  have le: "t \<le> en_start e + w_window w" using live_SomeD [OF assms(1) e(1)] by simp
  let ?e = "e\<lparr>en_count := en_count e + 1\<rparr>"
  have live': "live w' key u = (if en_start e + w_window w < u then None else Some ?e)"
    if "t \<le> u" for u
    using allow_live_after [OF assms(1) k that, of key] e(1) by (simp add: w')
  have inv': "window_inv w'" and win: "w_window w' = w_window w" and lim: "w_limit w' = w_limit w"
    using allow_inv [OF assms(1)] by (simp_all add: w')
  have m: "map_of (w_entries w') key = Some ?e"
    using live' [of t] le by (auto simp: live_def split: option.splits if_splits)
  have "0 < w_window w" "w_window w < max_duration" using assms(1) by (auto simp: window_inv_def)
  then have "t + retry w' key t = en_start e + w_window w"
    using le past m win by (auto simp: retry_def Let_def time_sub_def min_duration_def max_duration_def
        live_def split: if_splits)
  then show ?thesis
    using live' [OF assms(3)] e(2) lim by (simp add: allow_live [OF k])
qed

theorem retry_is_exact_witness:
  "\<exists>w'. allow (snd (allow (new_window 1 second) ''bob'' 0)) ''bob'' 5 = (False, w')
     \<and> (fst (allow w' ''bob'' 900) \<longleftrightarrow> 5 + retry w' ''bob'' 5 < 900)"
proof -
  let ?w = "snd (allow (new_window 1 second) ''bob'' 0)"
  have "window_inv (new_window 1 second)"
    by (rule new_window_inv) (simp add: second_def max_duration_def)
  then have inv: "window_inv ?w" by (rule allow_inv)
  have "allow ?w ''bob'' 5 = (False, snd (allow ?w ''bob'' 5))" by code_simp
  moreover have "\<forall>e. map_of (w_entries ?w) ''bob'' = Some e \<longrightarrow> en_start e \<le> 5"
    by (simp add: allow_def new_window_def sweep_def)
  ultimately show ?thesis using retry_is_exact [OF inv, of "''bob''" 5 _ 900] by auto
qed

end
