(* ===== verification/AuthService.thy ===== *)
theory AuthService
  imports AuthStore RateLimit
begin

text \<open>
  Logins, sessions and identities (\<^verbatim>\<open>internal/auth/service.go\<close>, and \<open>LoginDemo\<close> of
  \<^verbatim>\<open>internal/auth/bootstrap.go\<close>). The service holds its tables and its login throttle. An
  operation reads the clock once; \<open>env\<close> holds what the code takes from elsewhere: the collation
  of the database, the hash of a token and the key derivation. \<open>rnd\<close> is what the random source
  answers, \<open>None\<close> when it fails.
\<close>

section \<open>State\<close>

record auth_env =
  ae_coll :: "string \<Rightarrow> string"
  ae_hash :: "string \<Rightarrow> string"
  ae_idkey :: kdf
  ae_version :: nat

record identity =
  id_user :: user
  id_role :: role
  id_permissions :: permission_set
  id_session_id :: string

record auth_options =
  ao_session_ttl :: duration
  ao_login_rate_limit :: int
  ao_login_rate_window :: duration
  ao_demo_user :: string
  ao_demo_commands :: "string list"

record service =
  sv_opt :: auth_options
  sv_limiter :: window
  sv_db :: db

type_synonym 'a service_op = "(service, auth_error, 'a) step"

definition can :: "identity \<Rightarrow> string \<Rightarrow> bool" where
  "can i perm \<longleftrightarrow> has (id_permissions i) perm"

definition is_demo :: "identity \<Rightarrow> string \<Rightarrow> bool" where
  "is_demo i demo_user \<longleftrightarrow> demo_user \<noteq> [] \<and> us_username (id_user i) = demo_user"

definition new_service :: "db \<Rightarrow> auth_options \<Rightarrow> service" where
  "new_service d opt =
     (let opt = (if ao_session_ttl opt \<le> 0 then opt\<lparr>ao_session_ttl := 12 * hour\<rparr> else opt)
      in \<lparr>sv_opt = opt,
          sv_limiter = new_window (ao_login_rate_limit opt) (ao_login_rate_window opt),
          sv_db = d\<rparr>)"

definition unix :: "int \<Rightarrow> int64" where
  "unix t = t div second"

definition on_db :: "'a store_op \<Rightarrow> 'a service_op" where
  "on_db m s = (case m (sv_db s) of (r, d) \<Rightarrow> (r, s\<lparr>sv_db := d\<rparr>))"

section \<open>Operations\<close>

definition new_token :: "auth_env \<Rightarrow> string option \<Rightarrow> auth_error + (string \<times> string)" where
  "new_token env rnd =
     (case rnd of
        None \<Rightarrow> Inl TokenSource
      | Some b \<Rightarrow> let token = b64_encode url_alphabet b in Inr (token, ae_hash env token))"

fun find_role :: "uint32 \<Rightarrow> role list \<Rightarrow> role option" where
  "find_role i [] = None"
| "find_role i (r # rs) = (if ro_id r = i then Some r else find_role i rs)"

definition identity_for :: "auth_env \<Rightarrow> user \<Rightarrow> identity service_op" where
  "identity_for env u =
     bind_step (on_db (list_roles (ae_coll env))) (\<lambda>roles.
       case find_role (us_role_id u) roles of
         Some r \<Rightarrow> return \<lparr>id_user = u, id_role = r,
                           id_permissions = new_permission_set (ro_permissions r),
                           id_session_id = []\<rparr>
       | None \<Rightarrow> fail (MissingRole (us_username u) (us_role_id u)))"

text \<open>A missing login timestamp is logged and does not fail the login.\<close>

definition open_session ::
  "auth_env \<Rightarrow> int \<Rightarrow> string option \<Rightarrow> user \<Rightarrow> identity \<Rightarrow> string \<Rightarrow> string
     \<Rightarrow> (string \<times> identity) service_op" where
  "open_session env now rnd u ident user_agent ip s =
     (case new_token env rnd of
        Inl e \<Rightarrow> (Inl e, s)
      | Inr (token, h) \<Rightarrow>
          let sess = \<lparr>sn_id = h, sn_user_id = us_id u, sn_created_at = unix now,
                      sn_expires_at = unix (now + ao_session_ttl (sv_opt s))\<rparr>
          in bind_step (on_db (create_session sess user_agent ip)) (\<lambda>_.
               attempt (on_db (touch_login (unix now) (us_id u))) (\<lambda>_.
                 return (token, ident\<lparr>id_session_id := h\<rparr>))) s)"

definition reset_limiter :: "string \<Rightarrow> unit service_op" where
  "reset_limiter ip s = (Inr (), s\<lparr>sv_limiter := reset (sv_limiter s) ip\<rparr>)"

text \<open>
  What follows the lookup of an account. A stored hash that cannot be read is logged and answered
  like a wrong password.
\<close>

definition check_login ::
  "auth_env \<Rightarrow> int \<Rightarrow> string option \<Rightarrow> string \<Rightarrow> string \<Rightarrow> string \<Rightarrow> user
     \<Rightarrow> (string \<times> identity) service_op" where
  "check_login env now rnd password user_agent ip u =
     (case verify_password (ae_idkey env) (ae_version env) password (us_password_hash u) of
        Inl _ \<Rightarrow> fail InvalidCredentials
      | Inr ok \<Rightarrow>
          if \<not> ok \<or> \<not> us_is_active u then fail InvalidCredentials
          else
            bind_step (reset_limiter ip) (\<lambda>_.
            bind_step (identity_for env u) (\<lambda>ident.
              open_session env now rnd u ident user_agent ip)))"

text \<open>
  The throttle comes first. For an unknown user the code spends the work of one verification
  against a dummy hash and ignores the answer.
\<close>

definition login ::
  "auth_env \<Rightarrow> int \<Rightarrow> string option \<Rightarrow> string \<Rightarrow> string \<Rightarrow> string \<Rightarrow> string
     \<Rightarrow> (string \<times> identity) service_op" where
  "login env now rnd username0 password user_agent ip s =
     (let username = trim_space username0;
          (admitted, lim) = allow (sv_limiter s) ip now;
          s1 = s\<lparr>sv_limiter := lim\<rparr>
      in if \<not> admitted then (Inl RateLimited, s1)
         else attempt (on_db (user_by_username (ae_coll env) username)) (\<lambda>r.
           case r of
             Inl e \<Rightarrow> fail (if is_not_found e then InvalidCredentials else e)
           | Inr u \<Rightarrow> check_login env now rnd password user_agent ip u) s1)"

definition authenticate :: "auth_env \<Rightarrow> int \<Rightarrow> string \<Rightarrow> identity service_op" where
  "authenticate env now token s =
     (if token = [] then (Inl NotFound, s)
      else
        let h = ae_hash env token;
            ttl = ao_session_ttl (sv_opt s)
        in bind_step (on_db (session_by_id (unix now) h)) (\<lambda>sess.
           bind_step (on_db (user_by_id (sn_user_id sess))) (\<lambda>u.
             if \<not> us_is_active u then attempt (on_db (delete_session h)) (\<lambda>_. fail NotFound)
             else
               bind_step (identity_for env u) (\<lambda>ident0.
                 let ident = ident0\<lparr>id_session_id := h\<rparr>;
                     halfway = wrap64 (sn_created_at sess + go_div (duration_seconds ttl) 2)
                 in if unix now > halfway
                    then attempt (on_db (extend_session h (unix (now + ttl)))) (\<lambda>_. return ident)
                    else return ident))) s)"

definition logout :: "auth_env \<Rightarrow> string \<Rightarrow> unit service_op" where
  "logout env token s =
     (if token = [] then (Inr (), s) else on_db (delete_session (ae_hash env token)) s)"

text \<open>One tick of the pruning loop.\<close>

definition prune_tick :: "int \<Rightarrow> service \<Rightarrow> service" where
  "prune_tick now s = snd (on_db (delete_expired_sessions (unix now)) s)"

fun first_not_allowed :: "permission_set \<Rightarrow> string list \<Rightarrow> string option" where
  "first_not_allowed allowed [] = None"
| "first_not_allowed allowed (h # hs) =
     (if \<not> has allowed h then Some h else first_not_allowed allowed hs)"

definition RoleAdmin :: string where "RoleAdmin = ''admin''"
definition RoleOperator :: string where "RoleOperator = ''operator''"
definition RoleGuest :: string where "RoleGuest = ''guest''"
definition RoleDemo :: string where "RoleDemo = ''demo''"

definition login_demo ::
  "auth_env \<Rightarrow> int \<Rightarrow> string option \<Rightarrow> string \<Rightarrow> string \<Rightarrow> (string \<times> identity) service_op" where
  "login_demo env now rnd user_agent ip s =
     (let opt = sv_opt s in
      if ao_demo_user opt = [] then (Inl InvalidCredentials, s)
      else
        let (admitted, lim) = allow (sv_limiter s) ip now;
            s1 = s\<lparr>sv_limiter := lim\<rparr>
        in if \<not> admitted then (Inl RateLimited, s1)
           else attempt (on_db (user_by_username (ae_coll env) (ao_demo_user opt))) (\<lambda>r.
             case r of
               Inl e \<Rightarrow> fail (if is_not_found e then InvalidCredentials else e)
             | Inr u \<Rightarrow>
                 if \<not> us_is_active u then fail InvalidCredentials
                 else bind_step (identity_for env u) (\<lambda>ident.
                   if ro_name (id_role ident) \<noteq> RoleGuest \<and> ro_name (id_role ident) \<noteq> RoleDemo
                   then fail (DemoWrongRole (us_username u) (ro_name (id_role ident)))
                   else
                     let allowed = new_permission_set (demo_permissions (ao_demo_commands opt))
                     in case first_not_allowed allowed (ps_list (id_permissions ident)) of
                          Some held \<Rightarrow> fail (DemoHoldsMore (us_username u) held)
                        | None \<Rightarrow> open_session env now rnd u ident user_agent ip)) s1)"


section \<open>Inversion of the operations\<close>

abbreviation pop_service :: "service \<Rightarrow> service" where
  "pop_service s \<equiv> s\<lparr>sv_db := pop_fault (sv_db s)\<rparr>"

lemma on_db_eq: "on_db m s = (r, s') \<longleftrightarrow> (\<exists>d. m (sv_db s) = (r, d) \<and> s' = s\<lparr>sv_db := d\<rparr>)"
  by (auto simp: on_db_def split: prod.splits)

lemma find_role_Some: "find_role i rs = Some r \<Longrightarrow> r \<in> set rs \<and> ro_id r = i"
  by (induction rs) (auto split: if_splits)

lemma identity_for_Inr:
  assumes "identity_for env u s = (Inr ident, s')"
  shows "s' = pop_service s" "id_user ident = u" "id_session_id ident = []"
    "\<exists>rr \<in> set (db_roles (sv_db s)). rr_id rr = us_role_id u \<and> scan_role rr = Inr (id_role ident)"
    "id_permissions ident = new_permission_set (ro_permissions (id_role ident))"
proof -
  from assms obtain roles d r where l: "list_roles (ae_coll env) (sv_db s) = (Inr roles, d)"
    "find_role (us_role_id u) roles = Some r" "s' = s\<lparr>sv_db := d\<rparr>"
    "ident = \<lparr>id_user = u, id_role = r, id_permissions = new_permission_set (ro_permissions r),
              id_session_id = []\<rparr>"
    by (auto simp: identity_for_def guard_simps on_db_eq split: option.splits)
  have "d = pop_fault (sv_db s)" using l(1) query_state(4) [of "ae_coll env" "sv_db s"] by simp
  with l show "s' = pop_service s" "id_user ident = u" "id_session_id ident = []"
    "id_permissions ident = new_permission_set (ro_permissions (id_role ident))" by simp_all
  from find_role_Some [OF l(2)] list_roles_Inr [OF l(1)] obtain rr where
    "rr \<in> set (db_roles (sv_db s))" "scan_role rr = Inr r" "ro_id r = us_role_id u" by blast
  with scan_role_Inr [OF this(2)] l(4) show
    "\<exists>rr \<in> set (db_roles (sv_db s)). rr_id rr = us_role_id u \<and> scan_role rr = Inr (id_role ident)"
    by auto
qed

lemma identity_for_again:
  assumes "identity_for env u s = (Inr ident, s')"
    and "db_roles (sv_db s2) = db_roles (sv_db s)" and "us_role_id u2 = us_role_id u"
    and "\<not> faulty (sv_db s2)"
  shows "identity_for env u2 s2 = (Inr (ident\<lparr>id_user := u2\<rparr>), pop_service s2)"
proof -
  from assms(1) obtain roles d r where l: "list_roles (ae_coll env) (sv_db s) = (Inr roles, d)"
    "find_role (us_role_id u) roles = Some r"
    "ident = \<lparr>id_user = u, id_role = r, id_permissions = new_permission_set (ro_permissions r),
              id_session_id = []\<rparr>"
    by (auto simp: identity_for_def guard_simps on_db_eq split: option.splits)
  then have "list_roles (ae_coll env) (sv_db s2) = (Inr roles, pop_fault (sv_db s2))"
    using assms(2,4) by (auto simp: list_roles_def statement_eq split: if_splits sum.splits)
  with l assms(3) show ?thesis
    by (simp add: identity_for_def on_db_def bind_step_def attempt_def)
qed

lemma open_session_Inr:
  assumes "open_session env now rnd u ident ua ip s = (Inr (token, ident'), s')"
  shows "\<exists>b d. rnd = Some b \<and> token = b64_encode url_alphabet b
    \<and> ident' = ident\<lparr>id_session_id := ae_hash env token\<rparr>
    \<and> create_session \<lparr>sn_id = ae_hash env token, sn_user_id = us_id u, sn_created_at = unix now,
          sn_expires_at = unix (now + ao_session_ttl (sv_opt s))\<rparr> ua ip (sv_db s) = (Inr (), d)
    \<and> s' = s\<lparr>sv_db := snd (touch_login (unix now) (us_id u) d)\<rparr>"
  using assms
  by (auto simp: open_session_def new_token_def Let_def guard_simps attempt_eq on_db_eq
      split: option.splits)

lemma login_Inr:
  assumes "login env now rnd name pw ua ip s = (Inr (token, ident'), s')"
  shows "\<exists>u ident s1. fst (allow (sv_limiter s) ip now)
    \<and> user_by_username (ae_coll env) (trim_space name) (sv_db s) = (Inr u, pop_fault (sv_db s))
    \<and> verify_password (ae_idkey env) (ae_version env) pw (us_password_hash u) = Inr True
    \<and> us_is_active u
    \<and> sv_db s1 = pop_fault (sv_db s) \<and> sv_opt s1 = sv_opt s
    \<and> identity_for env u s1 = (Inr ident, pop_service s1)
    \<and> open_session env now rnd u ident ua ip (pop_service s1) = (Inr (token, ident'), s')"
proof -
  obtain ok lim where al: "allow (sv_limiter s) ip now = (ok, lim)" by fastforce
  from assms have ok: ok by (auto simp: login_def al Let_def split: if_splits)
  with assms al obtain u d where "user_by_username (ae_coll env) (trim_space name) (sv_db s) = (Inr u, d)"
    "check_login env now rnd pw ua ip u (s\<lparr>sv_limiter := lim, sv_db := d\<rparr>) = (Inr (token, ident'), s')"
    by (auto simp: login_def Let_def guard_simps on_db_eq)
  then have u: "user_by_username (ae_coll env) (trim_space name) (sv_db s) = (Inr u, d)"
    "verify_password (ae_idkey env) (ae_version env) pw (us_password_hash u) = Inr True" "us_is_active u"
    and rest: "bind_step (reset_limiter ip) (\<lambda>_. bind_step (identity_for env u) (\<lambda>ident.
        open_session env now rnd u ident ua ip)) (s\<lparr>sv_limiter := lim, sv_db := d\<rparr>)
      = (Inr (token, ident'), s')"
    by (auto simp: check_login_def split: sum.splits if_splits)
  have d: "d = pop_fault (sv_db s)" using user_by_username_Inr [OF u(1)] by simp
  let ?s = "s\<lparr>sv_db := d, sv_limiter := reset lim ip\<rparr>"
  from rest obtain ident s2 where i: "identity_for env u ?s = (Inr ident, s2)"
    "open_session env now rnd u ident ua ip s2 = (Inr (token, ident'), s')"
    by (auto simp: guard_simps reset_limiter_def)
  with identity_for_Inr(1) [OF i(1)] u d al ok show ?thesis
    by (intro exI [of _ u] exI [of _ ident] exI [of _ ?s]) simp
qed

lemma authenticate_Inr:
  assumes "authenticate env now token s = (Inr ident, s')"
  shows "\<exists>sess u ident0. token \<noteq> []
    \<and> session_by_id (unix now) (ae_hash env token) (sv_db s) = (Inr sess, pop_fault (sv_db s))
    \<and> user_by_id (sn_user_id sess) (pop_fault (sv_db s)) = (Inr u, pop_fault (pop_fault (sv_db s)))
    \<and> us_is_active u
    \<and> identity_for env u (s\<lparr>sv_db := pop_fault (pop_fault (sv_db s))\<rparr>)
        = (Inr ident0, s\<lparr>sv_db := pop_fault (pop_fault (pop_fault (sv_db s)))\<rparr>)
    \<and> ident = ident0\<lparr>id_session_id := ae_hash env token\<rparr>
    \<and> (s' = s\<lparr>sv_db := pop_fault (pop_fault (pop_fault (sv_db s)))\<rparr>
       \<or> s' = s\<lparr>sv_db := snd (extend_session (ae_hash env token)
                (unix (now + ao_session_ttl (sv_opt s))) (pop_fault (pop_fault (pop_fault (sv_db s)))))\<rparr>)"
proof -
  let ?h = "ae_hash env token"
  from assms obtain sess d1 u d2 ident0 s3 where
    t: "token \<noteq> []" and
    1: "session_by_id (unix now) ?h (sv_db s) = (Inr sess, d1)" and
    2: "user_by_id (sn_user_id sess) d1 = (Inr u, d2)" "us_is_active u" and
    3: "identity_for env u (s\<lparr>sv_db := d2\<rparr>) = (Inr ident0, s3)" and
    4: "ident = ident0\<lparr>id_session_id := ?h\<rparr>"
       "s' = s3 \<or> s' = s3\<lparr>sv_db := snd (extend_session ?h (unix (now + ao_session_ttl (sv_opt s))) (sv_db s3))\<rparr>"
    by (auto simp: authenticate_def Let_def guard_simps attempt_eq on_db_eq split: if_splits)
  have "d1 = pop_fault (sv_db s)" using 1 query_state(5) [of "unix now" ?h "sv_db s"] by simp
  moreover have "d2 = pop_fault d1" using 2 user_by_id_Inr [OF 2(1)] by simp
  moreover have "s3 = s\<lparr>sv_db := pop_fault d2\<rparr>" using identity_for_Inr(1) [OF 3] by simp
  ultimately show ?thesis using t 1 2 3 4 by auto
qed


section \<open>The invariant of the service\<close>

definition service_inv :: "auth_env \<Rightarrow> service \<Rightarrow> bool" where
  "service_inv env s \<longleftrightarrow> db_inv (ae_coll env) (sv_db s) \<and> window_inv (sv_limiter s)"

lemma keeps_on_db [keeps_intros]:
  "keeps (db_inv (ae_coll env)) m \<Longrightarrow> keeps (service_inv env) (on_db m)"
  by (auto simp: keeps_def service_inv_def on_db_def split: prod.splits)

lemma keeps_reset_limiter [keeps_intros]: "keeps (service_inv env) (reset_limiter ip)"
  by (simp add: keeps_def service_inv_def reset_limiter_def reset_inv)

lemma keeps_identity_for [keeps_intros]: "keeps (service_inv env) (identity_for env u)"
  unfolding identity_for_def by (intro keeps_intros)

lemma keeps_open_session [keeps_intros]:
  "keeps (service_inv env) (open_session env now rnd u ident ua ip)"
proof (rule keepsI)
  fix s
  assume inv: "service_inv env s"
  have "keeps (service_inv env) (bind_step (on_db (create_session sess ua ip)) (\<lambda>_.
      attempt (on_db (touch_login (unix now) (us_id u))) (\<lambda>_. return (token, i))))" for sess and token :: string and i :: identity
    by (intro keeps_intros)
  with inv show "service_inv env (snd (open_session env now rnd u ident ua ip s))"
    by (auto simp: open_session_def Let_def keeps_def split: sum.splits)
qed

lemma keeps_check_login [keeps_intros]: "keeps (service_inv env) (check_login env now rnd pw ua ip u)"
  unfolding check_login_def by (intro keeps_intros)

lemma service_inv_limiter:
  "service_inv env s \<Longrightarrow> service_inv env (s\<lparr>sv_limiter := snd (allow (sv_limiter s) k t)\<rparr>)"
  by (simp add: service_inv_def allow_inv)

lemma keeps_login [keeps_intros]: "keeps (service_inv env) (login env now rnd name pw ua ip)"
proof (rule keepsI)
  fix s
  assume inv: "service_inv env s"
  have "keeps (service_inv env) (attempt (on_db (user_by_username (ae_coll env) (trim_space name)))
      (\<lambda>r. case r of Inl e \<Rightarrow> fail (if is_not_found e then InvalidCredentials else e)
        | Inr u \<Rightarrow> check_login env now rnd pw ua ip u))"
    by (intro keeps_intros)
  with service_inv_limiter [OF inv, of ip now]
  show "service_inv env (snd (login env now rnd name pw ua ip s))"
    by (auto simp: login_def Let_def keeps_def case_prod_beta)
qed

lemma keeps_login_demo [keeps_intros]: "keeps (service_inv env) (login_demo env now rnd ua ip)"
proof (rule keepsI)
  fix s
  assume inv: "service_inv env s"
  have "keeps (service_inv env) (attempt (on_db (user_by_username (ae_coll env) n)) (\<lambda>r.
      case r of Inl e \<Rightarrow> fail (if is_not_found e then InvalidCredentials else e)
      | Inr u \<Rightarrow>
          if \<not> us_is_active u then fail InvalidCredentials
          else bind_step (identity_for env u) (\<lambda>ident.
            if ro_name (id_role ident) \<noteq> RoleGuest \<and> ro_name (id_role ident) \<noteq> RoleDemo
            then fail (DemoWrongRole (us_username u) (ro_name (id_role ident)))
            else
              let allowed = new_permission_set (demo_permissions cmds)
              in case first_not_allowed allowed (ps_list (id_permissions ident)) of
                   Some held \<Rightarrow> fail (DemoHoldsMore (us_username u) held)
                 | None \<Rightarrow> open_session env now rnd u ident ua ip)))" for n cmds
    unfolding Let_def by (intro keeps_intros)
  with service_inv_limiter [OF inv, of ip now] inv
  show "service_inv env (snd (login_demo env now rnd ua ip s))"
    by (auto simp: login_demo_def Let_def keeps_def case_prod_beta)
qed

lemma keeps_authenticate [keeps_intros]: "keeps (service_inv env) (authenticate env now token)"
proof (rule keepsI)
  fix s
  assume inv: "service_inv env s"
  have "keeps (service_inv env)
      (bind_step (on_db (session_by_id (unix now) h)) (\<lambda>sess.
           bind_step (on_db (user_by_id (sn_user_id sess))) (\<lambda>u.
             if \<not> us_is_active u then attempt (on_db (delete_session h)) (\<lambda>_. fail NotFound)
             else
               bind_step (identity_for env u) (\<lambda>ident0.
                 let ident = ident0\<lparr>id_session_id := h\<rparr>;
                     halfway = wrap64 (sn_created_at sess + go_div (duration_seconds ttl) 2)
                 in if unix now > halfway
                    then attempt (on_db (extend_session h (unix (now + ttl)))) (\<lambda>_. return ident)
                    else return ident))))" for h ttl
    unfolding Let_def by (intro keeps_intros)
  with inv show "service_inv env (snd (authenticate env now token s))"
    by (auto simp: authenticate_def Let_def keeps_def)
qed

lemma keeps_logout [keeps_intros]: "keeps (service_inv env) (logout env token)"
  using keeps_on_db [OF keeps_session_ops(2), of env "ae_hash env token"]
  by (auto simp: keeps_def logout_def)

section \<open>A session lasts from login to logout\<close>

lemma user_by_id_finds:
  assumes "db_inv coll d" and "\<not> faulty d" and "ur \<in> set (db_users d)"
  shows "\<exists>rr \<in> set (db_roles d). rr_id rr = ur_role_id ur
    \<and> user_by_id (ur_id ur) d = (Inr (user_of ur rr), pop_fault d)"
proof -
  obtain rr where rr: "rr \<in> set (db_roles d)" "rr_id rr = ur_role_id ur"
    using db_inv_role_id [OF assms(1,3)] by auto
  then have "user_of ur rr \<in> set (select_users (\<lambda>u. ur_id u = ur_id ur) d)"
    using assms(3) by (auto simp: set_select_users)
  then obtain u rest where "select_users (\<lambda>u. ur_id u = ur_id ur) d = u # rest"
    by (cases "select_users (\<lambda>u. ur_id u = ur_id ur) d") auto
  then have u: "user_by_id (ur_id ur) d = (Inr u, pop_fault d)"
    using assms(2) by (simp add: user_by_id_def statement_eq first_row_def)
  with user_by_id_Inr [OF u] obtain ur' rr' where
    ur': "ur' \<in> set (db_users d)" "ur_id ur' = ur_id ur" and
    rr': "rr' \<in> set (db_roles d)" "rr_id rr' = ur_role_id ur'" "u = user_of ur' rr'" by auto
  have "ur' = ur"
    using assms(1,3) ur' by (auto simp: db_inv_def users_ok_def distinct_map dest: inj_onD)
  with u rr' show ?thesis by auto
qed

lemma touch_login_tables:
  "db_roles (snd (touch_login now i d)) = db_roles d"
  "sessions_view (snd (touch_login now i d)) = sessions_view d"
  "db_faults d = [] \<Longrightarrow> db_faults (snd (touch_login now i d)) = []"
  by (simp_all add: touch_login_def statement_eq update_users_def update_rows_def
      sessions_view_def [abs_def])

lemma touch_login_user:
  assumes "ur \<in> set (db_users d)"
  shows "\<exists>ur' \<in> set (db_users (snd (touch_login now i d))).
    ur_id ur' = ur_id ur \<and> ur_username ur' = ur_username ur \<and> ur_role_id ur' = ur_role_id ur
    \<and> ur_is_active ur' = ur_is_active ur"
proof -
  let ?d = "snd (touch_login now i d)"
  let ?ur = "if ur_id ur = i \<and> \<not> faulty d then ur\<lparr>ur_last_login_at := Some now\<rparr> else ur"
  have "?ur \<in> set (db_users ?d)"
    using assms by (auto simp: touch_login_def statement_eq update_users_def update_rows_def)
  then show ?thesis by (rule bexI [rotated]) simp
qed

lemma create_session_tables:
  assumes "create_session x ua ip d = (Inr (), d')"
  shows "db_roles d' = db_roles d" "db_users d' = db_users d" "db_faults d' = tl (db_faults d)"
  using assms by (auto simp: create_session_def statement_eq split: if_splits)


lemma authenticate_eval:
  assumes "db_inv (ae_coll env) (sv_db s)" and "db_faults (sv_db s) = []" and "token \<noteq> []"
    and "sessions_view (sv_db s) (ae_hash env token) = Some sess" and "unix t < sn_expires_at sess"
    and "ur \<in> set (db_users (sv_db s))" and "ur_id ur = sn_user_id sess" and "ur_is_active ur"
    and "identity_for env u0 s0 = (Inr ident0, s1)"
    and "db_roles (sv_db s) = db_roles (sv_db s0)" and "ur_role_id ur = us_role_id u0"
  shows "\<exists>rr s''. authenticate env t token s
    = (Inr (ident0\<lparr>id_user := user_of ur rr, id_session_id := ae_hash env token\<rparr>), s'')"
proof -
  let ?h = "ae_hash env token"
  have nf: "\<not> faulty (sv_db s)" "pop_fault (sv_db s) = sv_db s" using assms(2) by simp_all
  have 1: "on_db (session_by_id (unix t) ?h) s = (Inr sess, s)"
    using assms(4,5) nf by (simp add: on_db_def session_by_id_eq [OF assms(1)])
  from user_by_id_finds [OF assms(1) nf(1) assms(6)] obtain rr where
    "user_by_id (sn_user_id sess) (sv_db s) = (Inr (user_of ur rr), sv_db s)"
    using assms(7) nf(2) by auto
  then have 2: "on_db (user_by_id (sn_user_id sess)) s = (Inr (user_of ur rr), s)"
    by (simp add: on_db_def)
  have 3: "identity_for env (user_of ur rr) s = (Inr (ident0\<lparr>id_user := user_of ur rr\<rparr>), s)"
    using identity_for_again [OF assms(9,10), of "user_of ur rr"] assms(11) nf by simp
  have 4: "\<exists>s''. attempt (on_db (extend_session ?h e)) (\<lambda>_. return i) s = (Inr i :: auth_error + identity, s'')"
    for e and i :: identity
    by (simp add: attempt_def split: prod.splits)
  show ?thesis
    using assms(3,8) 4 [of "unix (t + ao_session_ttl (sv_opt s))"
        "ident0\<lparr>id_user := user_of ur rr, id_session_id := ?h\<rparr>"]
    by (intro exI [of _ rr]) (simp add: authenticate_def Let_def 1 2 3)
qed

section \<open>A small installation\<close>

text \<open>Concrete accounts, so that the properties below can be seen at work.\<close>

definition sample_env :: auth_env where
  "sample_env = \<lparr>ae_coll = lower_ascii, ae_hash = rev, ae_idkey = sample_kdf, ae_version = 19\<rparr>"

definition sample_role :: "nat \<Rightarrow> string \<Rightarrow> string list \<Rightarrow> role_row" where
  "sample_role i name perms =
     \<lparr>rr_id = of_nat i, rr_name = name, rr_description = [], rr_permissions = Some perms,
      rr_is_system = True, rr_created_at = 0\<rparr>"

definition sample_user :: "nat \<Rightarrow> string \<Rightarrow> nat \<Rightarrow> user_row" where
  "sample_user i name r =
     \<lparr>ur_id = of_nat i, ur_username = name, ur_password_hash = phc 19 8 1 1 ''salt'' ''secr'',
      ur_display_name = name, ur_email = [], ur_role_id = of_nat r, ur_is_active = True,
      ur_created_at = 0, ur_updated_at = 0, ur_last_login_at = None\<rparr>"

definition sample_db :: db where
  "sample_db =
     \<lparr>db_roles = [sample_role 1 ''operator'' [PermHostsRead, PermCmdAcknowledge],
                  sample_role 2 ''demo'' [PermHostsRead, PermCmdDowntime]],
      db_users = [sample_user 1 ''ann'' 1, sample_user 2 ''guest'' 2],
      db_sessions = [], db_next_role = 3, db_next_user = 3, db_faults = []\<rparr>"

definition sample_service :: service where
  "sample_service = new_service sample_db
     \<lparr>ao_session_ttl = hour, ao_login_rate_limit = 2, ao_login_rate_window = minute,
      ao_demo_user = ''guest'', ao_demo_commands = [''downtime'']\<rparr>"

lemma sample_db_inv: "db_inv (ae_coll sample_env) sample_db"
  by (simp add: db_inv_def sample_db_def sample_env_def roles_ok_def users_ok_def sessions_ok_def
      sample_role_def sample_user_def lower_ascii_def byte_def)

lemma sample_service_sel:
  "sv_db sample_service = sample_db" "ao_session_ttl (sv_opt sample_service) = hour"
  "sv_limiter sample_service = new_window 2 minute"
  "ao_demo_user (sv_opt sample_service) = ''guest''"
  "ao_demo_commands (sv_opt sample_service) = [''downtime'']"
  by (simp_all add: sample_service_def new_service_def Let_def hour_def minute_def second_def)

lemma sample_service_inv: "service_inv sample_env sample_service"
  by (simp add: service_inv_def sample_service_sel sample_db_inv new_window_inv minute_def
      second_def max_duration_def)

lemma sample_login:
  "\<exists>token ident s'. login sample_env 0 (Some ''abc'') '' Ann'' ''secret'' ''ua'' ''::1'' sample_service
     = (Inr (token, ident), s') \<and> token \<noteq> [] \<and> us_username (id_user ident) = ''ann''"
proof -
  let ?l = "login sample_env 0 (Some ''abc'') '' Ann'' ''secret'' ''ua'' ''::1'' sample_service"
  have "(case fst (?l)
      of Inr (token, ident) \<Rightarrow> token \<noteq> [] \<and> us_username (id_user ident) = ''ann'' | Inl _ \<Rightarrow> False)"
    by code_simp
  then show ?thesis
    by (cases "login sample_env 0 (Some ''abc'') '' Ann'' ''secret'' ''ua'' ''::1'' sample_service")
      (auto split: sum.splits)
qed


section \<open>Properties of sessions\<close>

text \<open>
  C4. A successful login opens a session that works: until it expires, the token authenticates as
  the same account, with the same role and the same permissions as the identity the login
  returned.
\<close>
theorem login_then_authenticate:
  assumes "service_inv env s" and "db_faults (sv_db s) = []"
    and "login env now rnd name password ua ip s = (Inr (token, ident), s')" and "token \<noteq> []"
    and "unix t < unix (now + ao_session_ttl (sv_opt s))"
  shows "\<exists>ident' s''. authenticate env t token s' = (Inr ident', s'')
    \<and> us_id (id_user ident') = us_id (id_user ident)
    \<and> us_username (id_user ident') = us_username (id_user ident)
    \<and> id_role ident' = id_role ident \<and> id_permissions ident' = id_permissions ident
    \<and> id_session_id ident' = id_session_id ident"
proof -
  let ?d = "sv_db s" and ?h = "ae_hash env token"
  have pop: "pop_fault ?d = ?d" using assms(2) by simp
  from login_Inr [OF assms(3)] obtain u ident0 s1 where
    u: "user_by_username (ae_coll env) (trim_space name) ?d = (Inr u, ?d)" "us_is_active u" and
    s1: "sv_db s1 = ?d" "sv_opt s1 = sv_opt s" and
    i0: "identity_for env u s1 = (Inr ident0, pop_service s1)" and
    o0: "open_session env now rnd u ident0 ua ip (pop_service s1) = (Inr (token, ident), s')"
    unfolding pop by blast
  have "pop_service s1 = s1" using s1(1) assms(2) by simp
  with i0 o0 have i: "identity_for env u s1 = (Inr ident0, s1)" and
    o: "open_session env now rnd u ident0 ua ip s1 = (Inr (token, ident), s')" by simp_all
  from open_session_Inr [OF o] s1 obtain d1 where
    id: "ident = ident0\<lparr>id_session_id := ?h\<rparr>" and
    c: "create_session \<lparr>sn_id = ?h, sn_user_id = us_id u, sn_created_at = unix now,
          sn_expires_at = unix (now + ao_session_ttl (sv_opt s))\<rparr> ua ip ?d = (Inr (), d1)" and
    s': "sv_db s' = snd (touch_login (unix now) (us_id u) d1)"
    by auto
  have inv: "db_inv (ae_coll env) ?d" using assms(1) by (simp add: service_inv_def)
  have inv': "db_inv (ae_coll env) (sv_db s')"
    using keepsD [OF keeps_login assms(1,3)] by (simp add: service_inv_def)
  have d1: "db_roles d1 = db_roles ?d" "db_users d1 = db_users ?d" "db_faults d1 = []"
    using create_session_tables [OF c] assms(2) by simp_all
  have view: "sessions_view (sv_db s') ?h = Some \<lparr>sn_id = ?h, sn_user_id = us_id u,
      sn_created_at = unix now, sn_expires_at = unix (now + ao_session_ttl (sv_opt s))\<rparr>"
    using ss.create_ok [OF inv c] by (simp add: s' touch_login_tables)
  from user_by_username_Inr [OF u(1)] obtain ur rr where
    ur: "ur \<in> set (db_users d1)" "u = user_of ur rr" using d1(2) by auto
  from touch_login_user [OF ur(1), of "unix now" "us_id u"] obtain ur' where
    ur': "ur' \<in> set (db_users (sv_db s'))" "ur_id ur' = us_id u" "ur_username ur' = us_username u"
      "ur_role_id ur' = us_role_id u" "ur_is_active ur'"
    using ur u(2) s' by auto
  have "db_faults (sv_db s') = []" "db_roles (sv_db s') = db_roles (sv_db s1)"
    using d1 s' s1(1) by (simp_all add: touch_login_tables)
  with authenticate_eval [OF inv' _ assms(4) view _ ur'(1) _ ur'(5) i _ ur'(4), of t] assms(5) ur'(2)
  obtain rr' s'' where "authenticate env t token s'
      = (Inr (ident0\<lparr>id_user := user_of ur' rr', id_session_id := ?h\<rparr>), s'')" by auto
  then show ?thesis
    using id ur'(2,3) identity_for_Inr(2) [OF i] by auto
qed


theorem login_then_authenticate_witness:
  "\<exists>token ident s' ident' s''.
     login sample_env 0 (Some ''abc'') '' Ann'' ''secret'' ''ua'' ''::1'' sample_service
       = (Inr (token, ident), s')
     \<and> authenticate sample_env (5 * minute) token s' = (Inr ident', s'')
     \<and> id_permissions ident' = id_permissions ident"
proof -
  from sample_login obtain token ident s' where
    l: "login sample_env 0 (Some ''abc'') '' Ann'' ''secret'' ''ua'' ''::1'' sample_service
        = (Inr (token, ident), s')" "token \<noteq> []" by auto
  have "db_faults (sv_db sample_service) = []" by (simp add: sample_service_sel sample_db_def)
  moreover have "unix (5 * minute) < unix (0 + ao_session_ttl (sv_opt sample_service))"
    by (simp add: sample_service_sel unix_def hour_def minute_def second_def)
  ultimately show ?thesis
    using login_then_authenticate [OF sample_service_inv _ l(1,2), of "5 * minute"] l(1) by blast
qed

lemma authenticate_rows:
  assumes "service_inv env s" and "authenticate env now token s = (Inr ident, s')"
  shows "\<exists>sess ur rr. sessions_view (sv_db s) (ae_hash env token) = Some sess
    \<and> unix now < sn_expires_at sess
    \<and> ur \<in> set (db_users (sv_db s)) \<and> ur_id ur = sn_user_id sess \<and> ur_is_active ur
    \<and> rr \<in> set (db_roles (sv_db s)) \<and> rr_id rr = ur_role_id ur
    \<and> us_id (id_user ident) = ur_id ur \<and> us_username (id_user ident) = ur_username ur
    \<and> scan_role rr = Inr (id_role ident)
    \<and> id_permissions ident = new_permission_set (ro_permissions (id_role ident))"
proof -
  from authenticate_Inr [OF assms(2)] obtain sess u ident0 where
    1: "session_by_id (unix now) (ae_hash env token) (sv_db s) = (Inr sess, pop_fault (sv_db s))" and
    2: "user_by_id (sn_user_id sess) (pop_fault (sv_db s)) = (Inr u, pop_fault (pop_fault (sv_db s)))"
       "us_is_active u" and
    3: "identity_for env u (s\<lparr>sv_db := pop_fault (pop_fault (sv_db s))\<rparr>)
        = (Inr ident0, s\<lparr>sv_db := pop_fault (pop_fault (pop_fault (sv_db s)))\<rparr>)" and
    4: "ident = ident0\<lparr>id_session_id := ae_hash env token\<rparr>"
    by blast
  have "db_inv (ae_coll env) (sv_db s)" using assms(1) by (simp add: service_inv_def)
  note v = ss.lookup_ok [OF this 1]
  from user_by_id_Inr [OF 2(1)] obtain ur where ur: "ur \<in> set (db_users (sv_db s))"
    "ur_id ur = sn_user_id sess" "us_id u = ur_id ur" "us_username u = ur_username ur"
    "us_role_id u = ur_role_id ur" "ur_is_active ur"
    using 2(2) by auto
  from identity_for_Inr(4) [OF 3] obtain rr where rr: "rr \<in> set (db_roles (sv_db s))"
    "rr_id rr = ur_role_id ur" "scan_role rr = Inr (id_role ident0)"
    using ur(5) by auto
  show ?thesis
    using v ur rr identity_for_Inr(2,5) [OF 3] 4
    by (intro exI [of _ sess] exI [of _ ur] exI [of _ rr]) simp
qed

text \<open>
  C5. Authentication is sound: a token is accepted only if the tables hold an unexpired session
  under its hash, whose account exists and is active, and the permissions handed out are the ones
  the account's role holds in the tables at that moment, not the ones it had at login. The
  empty token is never accepted.
\<close>
theorem authenticate_sound:
  assumes "service_inv env s" and "authenticate env now token s = (Inr ident, s')"
  shows "token \<noteq> [] \<and> (\<exists>sess \<in> set (db_sessions (sv_db s)). \<exists>ur \<in> set (db_users (sv_db s)).
    \<exists>rr \<in> set (db_roles (sv_db s)). \<exists>perms.
      se_id sess = ae_hash env token \<and> unix now < se_expires_at sess
      \<and> ur_id ur = se_user_id sess \<and> ur_is_active ur
      \<and> rr_id rr = ur_role_id ur \<and> rr_permissions rr = Some perms
      \<and> us_id (id_user ident) = ur_id ur
      \<and> id_permissions ident = new_permission_set perms)"
proof -
  have t: "token \<noteq> []" using assms(2) by (auto simp: authenticate_def)
  from authenticate_rows [OF assms] obtain sess ur rr where
    r: "sessions_view (sv_db s) (ae_hash env token) = Some sess" "unix now < sn_expires_at sess"
    "ur \<in> set (db_users (sv_db s))" "ur_id ur = sn_user_id sess" "ur_is_active ur"
    "rr \<in> set (db_roles (sv_db s))" "rr_id rr = ur_role_id ur" "us_id (id_user ident) = ur_id ur"
    "scan_role rr = Inr (id_role ident)"
    "id_permissions ident = new_permission_set (ro_permissions (id_role ident))" by blast
  from r(1) obtain row where row: "row \<in> set (db_sessions (sv_db s))"
    "se_id row = ae_hash env token" "sess = session_of row"
    by (blast dest: sessions_view_SomeD)
  have "sn_expires_at sess = se_expires_at row" "sn_user_id sess = se_user_id row"
    by (simp_all add: row(3) session_of_def)
  with t r row scan_role_Inr [OF r(9)] show ?thesis
    by (intro conjI bexI [of _ row] bexI [of _ ur] bexI [of _ rr]
        exI [of _ "ro_permissions (id_role ident)"]) simp_all
qed

theorem authenticate_sound_witness:
  "\<exists>token s' ident' s''. authenticate sample_env (5 * minute) token s' = (Inr ident', s'')
     \<and> token \<noteq> []"
proof -
  from sample_login obtain token ident s' where
    l: "login sample_env 0 (Some ''abc'') '' Ann'' ''secret'' ''ua'' ''::1'' sample_service
        = (Inr (token, ident), s')" by auto
  have inv: "service_inv sample_env s'"
    by (rule keepsD [OF keeps_login sample_service_inv l])
  have "\<not> isl (fst (case login sample_env 0 (Some ''abc'') '' Ann'' ''secret'' ''ua'' ''::1'' sample_service of
      (Inr (token, _), s') \<Rightarrow> authenticate sample_env (5 * minute) token s'))"
    by code_simp
  then obtain ident' s'' where "authenticate sample_env (5 * minute) token s' = (Inr ident', s'')"
    using l not_isl_step [of "authenticate sample_env (5 * minute) token s'"] by auto
  from authenticate_sound [OF inv this] this show ?thesis by blast
qed


lemma delete_session_faultless:
  "db_faults (sv_db s) = [] \<Longrightarrow> db_faults (sv_db (snd (logout env token s))) = []"
  by (auto simp: logout_def on_db_def delete_session_def delete_sessions_def statement_eq
      split: prod.splits)

text \<open>
  Logging out works: after it the token no longer authenticates, at any time.
\<close>
theorem logout_ends_session:
  assumes "service_inv env s" and "logout env token s = (Inr (), s')"
  shows "authenticate env t token s' \<noteq> (Inr ident, s'')"
proof
  assume a: "authenticate env t token s' = (Inr ident, s'')"
  have inv: "service_inv env s'" by (rule keepsD [OF keeps_logout assms])
  from authenticate_rows [OF inv a]
  have v: "sessions_view (sv_db s') (ae_hash env token) \<noteq> None" by auto
  have t: "token \<noteq> []" using a by (auto simp: authenticate_def)
  with assms(2) have "delete_session (ae_hash env token) (sv_db s) = (Inr (), sv_db s')"
    by (auto simp: logout_def on_db_eq)
  then have "sessions_view (sv_db s')
      = (sessions_view (sv_db s))(ae_hash env token := None)"
    using assms(1) by (intro ss.remove_ok) (auto simp: service_inv_def)
  then have "sessions_view (sv_db s') (ae_hash env token) = None" by simp
  with v show False by contradiction
qed

theorem logout_ends_session_witness:
  "\<exists>s'. logout sample_env ''tok'' sample_service = (Inr (), s')
     \<and> authenticate sample_env 0 ''tok'' s' \<noteq> (Inr undefined, s')"
proof -
  have "\<not> isl (fst (logout sample_env ''tok'' sample_service))" by code_simp
  then obtain s' where "logout sample_env ''tok'' sample_service = (Inr (), s')"
    using not_isl_unit by blast
  with logout_ends_session [OF sample_service_inv this] show ?thesis by blast
qed

lemma set_active_row:
  assumes "set_active now i False d = (Inr (), d')"
  shows "ur \<in> set (db_users d') \<Longrightarrow> ur_id ur = i \<Longrightarrow> \<not> ur_is_active ur"
    and "se \<in> set (db_sessions d') \<Longrightarrow> se_user_id se \<noteq> i"
proof -
  from assms obtain d1 where
    "affect_one ''setting active'' (update_users (\<lambda>u. ur_id u = i)
       (\<lambda>u. u\<lparr>ur_is_active := False, ur_updated_at := now\<rparr>)) d = (Inr (), d1)"
    and del: "delete_user_sessions i d1 = (Inr (), d')"
    by (auto simp: set_active_def guard_simps)
  then have d1: "d1 = snd (update_users (\<lambda>u. ur_id u = i)
       (\<lambda>u. u\<lparr>ur_is_active := False, ur_updated_at := now\<rparr>) (pop_fault d))"
    using affect_one_Inr by blast
  note d' = delete_user_sessions_Inr [OF del]
  have "db_users d' = db_users d1" "db_sessions d' = filter (\<lambda>s. se_user_id s \<noteq> i) (db_sessions d1)"
    unfolding d' delete_sessions_def by simp_all
  moreover have "\<not> ur_is_active ur" if "ur \<in> set (db_users d1)" "ur_id ur = i"
  proof -
    from that(1) obtain u where "ur = (if ur_id u = i
        then u\<lparr>ur_is_active := False, ur_updated_at := now\<rparr> else u)"
      unfolding d1 update_users_sel set_map by (elim imageE)
    with that(2) show ?thesis by (cases "ur_id u = i") simp_all
  qed
  ultimately show "ur \<in> set (db_users d') \<Longrightarrow> ur_id ur = i \<Longrightarrow> \<not> ur_is_active ur"
    "se \<in> set (db_sessions d') \<Longrightarrow> se_user_id se \<noteq> i"
    by simp_all
qed

text \<open>
  C22. Disabling an account locks it out at once: no token authenticates as it any more, its
  sessions are gone from the table, and a login with the right password is refused.
\<close>
theorem disabled_account_locked_out:
  assumes "service_inv env s" and "set_active now i False (sv_db s) = (Inr (), d')"
  shows "(authenticate env t token (s\<lparr>sv_db := d'\<rparr>) = (Inr ident, s'') \<longrightarrow>
           us_id (id_user ident) \<noteq> i)
    \<and> (login env t rnd name pw ua ip (s\<lparr>sv_db := d'\<rparr>) = (Inr (token, ident), s'') \<longrightarrow>
           us_id (id_user ident) \<noteq> i)
    \<and> (\<forall>se \<in> set (db_sessions d'). se_user_id se \<noteq> i)"
proof (intro conjI impI ballI)
  have inv: "service_inv env (s\<lparr>sv_db := d'\<rparr>)"
    using assms(1) keepsD [OF keeps_set_active _ assms(2)] by (simp add: service_inv_def)
  show "us_id (id_user ident) \<noteq> i"
    if "authenticate env t token (s\<lparr>sv_db := d'\<rparr>) = (Inr ident, s'')"
    using authenticate_rows [OF inv that] set_active_row(1) [OF assms(2)] by auto
  show "us_id (id_user ident) \<noteq> i"
    if l: "login env t rnd name pw ua ip (s\<lparr>sv_db := d'\<rparr>) = (Inr (token, ident), s'')"
  proof -
    from login_Inr [OF l] obtain u ident0 s1 where
      u: "user_by_username (ae_coll env) (trim_space name) d' = (Inr u, pop_fault d')"
         "us_is_active u" and
      i0: "identity_for env u s1 = (Inr ident0, pop_service s1)" and
      o0: "open_session env t rnd u ident0 ua ip (pop_service s1) = (Inr (token, ident), s'')"
      by auto
    have "id_user ident = u"
      using open_session_Inr [OF o0] identity_for_Inr(2) [OF i0] by auto
    with user_by_username_Inr [OF u(1)] u(2) set_active_row(1) [OF assms(2)] show ?thesis by auto
  qed
  show "se_user_id se \<noteq> i" if "se \<in> set (db_sessions d')" for se
    using set_active_row(2) [OF assms(2) that] .
qed

theorem disabled_account_locked_out_witness:
  "\<exists>d'. set_active 7 1 False (sv_db sample_service) = (Inr (), d')
     \<and> (\<forall>se \<in> set (db_sessions d'). se_user_id se \<noteq> 1)"
proof -
  have "\<not> isl (fst (set_active 7 1 False (sv_db sample_service)))" by code_simp
  then obtain d' where "set_active 7 1 False (sv_db sample_service) = (Inr (), d')"
    using not_isl_unit by blast
  with disabled_account_locked_out [OF sample_service_inv this] show ?thesis by blast
qed


section \<open>Refused logins\<close>

lemma user_by_username_Inl:
  "user_by_username coll n d = (Inl e, d') \<Longrightarrow> e = NotFound \<or> e = StoreError ''user''"
  by (auto simp: user_by_username_def statement_eq first_row_Inl split: if_splits)

lemma identity_for_Inl:
  "identity_for env u s = (Inl e, s') \<Longrightarrow> e \<noteq> InvalidCredentials \<and> e \<noteq> RateLimited"
  by (auto simp: identity_for_def guard_simps on_db_eq list_roles_def statement_eq
      split: option.splits if_splits sum.splits)

lemma open_session_Inl:
  "open_session env now rnd u ident ua ip s = (Inl e, s') \<Longrightarrow> e \<noteq> InvalidCredentials \<and> e \<noteq> RateLimited"
  by (auto simp: open_session_def new_token_def Let_def guard_simps on_db_eq attempt_eq
      create_session_def statement_eq split: option.splits if_splits)

lemma never_refused [simp]:
  "identity_for env u s \<noteq> (Inl InvalidCredentials, s')"
  "identity_for env u s \<noteq> (Inl RateLimited, s')"
  "open_session env now rnd u ident ua ip s \<noteq> (Inl InvalidCredentials, s')"
  "open_session env now rnd u ident ua ip s \<noteq> (Inl RateLimited, s')"
  using identity_for_Inl open_session_Inl by blast+

lemma check_login_Inl:
  assumes "check_login env now rnd pw ua ip u s = (Inl e, s')"
  shows "e \<noteq> RateLimited" "e = InvalidCredentials \<Longrightarrow> s' = s"
  using assms
  by (auto simp: check_login_def guard_simps reset_limiter_def split: sum.splits if_splits)

text \<open>
  A refusal touches the throttle exactly as \<^const>\<open>allow\<close> does, and is \<^const>\<open>RateLimited\<close>
  exactly when the throttle did not admit it.
\<close>

lemma login_refused:
  assumes "login env now rnd name pw ua ip s = (Inl e, s')"
    and "e = InvalidCredentials \<or> e = RateLimited"
  shows "sv_limiter s' = snd (allow (sv_limiter s) ip now)"
    "e \<noteq> RateLimited \<longleftrightarrow> fst (allow (sv_limiter s) ip now)"
proof -
  obtain ok lim where al: "allow (sv_limiter s) ip now = (ok, lim)" by fastforce
  have "sv_limiter s' = lim \<and> (e \<noteq> RateLimited \<longleftrightarrow> ok)"
  proof (cases ok)
    case False
    with assms(1) al show ?thesis by (auto simp: login_def)
  next
    case True
    with assms(1) al consider
      (unknown) e' d where "user_by_username (ae_coll env) (trim_space name) (sv_db s) = (Inl e', d)"
        "e = (if is_not_found e' then InvalidCredentials else e')" "s' = s\<lparr>sv_limiter := lim, sv_db := d\<rparr>"
    | (known) u d where
        "check_login env now rnd pw ua ip u (s\<lparr>sv_limiter := lim, sv_db := d\<rparr>) = (Inl e, s')"
      by (auto simp: login_def guard_simps on_db_eq Let_def)
    then show ?thesis
    proof cases
      case unknown
      with user_by_username_Inl [OF unknown(1)] assms(2) True show ?thesis by auto
    next
      case known
      with check_login_Inl [OF known] assms(2) True show ?thesis by auto
    qed
  qed
  with al show "sv_limiter s' = snd (allow (sv_limiter s) ip now)"
    "e \<noteq> RateLimited \<longleftrightarrow> fst (allow (sv_limiter s) ip now)" by simp_all
qed

text \<open>
  C21. An unknown name, a wrong password, an unreadable stored hash and a disabled account cannot
  be told apart: the answer is the same error, and the service is left in the same state, the
  throttle having counted the attempt and no table having changed.
\<close>
theorem login_refuses_uniformly:
  assumes "db_faults (sv_db s) = []" and "fst (allow (sv_limiter s) ip now)"
    and "\<not> (\<exists>u. fst (user_by_username (ae_coll env) (trim_space name) (sv_db s)) = Inr u
           \<and> verify_password (ae_idkey env) (ae_version env) pw (us_password_hash u) = Inr True
           \<and> us_is_active u)"
  shows "login env now rnd name pw ua ip s
    = (Inl InvalidCredentials, s\<lparr>sv_limiter := snd (allow (sv_limiter s) ip now)\<rparr>)"
proof -
  obtain lim where al: "allow (sv_limiter s) ip now = (True, lim)"
    using assms(2) by (metis prod.collapse)
  let ?s = "s\<lparr>sv_limiter := lim\<rparr>"
  obtain r where q: "user_by_username (ae_coll env) (trim_space name) (sv_db s) = (r, sv_db s)"
    using query_state(1) [of "ae_coll env" "trim_space name" "sv_db s"] assms(1)
    by (metis no_faults(2) prod.collapse)
  then have on: "on_db (user_by_username (ae_coll env) (trim_space name)) ?s = (r, ?s)"
    by (simp add: on_db_def)
  show ?thesis
  proof (cases r)
    case (Inl e)
    have "e = NotFound"
      using user_by_username_Inl [of _ _ "sv_db s" e] q Inl assms(1)
      by (auto simp: user_by_username_def statement_eq first_row_Inl)
    with on al Inl show ?thesis by (simp add: login_def)
  next
    case (Inr u)
    with assms(3) q have "verify_password (ae_idkey env) (ae_version env) pw (us_password_hash u) \<noteq> Inr True
        \<or> \<not> us_is_active u" by simp
    then have "check_login env now rnd pw ua ip u ?s = (Inl InvalidCredentials, ?s)"
      by (auto simp: check_login_def split: sum.splits)
    with on al Inr show ?thesis by (simp add: login_def)
  qed
qed

theorem login_refuses_uniformly_witness:
  "fst (login sample_env 0 None ''ann'' ''wrong'' ''ua'' ''::1'' sample_service)
     = fst (login sample_env 0 None ''nobody'' ''secret'' ''ua'' ''::1'' sample_service)"
proof -
  have 1: "db_faults (sv_db sample_service) = []" "fst (allow (sv_limiter sample_service) ''::1'' 0)"
    by code_simp+
  have "\<not> (case fst (user_by_username (ae_coll sample_env) (trim_space ''ann'') (sv_db sample_service)) of
      Inr u \<Rightarrow> verify_password (ae_idkey sample_env) (ae_version sample_env) ''wrong'' (us_password_hash u) = Inr True
    | Inl _ \<Rightarrow> False)" by code_simp
  then have 2: "\<not> (\<exists>u. fst (user_by_username (ae_coll sample_env) (trim_space ''ann'') (sv_db sample_service)) = Inr u
      \<and> verify_password (ae_idkey sample_env) (ae_version sample_env) ''wrong'' (us_password_hash u) = Inr True
      \<and> us_is_active u)" by (auto split: sum.splits)
  have "isl (fst (user_by_username (ae_coll sample_env) (trim_space ''nobody'') (sv_db sample_service)))"
    by code_simp
  then have 3: "\<not> (\<exists>u. fst (user_by_username (ae_coll sample_env) (trim_space ''nobody'') (sv_db sample_service)) = Inr u
      \<and> verify_password (ae_idkey sample_env) (ae_version sample_env) ''secret'' (us_password_hash u) = Inr True
      \<and> us_is_active u)" by auto
  show ?thesis
    using login_refuses_uniformly [OF 1 2, of None "''ua''"]
      login_refuses_uniformly [OF 1 3, of None "''ua''"] by simp
qed


section \<open>Guessing\<close>

record login_attempt =
  la_time :: int
  la_username :: string
  la_password :: string
  la_ip :: string

text \<open>A sequence of logins, one after the other, and what each was answered.\<close>

fun login_all ::
  "auth_env \<Rightarrow> string option \<Rightarrow> string \<Rightarrow> service \<Rightarrow> login_attempt list
     \<Rightarrow> (auth_error + (string \<times> identity)) list" where
  "login_all env rnd ua s [] = []"
| "login_all env rnd ua s (a # as) =
     (let (r, s') = login env (la_time a) rnd (la_username a) (la_password a) ua (la_ip a) s
      in r # login_all env rnd ua s' as)"

definition refused :: "auth_error + 'a \<Rightarrow> bool" where
  "refused r \<longleftrightarrow> r = Inl InvalidCredentials \<or> r = Inl RateLimited"

definition login_events :: "login_attempt list \<Rightarrow> (string \<times> int) list" where
  "login_events as = map (\<lambda>a. (la_ip a, la_time a)) as"

lemma login_all_throttle:
  "list_all refused (login_all env rnd ua s as) \<Longrightarrow>
     map (\<lambda>r. r \<noteq> Inl RateLimited) (login_all env rnd ua s as)
       = allow_all (sv_limiter s) (login_events as)"
proof (induction as arbitrary: s)
  case (Cons a as)
  obtain r s' where l: "login env (la_time a) rnd (la_username a) (la_password a) ua (la_ip a) s = (r, s')"
    by fastforce
  with Cons.prems obtain e where r: "r = Inl e" "e = InvalidCredentials \<or> e = RateLimited"
    by (auto simp: refused_def)
  from login_refused [OF l [unfolded r(1)] r(2)] Cons l r(1) show ?case
    by (auto simp: login_events_def case_prod_beta Let_def)
qed (simp add: login_events_def)

text \<open>
  C19. Guessing is slow: in any sequence of refused logins, whatever names and passwords they try,
  all but the first \<open>limit\<close> attempts that one address makes within a window are turned away by
  the throttle, without a password having been looked at.
\<close>
theorem guesses_per_window_bounded:
  assumes "service_inv env s" and "ip \<noteq> []" and "live (sv_limiter s) ip t0 = None"
    and "list_all refused (login_all env rnd ua s as)"
    and "sorted (t0 # map la_time as)" and "\<forall>a \<in> set as. la_time a \<le> t0 + w_window (sv_limiter s)"
  shows "answers ip (login_events as) (map (\<lambda>r. r \<noteq> Inl RateLimited) (login_all env rnd ua s as))
    = replicate (min (events_on ip (login_events as)) (nat (w_limit (sv_limiter s)))) True
      @ replicate (events_on ip (login_events as) - nat (w_limit (sv_limiter s))) False"
proof -
  have times: "map snd (login_events as) = map la_time as" by (simp add: login_events_def)
  have "window_inv (sv_limiter s)" using assms(1) by (simp add: service_inv_def)
  moreover have "\<forall>(k, t) \<in> set (login_events as). t \<le> t0 + w_window (sv_limiter s)"
    using assms(6) by (auto simp: login_events_def)
  ultimately show ?thesis
    unfolding login_all_throttle [OF assms(4)] using assms(2,3,5)
    by (intro allow_all_fixed_window) (simp_all only: times simp_thms)
qed

definition sample_guesses :: "login_attempt list" where
  "sample_guesses = map (\<lambda>(t, p). \<lparr>la_time = t, la_username = ''ann'', la_password = p, la_ip = ''::1''\<rparr>)
     [(1, ''a''), (2, ''b''), (3, ''c''), (4, ''secret'')]"

theorem guesses_per_window_bounded_witness:
  "answers ''::1'' (login_events sample_guesses)
     (map (\<lambda>r. r \<noteq> Inl RateLimited) (login_all sample_env (Some ''r'') ''ua'' sample_service sample_guesses))
   = [True, True, False, False]"
proof -
  have "list_all (\<lambda>r. case r of Inl InvalidCredentials \<Rightarrow> True | Inl RateLimited \<Rightarrow> True | _ \<Rightarrow> False)
      (login_all sample_env (Some ''r'') ''ua'' sample_service sample_guesses)"
    by code_simp
  then have 1: "list_all refused (login_all sample_env (Some ''r'') ''ua'' sample_service sample_guesses)"
    by (rule list.pred_mono_strong) (auto simp: refused_def split: sum.splits auth_error.splits)
  have 2: "live (sv_limiter sample_service) ''::1'' 0 = None" by code_simp
  have 3: "w_window (sv_limiter sample_service) = minute" "w_limit (sv_limiter sample_service) = 2"
    by (simp_all add: sample_service_sel new_window_def minute_def second_def)
  show ?thesis
    using guesses_per_window_bounded [OF sample_service_inv _ 2 1]
    by (simp add: 3 sample_guesses_def login_events_def minute_def second_def numeral_2_eq_2)
qed

section \<open>The demonstration account\<close>

lemma first_not_allowed_None:
  "first_not_allowed allowed ps = None \<longleftrightarrow> (\<forall>p \<in> set ps. has allowed p)"
  by (induction ps) auto

lemma login_demo_Inr:
  assumes "login_demo env now rnd ua ip s = (Inr (token, ident'), s')"
  shows "\<exists>u ident s1. ao_demo_user (sv_opt s) \<noteq> []
    \<and> user_by_username (ae_coll env) (ao_demo_user (sv_opt s)) (sv_db s) = (Inr u, pop_fault (sv_db s))
    \<and> us_is_active u
    \<and> identity_for env u s1 = (Inr ident, pop_service s1)
    \<and> (ro_name (id_role ident) = RoleGuest \<or> ro_name (id_role ident) = RoleDemo)
    \<and> first_not_allowed (new_permission_set (demo_permissions (ao_demo_commands (sv_opt s))))
        (ps_list (id_permissions ident)) = None
    \<and> open_session env now rnd u ident ua ip (pop_service s1) = (Inr (token, ident'), s')"
proof -
  obtain ok lim where al: "allow (sv_limiter s) ip now = (ok, lim)" by fastforce
  from assms have n: "ao_demo_user (sv_opt s) \<noteq> []" by (auto simp: login_demo_def Let_def)
  from assms al n have ok: ok by (auto simp: login_demo_def Let_def split: if_splits)
  with assms al n obtain u d ident s2 where
    u: "user_by_username (ae_coll env) (ao_demo_user (sv_opt s)) (sv_db s) = (Inr u, d)" "us_is_active u" and
    i: "identity_for env u (s\<lparr>sv_limiter := lim, sv_db := d\<rparr>) = (Inr ident, s2)" and
    r: "ro_name (id_role ident) = RoleGuest \<or> ro_name (id_role ident) = RoleDemo" and
    f: "first_not_allowed (new_permission_set (demo_permissions (ao_demo_commands (sv_opt s))))
        (ps_list (id_permissions ident)) = None" and
    o: "open_session env now rnd u ident ua ip s2 = (Inr (token, ident'), s')"
    by (auto simp: login_demo_def Let_def guard_simps on_db_eq split: if_splits option.splits)
  have "d = pop_fault (sv_db s)" using user_by_username_Inr [OF u(1)] by simp
  with identity_for_Inr(1) [OF i] n u i r f o show ?thesis by blast
qed

text \<open>
  C6. The way in without a password never leads to a privileged account: a demonstration login
  that succeeds yields an identity that is neither unrestricted nor able to do anything in the
  catalogue beyond reading and the commands the configuration names, whatever the tables say.
  In particular it cannot send a notification, read the command log or manage users.
\<close>
theorem demo_login_bounded:
  assumes "login_demo env now rnd ua ip s = (Inr (token, ident), s')"
  shows "\<not> ps_all (id_permissions ident)
    \<and> (\<forall>p \<in> set all_permissions. can ident p \<longrightarrow>
         p \<in> set (demo_permissions (ao_demo_commands (sv_opt s))))
    \<and> \<not> can ident PermCmdNotification \<and> \<not> can ident PermAuditRead \<and> \<not> can ident PermUsersManage"
proof -
  let ?demo = "demo_permissions (ao_demo_commands (sv_opt s))"
  from login_demo_Inr [OF assms] obtain u ident0 s1 where
    f: "first_not_allowed (new_permission_set ?demo) (ps_list (id_permissions ident0)) = None" and
    o: "open_session env now rnd u ident0 ua ip (pop_service s1) = (Inr (token, ident), s')" by blast
  have "id_permissions ident = id_permissions ident0"
    using open_session_Inr [OF o] by auto
  with f have bound: "p \<in> set ?demo" if "p \<in> set all_permissions" "can ident p" for p
    using that has_demo_permissions [of p]
    by (auto simp: first_not_allowed_None set_ps_list can_def)
  have notin: "PermCmdNotification \<notin> set ?demo" "PermAuditRead \<notin> set ?demo" "PermUsersManage \<notin> set ?demo"
    by (auto simp: set_demo_permissions read_permissions_def perm_names demo_command_permission_def
        split: if_splits)
  have cat: "PermCmdNotification \<in> set all_permissions" "PermAuditRead \<in> set all_permissions"
    "PermUsersManage \<in> set all_permissions"
    by (simp_all add: all_permissions_def command_permissions_def)
  from notin cat bound have no: "\<not> can ident PermCmdNotification" "\<not> can ident PermAuditRead"
    "\<not> can ident PermUsersManage" by blast+
  then have "\<not> ps_all (id_permissions ident)" by (auto simp: can_def has_def)
  with no bound show ?thesis by blast
qed

theorem demo_login_bounded_witness:
  "\<exists>token ident s'. login_demo sample_env 0 (Some ''abc'') ''ua'' ''::1'' sample_service
      = (Inr (token, ident), s') \<and> \<not> can ident PermAuditRead"
proof -
  have "\<not> isl (fst (login_demo sample_env 0 (Some ''abc'') ''ua'' ''::1'' sample_service))" by code_simp
  then obtain token ident s' where
    "login_demo sample_env 0 (Some ''abc'') ''ua'' ''::1'' sample_service = (Inr (token, ident), s')"
    using not_isl_step by fastforce
  with demo_login_bounded [OF this] show ?thesis by blast
qed

end
