(* ===== verification/Interleaving.thy ===== *)
theory Interleaving
  imports AuthService
begin

text \<open>
  Requests that interleave inside the accounts' tables (\<^verbatim>\<open>internal/auth/service.go\<close>,
  \<^verbatim>\<open>internal/auth/bootstrap.go\<close>, \<^verbatim>\<open>cmd/seid/user.go\<close>). A goroutine holds no lock between two
  statements, and the account commands run in a process of their own: what is atomic is one
  statement of the database or one call of the throttle under its mutex. An operation is here the
  program of its atoms; run alone it is the operation of \<^theory_text>\<open>AuthService\<close>.
\<close>

section \<open>Programs of atoms\<close>

datatype ('s, 'r) prog = Ret 'r | Act "'s \<Rightarrow> ('s, 'r) prog \<times> 's"

text \<open>A program without interruption, one after another, and a single atom.\<close>

primrec run_alone :: "('s, 'r) prog \<Rightarrow> 's \<Rightarrow> 'r \<times> 's" where
  "run_alone (Ret x) = Pair x"
| "run_alone (Act f) = (\<lambda>s. case map_prod run_alone id (f s) of (g, s') \<Rightarrow> g s')"

primrec then_do :: "('s, 'r) prog \<Rightarrow> ('r \<Rightarrow> ('s, 'q) prog) \<Rightarrow> ('s, 'q) prog" where
  "then_do (Ret x) k = k x"
| "then_do (Act f) k = Act (\<lambda>s. map_prod (\<lambda>p. then_do p k) id (f s))"

definition atom :: "('s \<Rightarrow> 'r \<times> 's) \<Rightarrow> ('s, 'r) prog" where
  "atom m = Act (\<lambda>s. case m s of (r, s') \<Rightarrow> (Ret r, s'))"

text \<open>A call whose error is returned.\<close>

definition bind_prog ::
  "('s, 'e + 'a) prog \<Rightarrow> ('a \<Rightarrow> ('s, 'e + 'b) prog) \<Rightarrow> ('s, 'e + 'b) prog" where
  "bind_prog p k = then_do p (\<lambda>r. case r of Inl e \<Rightarrow> Ret (Inl e) | Inr x \<Rightarrow> k x)"

declare run_alone.simps [simp del]

lemma run_Ret [simp]: "run_alone (Ret x) s = (x, s)"
  by (simp add: run_alone.simps)

lemma run_Act: "run_alone (Act f) s = (case f s of (p, s') \<Rightarrow> run_alone p s')"
  by (simp add: run_alone.simps split: prod.splits)

lemma run_then_do_at: "run_alone (then_do p k) s = attempt (run_alone p) (\<lambda>x. run_alone (k x)) s"
proof (induction p arbitrary: s)
  case (Act f)
  obtain p s' where f: "f s = (p, s')" by (cases "f s")
  have "run_alone (then_do p k) s' = attempt (run_alone p) (\<lambda>x. run_alone (k x)) s'"
    by (rule Act [OF rangeI [of f s]]) (simp add: f)
  then show ?case by (simp add: run_Act f attempt_def)
qed (simp add: attempt_def)

lemma run_then_do [simp]: "run_alone (then_do p k) = attempt (run_alone p) (\<lambda>x. run_alone (k x))"
  by (rule ext) (rule run_then_do_at)

lemma run_atom [simp]: "run_alone (atom m) = m"
  by (auto simp: atom_def run_Act fun_eq_iff split: prod.splits)

lemma run_bind_prog [simp]: "run_alone (bind_prog p k) = bind_step (run_alone p) (\<lambda>x. run_alone (k x))"
  by (auto simp: bind_prog_def bind_step_def fun_eq_iff attempt_def split: prod.splits sum.splits)

section \<open>What every atom keeps\<close>

primrec atoms_keep :: "('s \<Rightarrow> bool) \<Rightarrow> ('s, 'r) prog \<Rightarrow> bool" where
  "atoms_keep P (Ret x) \<longleftrightarrow> True"
| "atoms_keep P (Act f) \<longleftrightarrow> (\<forall>s. (P s \<longrightarrow> P (snd (f s))) \<and> fst (map_prod (atoms_keep P) id (f s)))"

lemma atoms_keep_atom [keeps_intros]: "keeps P m \<Longrightarrow> atoms_keep P (atom m)"
  by (auto simp: atom_def keeps_def split: prod.splits)

lemma atoms_keep_Ret [keeps_intros]: "atoms_keep P (Ret x)"
  by simp

lemma atoms_keep_then [keeps_intros]:
  "atoms_keep P p \<Longrightarrow> (\<And>x. atoms_keep P (k x)) \<Longrightarrow> atoms_keep P (then_do p k)"
proof (induction p)
  case (Act f)
  have "atoms_keep P (then_do (fst (f s)) k)" for s
    using Act.prems by (intro Act.IH [OF rangeI [of f s]]) (simp_all add: fsts.intros)
  with Act.prems(1) show ?case by simp
qed simp

lemma atoms_keep_bind [keeps_intros]:
  "atoms_keep P p \<Longrightarrow> (\<And>x. atoms_keep P (k x)) \<Longrightarrow> atoms_keep P (bind_prog p k)"
  unfolding bind_prog_def by (intro atoms_keep_then) (auto split: sum.splits)

section \<open>The operations as programs\<close>

text \<open>
  The text of an operation with its calls as atoms. Every reading of the clock is one of its own,
  \<open>clk\<close> in the order of the code: between two of them other requests take their turns.
\<close>

definition admit_login :: "string \<Rightarrow> int \<Rightarrow> unit service_op" where
  "admit_login ip now s =
     (let (admitted, lim) = allow (sv_limiter s) ip now
      in (if \<not> admitted then Inl RateLimited else Inr (), s\<lparr>sv_limiter := lim\<rparr>))"

definition identity_prog :: "auth_env \<Rightarrow> user \<Rightarrow> (service, auth_error + identity) prog" where
  "identity_prog env u =
     bind_prog (atom (on_db (list_roles (ae_coll env)))) (\<lambda>roles.
       case find_role (us_role_id u) roles of
         Some r \<Rightarrow> Ret (Inr \<lparr>id_user = u, id_role = r,
                             id_permissions = new_permission_set (ro_permissions r),
                             id_session_id = []\<rparr>)
       | None \<Rightarrow> Ret (Inl (MissingRole (us_username u) (us_role_id u))))"

definition open_session_prog ::
  "auth_env \<Rightarrow> duration \<Rightarrow> (nat \<Rightarrow> int) \<Rightarrow> string option \<Rightarrow> user \<Rightarrow> identity \<Rightarrow> string \<Rightarrow> string
     \<Rightarrow> (service, auth_error + (string \<times> identity)) prog" where
  "open_session_prog env ttl clk rnd u ident user_agent ip =
     (case new_token env rnd of
        Inl e \<Rightarrow> Ret (Inl e)
      | Inr (token, h) \<Rightarrow>
          bind_prog (atom (on_db (create_session
              \<lparr>sn_id = h, sn_user_id = us_id u, sn_created_at = unix (clk 1),
               sn_expires_at = unix (clk 1 + ttl)\<rparr> user_agent ip))) (\<lambda>_.
          then_do (atom (on_db (touch_login (unix (clk 2)) (us_id u)))) (\<lambda>_.
            Ret (Inr (token, ident\<lparr>id_session_id := h\<rparr>)))))"

definition login_prog ::
  "auth_env \<Rightarrow> duration \<Rightarrow> (nat \<Rightarrow> int) \<Rightarrow> string option \<Rightarrow> string \<Rightarrow> string \<Rightarrow> string \<Rightarrow> string
     \<Rightarrow> (service, auth_error + (string \<times> identity)) prog" where
  "login_prog env ttl clk rnd username password user_agent ip =
     bind_prog (atom (admit_login ip (clk 0))) (\<lambda>_.
       then_do (atom (on_db (user_by_username (ae_coll env) (trim_space username)))) (\<lambda>r.
         case r of
           Inl e \<Rightarrow> Ret (Inl (if is_not_found e then InvalidCredentials else e))
         | Inr u \<Rightarrow>
             (case verify_password (ae_idkey env) (ae_version env) password (us_password_hash u) of
                Inl _ \<Rightarrow> Ret (Inl InvalidCredentials)
              | Inr ok \<Rightarrow>
                  if \<not> ok \<or> \<not> us_is_active u then Ret (Inl InvalidCredentials)
                  else
                    bind_prog (atom (reset_limiter ip)) (\<lambda>_.
                    bind_prog (identity_prog env u) (\<lambda>ident.
                      open_session_prog env ttl clk rnd u ident user_agent ip)))))"

definition login_demo_prog ::
  "auth_env \<Rightarrow> auth_options \<Rightarrow> (nat \<Rightarrow> int) \<Rightarrow> string option \<Rightarrow> string \<Rightarrow> string
     \<Rightarrow> (service, auth_error + (string \<times> identity)) prog" where
  "login_demo_prog env opt clk rnd user_agent ip =
     (if ao_demo_user opt = [] then Ret (Inl InvalidCredentials)
      else
        bind_prog (atom (admit_login ip (clk 0))) (\<lambda>_.
          then_do (atom (on_db (user_by_username (ae_coll env) (ao_demo_user opt)))) (\<lambda>r.
            case r of
              Inl e \<Rightarrow> Ret (Inl (if is_not_found e then InvalidCredentials else e))
            | Inr u \<Rightarrow>
                if \<not> us_is_active u then Ret (Inl InvalidCredentials)
                else bind_prog (identity_prog env u) (\<lambda>ident.
                  if ro_name (id_role ident) \<noteq> RoleGuest \<and> ro_name (id_role ident) \<noteq> RoleDemo
                  then Ret (Inl (DemoWrongRole (us_username u) (ro_name (id_role ident))))
                  else
                    case first_not_allowed (new_permission_set (demo_permissions (ao_demo_commands opt)))
                           (ps_list (id_permissions ident)) of
                      Some held \<Rightarrow> Ret (Inl (DemoHoldsMore (us_username u) held))
                    | None \<Rightarrow> open_session_prog env (ao_session_ttl opt) clk rnd u ident user_agent ip))))"

definition authenticate_prog ::
  "auth_env \<Rightarrow> duration \<Rightarrow> (nat \<Rightarrow> int) \<Rightarrow> string \<Rightarrow> (service, auth_error + identity) prog" where
  "authenticate_prog env ttl clk token =
     (if token = [] then Ret (Inl NotFound)
      else
        let h = ae_hash env token
        in bind_prog (atom (on_db (session_by_id (unix (clk 0)) h))) (\<lambda>sess.
           bind_prog (atom (on_db (user_by_id (sn_user_id sess)))) (\<lambda>u.
             if \<not> us_is_active u then then_do (atom (on_db (delete_session h))) (\<lambda>_. Ret (Inl NotFound))
             else
               bind_prog (identity_prog env u) (\<lambda>ident0.
                 let ident = ident0\<lparr>id_session_id := h\<rparr>;
                     halfway = wrap64 (sn_created_at sess + go_div (duration_seconds ttl) 2)
                 in if unix (clk 1) > halfway
                    then then_do (atom (on_db (extend_session h (unix (clk 2 + ttl))))) (\<lambda>_. Ret (Inr ident))
                    else Ret (Inr ident)))))"

text \<open>
  The statements of the account commands, with the hash of a new password as an argument: flags,
  prompt and messages, which touch no table, are in \<^theory_text>\<open>Seid\<close>.
\<close>

definition change_password_prog ::
  "auth_env \<Rightarrow> int64 \<Rightarrow> string \<Rightarrow> string \<Rightarrow> (service, auth_error + unit) prog" where
  "change_password_prog env now username h =
     bind_prog (atom (on_db (user_by_username (ae_coll env) username))) (\<lambda>u.
     bind_prog (atom (on_db (set_password now (us_id u) h))) (\<lambda>_.
       atom (on_db (delete_user_sessions (us_id u)))))"

definition change_role_prog ::
  "auth_env \<Rightarrow> int64 \<Rightarrow> string \<Rightarrow> string \<Rightarrow> (service, auth_error + unit) prog" where
  "change_role_prog env now username role_name =
     bind_prog (atom (on_db (user_by_username (ae_coll env) username))) (\<lambda>u.
     bind_prog (atom (on_db (role_by_name (ae_coll env) role_name))) (\<lambda>r.
       atom (on_db (set_role now (us_id u) (ro_id r)))))"

definition create_account_prog ::
  "auth_env \<Rightarrow> int64 \<Rightarrow> user \<Rightarrow> string \<Rightarrow> (service, auth_error + unit) prog" where
  "create_account_prog env now u role_name =
     bind_prog (atom (on_db (role_by_name (ae_coll env) role_name))) (\<lambda>r.
     bind_prog (atom (on_db (create_user (ae_coll env) now (u\<lparr>us_role_id := ro_id r\<rparr>)))) (\<lambda>_.
       Ret (Inr ())))"

section \<open>Run alone they are the operations\<close>

text \<open>Two steps that agree on the states with a property, which the steps before them keep.\<close>

definition agree :: "('s \<Rightarrow> bool) \<Rightarrow> ('s \<Rightarrow> 'r) \<Rightarrow> ('s \<Rightarrow> 'r) \<Rightarrow> bool" where
  "agree P m m' \<longleftrightarrow> (\<forall>s. P s \<longrightarrow> m s = m' s)"

named_theorems agree_intros \<open>introduction rules for steps that agree\<close>

lemma agree_refl [agree_intros]: "agree P m m"
  by (simp add: agree_def)

lemma agree_attempt [agree_intros]:
  "keeps P m \<Longrightarrow> (\<And>r. agree P (f r) (g r)) \<Longrightarrow> agree P (attempt m f) (attempt m g)"
  by (auto simp: agree_def keeps_def attempt_def split: prod.splits)

lemma agree_bind [agree_intros]:
  "keeps P m \<Longrightarrow> (\<And>x. agree P (f x) (g x)) \<Longrightarrow> agree P (bind_step m f) (bind_step m g)"
  unfolding bind_step_def by (intro agree_attempt) (auto split: sum.splits intro: agree_refl)

lemma agree_cases [agree_intros]:
  "agree P m m' \<Longrightarrow> agree P n n' \<Longrightarrow> agree P (if b then m else n) (if b then m' else n')"
  "agree P m m' \<Longrightarrow> (\<And>x. agree P (f x) (g x)) \<Longrightarrow>
     agree P (case r of None \<Rightarrow> m | Some x \<Rightarrow> f x) (case r of None \<Rightarrow> m' | Some x \<Rightarrow> g x)"
  "(\<And>e. agree P (h e) (k e)) \<Longrightarrow> (\<And>x. agree P (f' x) (g' x)) \<Longrightarrow>
     agree P (case q of Inl e \<Rightarrow> h e | Inr x \<Rightarrow> f' x) (case q of Inl e \<Rightarrow> k e | Inr x \<Rightarrow> g' x)"
  by (auto split: option.splits sum.splits)

lemmas branch_congs = option.case_cong sum.case_cong if_cong

lemma run_cases [simp]:
  "run_alone (if b then p else q) = (if b then run_alone p else run_alone q)"
  "run_alone (case r of None \<Rightarrow> p | Some x \<Rightarrow> f x) = (case r of None \<Rightarrow> run_alone p | Some x \<Rightarrow> run_alone (f x))"
  "run_alone (case t of Inl e \<Rightarrow> g e | Inr x \<Rightarrow> h x) = (case t of Inl e \<Rightarrow> run_alone (g e) | Inr x \<Rightarrow> run_alone (h x))"
  by (auto split: option.splits sum.splits)

lemma run_results [simp]: "run_alone (Ret (Inr x)) = return x" "run_alone (Ret (Inl e)) = fail e"
  by (simp_all add: fun_eq_iff)

text \<open>The options do not change.\<close>

abbreviation with_options :: "auth_options \<Rightarrow> service \<Rightarrow> bool" where
  "with_options opt s \<equiv> sv_opt s = opt"

lemma options_on_db [keeps_intros]: "keeps (with_options opt) (on_db m)"
  by (auto simp: keeps_def on_db_def split: prod.splits)

lemma options_limiter [keeps_intros]:
  "keeps (with_options opt) (admit_login ip now)" "keeps (with_options opt) (reset_limiter ip)"
  by (auto simp: keeps_def admit_login_def reset_limiter_def split: prod.splits)

lemma options_identity_for [keeps_intros]: "keeps (with_options opt) (identity_for env u)"
  unfolding identity_for_def by (intro keeps_intros)

lemma run_identity [simp]: "run_alone (identity_prog env u) = identity_for env u"
  by (simp add: identity_prog_def identity_for_def cong: branch_congs)

lemma run_open_session [agree_intros]:
  "ttl = ao_session_ttl opt \<Longrightarrow> agree (with_options opt)
     (run_alone (open_session_prog env ttl (\<lambda>_. now) rnd u ident ua ip)) (open_session env now rnd u ident ua ip)"
  by (auto simp: agree_def open_session_prog_def open_session_def Let_def bind_step_def attempt_def
      split: prod.splits sum.splits)

text \<open>The call of the throttle as a step of its own.\<close>

lemma login_admits:
  "login env now rnd name pw ua ip = bind_step (admit_login ip now) (\<lambda>_.
     attempt (on_db (user_by_username (ae_coll env) (trim_space name))) (\<lambda>r.
       case r of
         Inl e \<Rightarrow> fail (if is_not_found e then InvalidCredentials else e)
       | Inr u \<Rightarrow> check_login env now rnd pw ua ip u))"
  by (auto simp: fun_eq_iff login_def admit_login_def Let_def bind_step_def attempt_def split: prod.splits)

lemma login_demo_admits:
  "agree (with_options opt) (login_demo env now rnd ua ip)
     (if ao_demo_user opt = [] then fail InvalidCredentials
      else bind_step (admit_login ip now) (\<lambda>_.
        attempt (on_db (user_by_username (ae_coll env) (ao_demo_user opt))) (\<lambda>r.
          case r of
            Inl e \<Rightarrow> fail (if is_not_found e then InvalidCredentials else e)
          | Inr u \<Rightarrow>
              if \<not> us_is_active u then fail InvalidCredentials
              else bind_step (identity_for env u) (\<lambda>ident.
                if ro_name (id_role ident) \<noteq> RoleGuest \<and> ro_name (id_role ident) \<noteq> RoleDemo
                then fail (DemoWrongRole (us_username u) (ro_name (id_role ident)))
                else case first_not_allowed (new_permission_set (demo_permissions (ao_demo_commands opt)))
                       (ps_list (id_permissions ident)) of
                  Some held \<Rightarrow> fail (DemoHoldsMore (us_username u) held)
                | None \<Rightarrow> open_session env now rnd u ident ua ip))))"
  unfolding agree_def login_demo_def admit_login_def Let_def bind_step_def attempt_def
  by (auto split: prod.splits)

lemma agreeD: "agree P m m' \<Longrightarrow> P s \<Longrightarrow> m s = m' s"
  by (simp add: agree_def)

lemma agree_trans: "agree P m m' \<Longrightarrow> agree P n m' \<Longrightarrow> agree P m n"
  by (simp add: agree_def)

lemma run_login:
  "agree (with_options opt) (run_alone (login_prog env (ao_session_ttl opt) (\<lambda>_. now) rnd name pw ua ip))
     (login env now rnd name pw ua ip)"
  unfolding login_admits check_login_def login_prog_def
  by (simp cong: branch_congs) (intro agree_intros keeps_intros refl)

lemma run_login_demo:
  "agree (with_options opt) (run_alone (login_demo_prog env opt (\<lambda>_. now) rnd ua ip)) (login_demo env now rnd ua ip)"
  unfolding login_demo_prog_def
  by (rule agree_trans [OF _ login_demo_admits], simp cong: branch_congs split del: if_split) (intro agree_intros keeps_intros refl)

text \<open>
  The interleaved model is the same program: without interruption, and with one reading of the
  clock for all, each of its programs is the operation of the service.
\<close>
theorem programs_are_operations:
  shows "run_alone (login_prog env (ao_session_ttl (sv_opt s)) (\<lambda>_. now) rnd name pw ua ip) s
      = login env now rnd name pw ua ip s"
    and "run_alone (login_demo_prog env (sv_opt s) (\<lambda>_. now) rnd ua ip) s = login_demo env now rnd ua ip s"
    and "run_alone (authenticate_prog env (ao_session_ttl (sv_opt s)) (\<lambda>_. now) token) s
      = authenticate env now token s"
  by (rule agreeD [OF run_login refl], rule agreeD [OF run_login_demo refl])
    (simp add: authenticate_prog_def authenticate_def Let_def cong: branch_congs)

section \<open>Requests in flight\<close>

text \<open>
  The requests of the service, with what each takes from the clock and the random source, and the
  answers they end with.
\<close>

datatype auth_request =
    LogIn "nat \<Rightarrow> int" "string option" string string string string
  | LogInDemo "nat \<Rightarrow> int" "string option" string string
  | Authenticate "nat \<Rightarrow> int" string
  | LogOut string
  | Prune int
  | ChangePassword int64 string string
  | ChangeRole int64 string string
  | CreateAccount int64 user string

datatype auth_outcome = SignedIn string identity | Identified identity | Finished

type_synonym auth_prog = "(service, auth_error + auth_outcome) prog"

definition answering :: "('a \<Rightarrow> auth_outcome) \<Rightarrow> (service, auth_error + 'a) prog \<Rightarrow> auth_prog" where
  "answering f p = bind_prog p (\<lambda>x. Ret (Inr (f x)))"

fun request_prog :: "auth_env \<Rightarrow> auth_options \<Rightarrow> auth_request \<Rightarrow> auth_prog" where
  "request_prog env opt (LogIn clk rnd name pw ua ip) =
     answering (\<lambda>(t, i). SignedIn t i) (login_prog env (ao_session_ttl opt) clk rnd name pw ua ip)"
| "request_prog env opt (LogInDemo clk rnd ua ip) =
     answering (\<lambda>(t, i). SignedIn t i) (login_demo_prog env opt clk rnd ua ip)"
| "request_prog env opt (Authenticate clk token) =
     answering Identified (authenticate_prog env (ao_session_ttl opt) clk token)"
| "request_prog env opt (LogOut token) = answering (\<lambda>_. Finished) (atom (logout env token))"
| "request_prog env opt (Prune now) =
     answering (\<lambda>_. Finished) (atom (on_db (delete_expired_sessions (unix now))))"
| "request_prog env opt (ChangePassword now name h) =
     answering (\<lambda>_. Finished) (change_password_prog env now name h)"
| "request_prog env opt (ChangeRole now name role_name) =
     answering (\<lambda>_. Finished) (change_role_prog env now name role_name)"
| "request_prog env opt (CreateAccount now u role_name) =
     answering (\<lambda>_. Finished) (create_account_prog env now u role_name)"

text \<open>
  A service and the requests in flight. At any moment one more request can arrive, of those
  allowed, or any of the ones in flight moves by one atom.
\<close>

type_synonym in_flight = "service \<times> auth_prog list"

inductive interleaved ::
  "auth_env \<Rightarrow> auth_options \<Rightarrow> (auth_request \<Rightarrow> bool) \<Rightarrow> in_flight \<Rightarrow> in_flight \<Rightarrow> bool"
  for env opt allowed c where
  start: "interleaved env opt allowed c c"
| arrive: "interleaved env opt allowed c (s, ps) \<Longrightarrow> allowed q \<Longrightarrow>
    interleaved env opt allowed c (s, ps @ [request_prog env opt q])"
| move: "interleaved env opt allowed c (s, ps) \<Longrightarrow> i < length ps \<Longrightarrow> ps ! i = Act f \<Longrightarrow> f s = (p, s') \<Longrightarrow>
    interleaved env opt allowed c (s', ps[i := p])"

text \<open>One schedule: which request moves next.\<close>

definition move_one :: "nat \<Rightarrow> in_flight \<Rightarrow> in_flight" where
  "move_one i c =
     (case c of (s, ps) \<Rightarrow>
        if i < length ps then
          (case ps ! i of Ret r \<Rightarrow> (s, ps) | Act f \<Rightarrow> (case f s of (p, s') \<Rightarrow> (s', ps[i := p])))
        else (s, ps))"

definition run_schedule :: "nat list \<Rightarrow> in_flight \<Rightarrow> in_flight" where
  "run_schedule is c = fold move_one is c"

lemma move_one_interleaved:
  "interleaved env opt allowed c d \<Longrightarrow> interleaved env opt allowed c (move_one i d)"
  by (cases d) (auto simp: move_one_def split: prog.splits prod.splits intro: interleaved.move)

lemma schedule_interleaved:
  "interleaved env opt allowed c d \<Longrightarrow> interleaved env opt allowed c (run_schedule is d)"
  unfolding run_schedule_def by (induction "is" arbitrary: d) (simp_all add: move_one_interleaved)

lemma arrivals_interleaved:
  "interleaved env opt allowed c (s, ps) \<Longrightarrow> list_all allowed qs \<Longrightarrow>
     interleaved env opt allowed c (s, ps @ map (request_prog env opt) qs)"
proof (induction qs arbitrary: ps)
  case (Cons q qs)
  then show ?case using interleaved.arrive [of env opt allowed c s ps q] Cons.IH [of "ps @ [request_prog env opt q]"]
    by simp
qed simp

lemma flight_interleaved:
  "interleaved env opt (\<lambda>q. q \<in> set qs) (s, []) (run_schedule is (s, map (request_prog env opt) qs))"
  using arrivals_interleaved [OF interleaved.start, of "\<lambda>q. q \<in> set qs" qs env opt s "[]"]
  by (intro schedule_interleaved) (simp add: list_all_iff)

text \<open>What the atoms of every allowed request keep, those of every request in flight keep, and so it holds throughout.\<close>

lemma in_flight_keep:
  assumes "interleaved env opt allowed c d" and "list_all (atoms_keep P) (snd c)"
    and "\<And>q. allowed q \<Longrightarrow> atoms_keep P (request_prog env opt q)"
  shows "list_all (atoms_keep P) (snd d)"
  using assms(1)
proof induction
  case start
  show ?case using assms(2) by simp
next
  case (arrive s ps q)
  then show ?case using assms(3) by simp
next
  case (move s ps i f p s')
  then have "atoms_keep P (Act f)" by (metis list_all_length snd_conv)
  then have "fst (map_prod (atoms_keep P) id (f s))" by simp
  with move(4) have "atoms_keep P p" by simp
  with move.IH show ?case by (auto simp: list_all_iff dest!: set_update_subset_insert [THEN subsetD])
qed

lemma interleaved_keeps:
  assumes "interleaved env opt allowed c d" and "P (fst c)" and "list_all (atoms_keep P) (snd c)"
    and "\<And>q. allowed q \<Longrightarrow> atoms_keep P (request_prog env opt q)"
  shows "P (fst d)"
  using assms(1)
proof induction
  case start
  show ?case using assms(2) by simp
next
  case (move s ps i f p s')
  have "atoms_keep P (Act f)"
    using in_flight_keep [OF move(1) assms(3,4)] move(2,3) by (metis list_all_length snd_conv)
  then have "P s \<longrightarrow> P (snd (f s))" by simp
  with move(4) move.IH show ?case by simp
qed simp

section \<open>The tables under every interleaving\<close>

lemma atoms_keep_option [keeps_intros]:
  "atoms_keep P p \<Longrightarrow> (\<And>x. atoms_keep P (f x)) \<Longrightarrow> atoms_keep P (case r of None \<Rightarrow> p | Some x \<Rightarrow> f x)"
  by (cases r) auto

lemma atoms_keep_sum [keeps_intros]:
  "(\<And>e. atoms_keep P (f e)) \<Longrightarrow> (\<And>x. atoms_keep P (g x)) \<Longrightarrow>
     atoms_keep P (case r of Inl e \<Rightarrow> f e | Inr x \<Rightarrow> g x)"
  by (cases r) auto

lemma atoms_keep_if [keeps_intros]:
  "atoms_keep P p \<Longrightarrow> atoms_keep P q \<Longrightarrow> atoms_keep P (if b then p else q)"
  by simp

lemma atoms_keep_pair [keeps_intros]:
  "(\<And>x y. atoms_keep P (f x y)) \<Longrightarrow> atoms_keep P (case r of (x, y) \<Rightarrow> f x y)"
  by (cases r) auto

text \<open>A login whose random token has the key \<open>h\<close>.\<close>

fun mints :: "auth_env \<Rightarrow> string \<Rightarrow> auth_request \<Rightarrow> bool" where
  "mints env h (LogIn clk rnd name pw ua ip) = (\<exists>t. new_token env rnd = Inr (t, h))"
| "mints env h (LogInDemo clk rnd ua ip) = (\<exists>t. new_token env rnd = Inr (t, h))"
| "mints env h _ = False"

text \<open>
  What a property of the service has to be kept by, atom by atom, to hold throughout: the calls of
  the throttle, the reads, the writes to accounts, and the writes to sessions, where a session is
  created only under the keys of \<open>may_mint\<close>.
\<close>

locale atom_invariant =
  fixes env :: auth_env and P :: "service \<Rightarrow> bool" and may_mint :: "string \<Rightarrow> bool"
  assumes throttle_calls: "keeps P (admit_login ip now)" "keeps P (reset_limiter ip)"
    and reads: "keeps P (on_db (user_by_username (ae_coll env) name))" "keeps P (on_db (user_by_id i))"
      "keeps P (on_db (list_roles (ae_coll env)))" "keeps P (on_db (role_by_name (ae_coll env) name))"
      "keeps P (on_db (session_by_id t k))"
    and accounts: "keeps P (on_db (touch_login t i))" "keeps P (on_db (set_password t i pw))"
      "keeps P (on_db (set_role t i i'))" "keeps P (on_db (create_user (ae_coll env) t u))"
    and ends: "keeps P (on_db (extend_session k t))" "keeps P (on_db (delete_session k))"
      "keeps P (on_db (delete_user_sessions i))" "keeps P (on_db (delete_expired_sessions t))"
    and opens: "may_mint (sn_id x) \<Longrightarrow> keeps P (on_db (create_session x ua ip))"
begin

lemma keeps_identity_prog: "atoms_keep P (identity_prog env u)"
  unfolding identity_prog_def by (intro keeps_intros reads)

lemma keeps_open_session_prog:
  assumes "\<And>t h. new_token env rnd = Inr (t, h) \<Longrightarrow> may_mint h"
  shows "atoms_keep P (open_session_prog env ttl clk rnd u ident ua ip)"
proof (cases "new_token env rnd")
  case (Inr th)
  obtain t h where th: "th = (t, h)" by (cases th)
  have "keeps P (on_db (create_session
      \<lparr>sn_id = h, sn_user_id = us_id u, sn_created_at = c, sn_expires_at = e\<rparr> ua ip))" for c e
    using assms [of t h] Inr th by (intro opens) simp
  then have "atoms_keep P (bind_prog (atom (on_db (create_session
      \<lparr>sn_id = h, sn_user_id = us_id u, sn_created_at = unix (clk 1), sn_expires_at = unix (clk 1 + ttl)\<rparr> ua ip)))
    (\<lambda>_. then_do (atom (on_db (touch_login (unix (clk 2)) (us_id u))))
      (\<lambda>_. Ret (Inr (t, ident\<lparr>id_session_id := h\<rparr>)))))"
    by (intro keeps_intros accounts)
  with Inr th show ?thesis by (simp add: open_session_prog_def)
qed (simp add: open_session_prog_def)

lemma keeps_answering: "atoms_keep P p \<Longrightarrow> atoms_keep P (answering f p)"
  unfolding answering_def by (intro keeps_intros)

lemma keeps_logout_atom: "keeps P (logout env token)"
  using ends(2) [of "ae_hash env token"] by (auto simp: keeps_def logout_def)

lemma keeps_requests:
  assumes "\<And>h. mints env h q \<Longrightarrow> may_mint h"
  shows "atoms_keep P (request_prog env opt q)"
proof (cases q)
  case (LogIn clk rnd name pw ua ip)
  then have "atoms_keep P (open_session_prog env ttl clk rnd u ident ua ip)" for ttl u ident
    using assms by (intro keeps_open_session_prog) auto
  then show ?thesis unfolding LogIn request_prog.simps login_prog_def
    by (intro keeps_answering keeps_intros keeps_identity_prog throttle_calls reads)
next
  case (LogInDemo clk rnd ua ip)
  then have "atoms_keep P (open_session_prog env ttl clk rnd u ident ua ip)" for ttl u ident
    using assms by (intro keeps_open_session_prog) auto
  then show ?thesis unfolding LogInDemo request_prog.simps login_demo_prog_def
    by (intro keeps_answering keeps_intros keeps_identity_prog throttle_calls reads)
next
  case (Authenticate clk token)
  show ?thesis unfolding Authenticate request_prog.simps authenticate_prog_def Let_def
    by (intro keeps_answering keeps_intros keeps_identity_prog reads ends)
qed (simp_all only: request_prog.simps change_password_prog_def change_role_prog_def create_account_prog_def,
    (intro keeps_answering keeps_intros keeps_logout_atom reads accounts ends)+)

lemma keeps_interleaving:
  assumes "interleaved env opt allowed c d" and "P (fst c)" and "list_all (atoms_keep P) (snd c)"
    and "\<And>q h. allowed q \<Longrightarrow> mints env h q \<Longrightarrow> may_mint h"
  shows "P (fst d)"
  using assms(1-3) by (rule interleaved_keeps) (blast intro: keeps_requests assms(4))

lemma keeps_in_flight:
  assumes "interleaved env opt allowed (s, []) (s', ps)"
    and "\<And>q h. allowed q \<Longrightarrow> mints env h q \<Longrightarrow> may_mint h"
  shows "list_all (atoms_keep P) ps"
  using in_flight_keep [OF assms(1), of P] by (auto intro: keeps_requests assms(2))

end

text \<open>The invariant of the service is one such property.\<close>

lemma keeps_admit_login: "keeps (service_inv env) (admit_login ip now)"
  using service_inv_limiter [of env _ ip now]
  by (auto simp: keeps_def admit_login_def case_prod_beta)

interpretation tables: atom_invariant env "service_inv env" "\<lambda>_. True" for env
  by unfold_locales (intro keeps_intros keeps_admit_login)+


section \<open>A session that was ended stays ended\<close>

definition ended :: "auth_env \<Rightarrow> string \<Rightarrow> service \<Rightarrow> bool" where
  "ended env h s \<longleftrightarrow> service_inv env s \<and> sessions_view (sv_db s) h = None"

text \<open>A step on the tables that keeps their invariant and does not bring \<open>h\<close> back.\<close>

lemma ended_on_db:
  assumes "keeps (db_inv (ae_coll env)) m"
    and "\<And>d r d'. db_inv (ae_coll env) d \<Longrightarrow> m d = (r, d') \<Longrightarrow> sessions_view d h = None \<Longrightarrow> sessions_view d' h = None"
  shows "keeps (ended env h) (on_db m)"
proof (rule keepsI)
  fix s assume e: "ended env h s"
  obtain r d' where m: "m (sv_db s) = (r, d')" by fastforce
  have "service_inv env (snd (on_db m s))"
    using keeps_on_db [OF assms(1)] e by (simp add: keeps_def ended_def)
  with m e assms(2) [OF _ m] show "ended env h (snd (on_db m s))"
    by (simp add: ended_def on_db_def service_inv_def)
qed

text \<open>Statements that leave the sessions alone.\<close>

lemma leave_sessions:
  "db_sessions (snd (touch_login t i d)) = db_sessions d"
  "db_sessions (snd (set_password t i pw d)) = db_sessions d"
  "db_sessions (snd (set_role t i i' d)) = db_sessions d"
  "db_sessions (snd (create_user coll t u d)) = db_sessions d"
  "db_sessions (snd (user_by_username coll n d)) = db_sessions d"
  "db_sessions (snd (user_by_id i d)) = db_sessions d"
  "db_sessions (snd (role_by_name coll n d)) = db_sessions d"
  "db_sessions (snd (list_roles coll d)) = db_sessions d"
  "db_sessions (snd (session_by_id t k d)) = db_sessions d"
  by (auto simp: touch_login_def set_password_def set_role_def create_user_def affect_one_def query_state
      update_users_def statement_eq Let_def split: prod.splits)

lemma same_sessions_ended:
  assumes "keeps (db_inv (ae_coll env)) m" and "\<And>d. db_sessions (snd (m d)) = db_sessions d"
  shows "keeps (ended env h) (on_db m)"
  using assms(1) by (rule ended_on_db) (metis assms(2) sessions_view_def snd_conv)

lemma deletes_keep_ended:
  "sessions_view d h = None \<Longrightarrow> sessions_view (delete_sessions Q d) h = None"
  by (auto simp: sessions_view_def delete_sessions_def find_None_set)

lemma ended_delete:
  "sessions_view d h = None \<Longrightarrow> delete_session k d = (r, d') \<Longrightarrow> sessions_view d' h = None"
  "sessions_view d h = None \<Longrightarrow> delete_user_sessions i d = (r', d') \<Longrightarrow> sessions_view d' h = None"
  "sessions_view d h = None \<Longrightarrow> delete_expired_sessions t d = (r'', d') \<Longrightarrow> sessions_view d' h = None"
  by (auto simp: delete_session_def delete_user_sessions_def delete_expired_sessions_def statement_eq
      deletes_keep_ended split: if_splits)

lemma ended_extend:
  assumes "db_inv coll d" "extend_session k t d = (r, d')" "sessions_view d h = None"
  shows "sessions_view d' h = None"
  using ss.extend_ok [OF assms(1)] ss.failed_view [OF assms(1)] assms(2,3)
  by (cases r) (fastforce simp: unit_eq)+

lemma ended_create:
  assumes "db_inv coll d" "create_session x ua ip d = (r, d')" "sessions_view d h = None" "sn_id x \<noteq> h"
  shows "sessions_view d' h = None"
  using ss.create_ok [OF assms(1)] ss.failed_view [OF assms(1)] assms(2-4)
  by (cases r) (fastforce simp: unit_eq)+

interpretation ended: atom_invariant env "ended env h" "\<lambda>k. k \<noteq> h" for env h
proof unfold_locales
  show "keeps (ended env h) (admit_login ip now)" "keeps (ended env h) (reset_limiter ip)" for ip now
    using keeps_admit_login [of env ip now] keeps_reset_limiter [of env ip]
    by (auto simp: keeps_def ended_def admit_login_def reset_limiter_def split: prod.splits)
qed ((rule same_sessions_ended, intro keeps_intros, rule leave_sessions
      | rule ended_on_db, intro keeps_intros, erule (1) ended_delete
      | rule ended_on_db, intro keeps_intros, erule (2) ended_extend ended_create)+)

text \<open>
  C15. A logout is final, also for the requests it overtakes: once it has answered, no interleaving of
  the requests in flight at that moment and of any that arrive later brings the session back, and
  its token is refused at every time, as long as no login draws the same token again.
\<close>
theorem logout_is_final:
  assumes "service_inv env s0" and "interleaved env opt allowed (s0, []) (s1, ps)"
    and "token \<noteq> []" and "logout env token s1 = (Inr (), s2)"
    and "interleaved env opt allowed (s2, ps) (s', ps')"
    and "\<And>q. allowed q \<Longrightarrow> \<not> mints env (ae_hash env token) q"
  shows "(\<forall>x \<in> set (db_sessions (sv_db s')). se_id x \<noteq> ae_hash env token)
    \<and> isl (fst (authenticate env now token s'))"
proof -
  let ?h = "ae_hash env token"
  have inv1: "service_inv env s1"
    using tables.keeps_interleaving [OF assms(2)] assms(1) by simp
  have flight: "list_all (atoms_keep (ended env ?h)) ps"
    using ended.keeps_in_flight [OF assms(2)] assms(6) by blast
  from assms(3,4) have "delete_session ?h (sv_db s1) = (Inr (), sv_db s2)"
    by (auto simp: logout_def on_db_eq)
  then have "sessions_view (sv_db s2) ?h = None"
    using ss.remove_ok inv1 by (auto simp: service_inv_def)
  moreover have "service_inv env s2" by (rule keepsD [OF keeps_logout inv1 assms(4)])
  ultimately have "ended env ?h s2" by (simp add: ended_def)
  then have e: "ended env ?h s'"
    using ended.keeps_interleaving [OF assms(5)] flight assms(6) by fastforce
  have "isl (fst (authenticate env now token s'))"
  proof (rule ccontr)
    assume "\<not> isl (fst (authenticate env now token s'))"
    then obtain ident s'' where "authenticate env now token s' = (Inr ident, s'')"
      using not_isl_step by blast
    with e show False by (auto simp: ended_def dest: authenticate_rows)
  qed
  with e show ?thesis by (auto simp: ended_def sessions_view_def find_None_set)
qed

section \<open>Schedules\<close>

definition sample_flight :: "auth_request list \<Rightarrow> in_flight" where
  "sample_flight qs = (sample_service, map (request_prog sample_env (sv_opt sample_service)) qs)"

definition sample_login_request :: "string \<Rightarrow> auth_request" where
  "sample_login_request rnd = LogIn (\<lambda>_. 0) (Some rnd) ''ann'' ''secret'' [] ''::1''"

text \<open>Two authentications of a session that a logout overtakes, and a login that comes between.\<close>

definition sample_signed_in :: service where
  "sample_signed_in = fst (run_schedule [0, 0, 0, 0, 0, 0] (sample_flight [sample_login_request ''abc'']))"

lemma signed_in_interleaved:
  "interleaved sample_env (sv_opt sample_service) (\<lambda>q. q \<in> set [sample_login_request ''abc'']) (sample_service, [])
     (run_schedule [0, 0, 0, 0, 0, 0] (sample_flight [sample_login_request ''abc'']))"
  unfolding sample_flight_def by (rule flight_interleaved)

lemma signed_in_sound: "service_inv sample_env sample_signed_in"
  unfolding sample_signed_in_def
  by (rule tables.keeps_interleaving [OF signed_in_interleaved]) (simp_all add: sample_service_inv)


definition sample_token :: string where "sample_token = b64_encode url_alphabet ''abc''"

definition sample_arrivals :: "auth_request list" where
  "sample_arrivals = [Authenticate (\<lambda>_. 45 * minute) sample_token, sample_login_request ''xyz'']"

lemma logout_is_final_witness:
  "\<exists>s1 ps s2 s' ps'. logout sample_env sample_token s1 = (Inr (), s2)
     \<and> run_schedule [0, 0, 1, 1, 1, 1, 1, 1] (s2, ps) = (s', ps')
     \<and> length (db_sessions (sv_db s1)) = 1 \<and> length (db_sessions (sv_db s')) = 1
     \<and> isl (fst (authenticate sample_env minute sample_token s'))"
proof -
  let ?opt = "sv_opt sample_service" and ?R = "\<lambda>q. q \<in> set sample_arrivals"
  let ?c1 = "run_schedule [0, 0] (sample_signed_in, map (request_prog sample_env ?opt) sample_arrivals)"
  have "case ?c1 of (s1, ps) \<Rightarrow> case logout sample_env sample_token s1 of (r, s2) \<Rightarrow>
      case run_schedule [0, 0, 1, 1, 1, 1, 1, 1] (s2, ps) of (s', ps') \<Rightarrow>
        \<not> isl r \<and> length (db_sessions (sv_db s1)) = 1 \<and> length (db_sessions (sv_db s')) = 1"
    by code_simp
  then obtain s1 ps s2 s' ps' where c1: "?c1 = (s1, ps)" and out: "logout sample_env sample_token s1 = (Inr (), s2)"
    and c2: "run_schedule [0, 0, 1, 1, 1, 1, 1, 1] (s2, ps) = (s', ps')"
    and n: "length (db_sessions (sv_db s1)) = 1" "length (db_sessions (sv_db s')) = 1"
    by (auto split: prod.splits simp: isl_def) (metis old.unit.exhaust sum.exhaust)
  have "interleaved sample_env ?opt ?R (sample_signed_in, []) (s1, ps)"
    unfolding c1 [symmetric] by (rule flight_interleaved)
  moreover have "interleaved sample_env ?opt ?R (s2, ps) (s', ps')"
    unfolding c2 [symmetric] by (intro schedule_interleaved interleaved.start)
  moreover have "sample_token \<noteq> []"
    "ae_hash sample_env sample_token \<noteq> ae_hash sample_env (b64_encode url_alphabet ''xyz'')" by code_simp+
  ultimately have "isl (fst (authenticate sample_env minute sample_token s'))"
    using signed_in_sound out
    by (intro conjunct2 [OF logout_is_final [of _ sample_signed_in ?opt ?R s1 ps _ s2 s' ps']])
      (auto simp: sample_arrivals_def sample_login_request_def new_token_def Let_def)
  with out c2 n show ?thesis by blast
qed

text \<open>
  A password change ends the sessions there are, and misses the login in flight: one that has read
  the account before the change and opens its session after it signs in with the old password, and
  the session lives on, though the old password is refused from then on.
\<close>

lemma password_change_misses_login:
  "case run_schedule [0, 0, 1, 1, 1, 0, 0, 0, 0] (sample_flight
      [sample_login_request ''abc'', ChangePassword 5 ''ann'' (phc 19 8 1 1 ''salt'' ''othe'')]) of
     (s, ps) \<Rightarrow>
       list_all (\<lambda>p. case p of Ret (Inr _) \<Rightarrow> True | _ \<Rightarrow> False) ps
       \<and> \<not> isl (fst (authenticate sample_env minute sample_token s))
       \<and> (case fst (login sample_env minute (Some ''x'') ''ann'' ''secret'' [] [] s) of
            Inl InvalidCredentials \<Rightarrow> True | _ \<Rightarrow> False)"
  by code_simp

end
