(* ===== verification/Json.thy ===== *)
theory Json
  imports GoStrings
begin

text \<open>
  JSON as the program meets it: the trees \<open>encoding/json\<close> reads a request body into, how such a
  tree is assigned to a struct, and the text a struct is written as. The reading of the text
  itself is the library's; a request carries its result.
\<close>

section \<open>Trees and their text\<close>

text \<open>A number is kept as its literal.\<close>

datatype json =
    JNull
  | JBool bool
  | JNum string
  | JStr string
  | JArr "json list"
  | JObj "(string \<times> json) list"

definition hex_digit :: "nat \<Rightarrow> char" where
  "hex_digit d = (if d < 10 then char_of (48 + d) else char_of (87 + d))"

definition u_escape :: "nat \<Rightarrow> string" where
  "u_escape r = [CHR 0x5C, CHR ''u'', hex_digit (r div 4096 mod 16), hex_digit (r div 256 mod 16),
     hex_digit (r div 16 mod 16), hex_digit (r mod 16)]"

text \<open>
  A string literal as \<open>json.Marshal\<close> writes it: short escapes, \<open><\<close>, \<open>>\<close>, \<open>&\<close> and the two line
  separators as \<open>\u\<close> escapes, and the replacement character for a byte that starts no rune.
\<close>

definition json_rune :: "nat \<times> string \<Rightarrow> string" where
  "json_rune p =
     (case p of (r, b) \<Rightarrow>
        if r = 34 \<or> r = 92 then CHR 0x5C # b
        else if r = 8 then [CHR 0x5C, CHR ''b'']
        else if r = 12 then [CHR 0x5C, CHR ''f'']
        else if r = 10 then [CHR 0x5C, CHR ''n'']
        else if r = 13 then [CHR 0x5C, CHR ''r'']
        else if r = 9 then [CHR 0x5C, CHR ''t'']
        else if r < 32 \<or> r = 60 \<or> r = 62 \<or> r = 38 \<or> r = 8232 \<or> r = 8233 then u_escape r
        else if r = rune_error \<and> length b = 1 then u_escape rune_error
        else b)"

definition json_quote :: "string \<Rightarrow> string" where
  "json_quote s = CHR 0x22 # concat (map json_rune (go_runes s)) @ [CHR 0x22]"

fun json_text :: "json \<Rightarrow> string" where
  "json_text JNull = ''null''"
| "json_text (JBool b) = (if b then ''true'' else ''false'')"
| "json_text (JNum t) = t"
| "json_text (JStr s) = json_quote s"
| "json_text (JArr js) = ''['' @ join '','' (map json_text js) @ '']''"
| "json_text (JObj kvs) =
     [CHR 0x7B] @ join '','' (map (\<lambda>(k, j). json_quote k @ '':'' @ json_text j) kvs) @ [CHR 0x7D]"

text \<open>\<open>omitempty\<close> leaves a field out when its value is empty.\<close>

definition omit_if :: "bool \<Rightarrow> string \<times> json \<Rightarrow> (string \<times> json) list" where
  "omit_if b f = (if b then [] else [f])"

section \<open>Reading into a struct\<close>

datatype json_error = UnknownField string | WrongType string

definition json_error_text :: "json_error \<Rightarrow> string" where
  "json_error_text e =
     (case e of
        UnknownField k \<Rightarrow> ''json: unknown field '' @ [CHR 0x22] @ k @ [CHR 0x22]
      | WrongType k \<Rightarrow> ''json: cannot unmarshal into Go struct field '' @ k)"

text \<open>
  Keys match a field exactly or up to case, where two runes outside ASCII fold to letters as well;
  \<open>DisallowUnknownFields\<close> is set everywhere. The first error wins. \<open>null\<close> leaves a field as
  it is, and a key that comes twice is assigned twice.
\<close>

fun fold_name :: "string \<Rightarrow> string" where
  "fold_name [] = []"
| "fold_name (c # s) =
     (if byte c = 226 \<and> map byte (take 2 s) = [132, 170] then CHR ''k'' # fold_name (drop 2 s)
      else if byte c = 197 \<and> map byte (take 1 s) = [191] then CHR ''s'' # fold_name (drop 1 s)
      else lower_ascii [c] @ fold_name s)"

type_synonym 'b setter = "string \<Rightarrow> json \<Rightarrow> 'b \<Rightarrow> json_error + 'b"
type_synonym 'b fields = "(string \<times> 'b setter) list"

definition field_for :: "'b fields \<Rightarrow> string \<Rightarrow> (string \<times> 'b setter) option" where
  "field_for fs k =
     (case find (\<lambda>f. fst f = k) fs of
        Some f \<Rightarrow> Some f
      | None \<Rightarrow> find (\<lambda>f. fold_name (fst f) = fold_name k) fs)"

fun decode_fields :: "'b fields \<Rightarrow> (string \<times> json) list \<Rightarrow> 'b \<Rightarrow> json_error + 'b" where
  "decode_fields fs [] b = Inr b"
| "decode_fields fs ((k, j) # kvs) b =
     (case field_for fs k of
        None \<Rightarrow> Inl (UnknownField k)
      | Some (name, set_field) \<Rightarrow> bind_err (set_field name j b) (decode_fields fs kvs))"

definition decode_struct :: "string \<Rightarrow> 'b fields \<Rightarrow> json \<Rightarrow> 'b \<Rightarrow> json_error + 'b" where
  "decode_struct name fs j b =
     (case j of
        JNull \<Rightarrow> Inr b
      | JObj kvs \<Rightarrow> decode_fields fs kvs b
      | _ \<Rightarrow> Inl (WrongType name))"

text \<open>A reader that ignores the error keeps what could be assigned, and unknown keys are skipped.\<close>

fun decode_lenient :: "'b fields \<Rightarrow> (string \<times> json) list \<Rightarrow> 'b \<Rightarrow> 'b" where
  "decode_lenient fs [] b = b"
| "decode_lenient fs ((k, j) # kvs) b =
     decode_lenient fs kvs
       (case field_for fs k of
          None \<Rightarrow> b
        | Some (name, set_field) \<Rightarrow> (case set_field name j b of Inl e \<Rightarrow> b | Inr b' \<Rightarrow> b'))"

definition string_field :: "(string \<Rightarrow> 'b \<Rightarrow> 'b) \<Rightarrow> 'b setter" where
  "string_field upd name j b =
     (case j of JNull \<Rightarrow> Inr b | JStr s \<Rightarrow> Inr (upd s b) | _ \<Rightarrow> Inl (WrongType name))"

definition bool_member :: "(bool \<Rightarrow> 'b \<Rightarrow> 'b) \<Rightarrow> 'b setter" where
  "bool_member upd name j b =
     (case j of JNull \<Rightarrow> Inr b | JBool v \<Rightarrow> Inr (upd v b) | _ \<Rightarrow> Inl (WrongType name))"

definition int_field :: "(int64 \<Rightarrow> 'b \<Rightarrow> 'b) \<Rightarrow> 'b setter" where
  "int_field upd name j b =
     (case j of
        JNull \<Rightarrow> Inr b
      | JNum t \<Rightarrow> (case parse_int64 t of Some n \<Rightarrow> Inr (upd n b) | None \<Rightarrow> Inl (WrongType name))
      | _ \<Rightarrow> Inl (WrongType name))"

definition uint32_field :: "(uint32 \<Rightarrow> 'b \<Rightarrow> 'b) \<Rightarrow> 'b setter" where
  "uint32_field upd name j b =
     (case j of
        JNull \<Rightarrow> Inr b
      | JNum t \<Rightarrow>
          (case parse_uint t of
             Some n \<Rightarrow> if n < 2 ^ 32 then Inr (upd (of_nat n) b) else Inl (WrongType name)
           | None \<Rightarrow> Inl (WrongType name))
      | _ \<Rightarrow> Inl (WrongType name))"

definition list_field :: "(json \<Rightarrow> json_error + 'a) \<Rightarrow> ('a list \<Rightarrow> 'b \<Rightarrow> 'b) \<Rightarrow> 'b setter" where
  "list_field elem upd name j b =
     (case j of
        JNull \<Rightarrow> Inr (upd [] b)
      | JArr js \<Rightarrow> bind_err (map_err elem js) (\<lambda>xs. Inr (upd xs b))
      | _ \<Rightarrow> Inl (WrongType name))"

section \<open>Quoting for messages\<close>

text \<open>\<open>%q\<close>, where a rune outside ASCII is taken to be printable.\<close>

definition quote_rune :: "nat \<times> string \<Rightarrow> string" where
  "quote_rune p =
     (case p of (r, b) \<Rightarrow>
        if r = 34 \<or> r = 92 then CHR 0x5C # b
        else if 7 \<le> r \<and> r \<le> 13 then [CHR 0x5C, ''abtnvfr'' ! (r - 7)]
        else if r < 32 \<or> r = 127 \<or> r = rune_error \<and> length b = 1
        then let n = byte (hd b) in [CHR 0x5C, CHR ''x'', hex_digit (n div 16), hex_digit (n mod 16)]
        else b)"

definition go_quote :: "string \<Rightarrow> string" where
  "go_quote s = CHR 0x22 # concat (map quote_rune (go_runes s)) @ [CHR 0x22]"

section \<open>Well-formed text\<close>

definition valid_utf8 :: "string \<Rightarrow> bool" where
  "valid_utf8 s \<longleftrightarrow> list_all (\<lambda>(r, b). \<not> (r = rune_error \<and> length b = 1)) (go_runes s)"

definition plain_text :: "string \<Rightarrow> bool" where
  "plain_text s \<longleftrightarrow> list_all (\<lambda>c. byte c < 128) s"

lemma go_runes_plain: "plain_text s \<Longrightarrow> go_runes s = map (\<lambda>c. (byte c, [c])) s"
  by (induction s) (simp_all add: plain_text_def go_runes_ascii del: go_runes.simps(2))

lemma plain_text_valid: "plain_text s \<Longrightarrow> valid_utf8 s"
  by (auto simp: valid_utf8_def go_runes_plain plain_text_def list_all_iff)

lemma plain_text_take: "plain_text s \<Longrightarrow> plain_text (take n s)"
  by (auto simp: plain_text_def list_all_iff dest: in_set_takeD)

lemma plain_text_append [simp]: "plain_text (s @ t) \<longleftrightarrow> plain_text s \<and> plain_text t"
  by (simp add: plain_text_def)

lemma decode_rune_tail_le:
  "decode_rune c s = (r, n) \<Longrightarrow> d \<in> set (take (n - 1) s) \<Longrightarrow> byte d \<le> 191"
  by (auto simp: decode_rune_def cont_def Let_def split: if_splits list.splits)

text \<open>A text cut right after the first byte of a longer encoding is not valid.\<close>

lemma cut_after_lead_byte: "s \<noteq> [] \<Longrightarrow> 192 \<le> byte (last s) \<Longrightarrow> \<not> valid_utf8 s"
proof (induction s rule: go_runes.induct)
  case (2 c s)
  obtain r n where rn: "decode_rune c s = (r, n)" by fastforce
  show ?case
  proof (cases "drop (n - 1) s = []")
    case False
    then have "last (drop (n - 1) s) = last (c # s)" by auto
    with False "2.IH" [OF rn [symmetric] refl] 2(3) rn show ?thesis by (simp add: valid_utf8_def)
  next
    case True
    then have "s = []"
      using decode_rune_tail_le [OF rn, of "last s"] 2(3) by (cases "s = []") auto
    with 2(3) rn have "r = rune_error"
      by (auto simp: decode_rune_def Let_def split: if_splits)
    with rn \<open>s = []\<close> show ?thesis by (simp add: valid_utf8_def)
  qed
qed simp

end
