(* ===== verification/Config.thy ===== *)
theory Config
  imports Permissions Json
begin

text \<open>
  The configuration (\<^verbatim>\<open>internal/config/config.go\<close>): built-in defaults, a YAML file, the
  environment and the command line, each over the one before, and the check of the result. Reading
  the file and the YAML decoder are parameters; Go's \<open>flag\<close> package and \<open>time.ParseDuration\<close> are
  written after their sources.
\<close>

section \<open>The configuration\<close>

record config =
  cf_listen_addr :: string
  cf_base_url :: string
  cf_read_timeout :: duration
  cf_write_timeout :: duration
  cf_idle_timeout :: duration
  cf_mysql_dsn :: string
  cf_mysql_max_open_conns :: int
  cf_mysql_conn_max_life :: duration
  cf_query_timeout :: duration
  cf_worker_command_url :: string
  cf_worker_command_key :: string
  cf_worker_events_url :: string
  cf_worker_events_key :: string
  cf_worker_timeout :: duration
  cf_session_ttl :: duration
  cf_session_cookie :: string
  cf_secure_cookies :: bool
  cf_demo_mode :: bool
  cf_demo_user :: string
  cf_login_rate_limit :: int
  cf_login_rate_window :: duration
  cf_demo_commands :: "string list"
  cf_command_rate_limit :: int
  cf_demo_command_rate_limit :: int
  cf_demo_max_targets :: int
  cf_audit_client_ip :: bool
  cf_audit_retention_days :: int
  cf_max_event_clients :: int
  cf_metrics_provider :: string
  cf_graphite_url :: string
  cf_graphite_prefix :: string
  cf_default_page_size :: int
  cf_max_page_size :: int
  cf_log_level :: string
  cf_log_format :: string
  cf_ui_dir :: string

definition default_config :: config where
  "default_config = \<lparr>
     cf_listen_addr = ''127.0.0.1:8090'', cf_base_url = [], cf_read_timeout = 15 * second,
     cf_write_timeout = 60 * second, cf_idle_timeout = 120 * second, cf_mysql_dsn = [],
     cf_mysql_max_open_conns = 25, cf_mysql_conn_max_life = 5 * minute,
     cf_query_timeout = 20 * second, cf_worker_command_url = ''http://127.0.0.1:8081/commands'',
     cf_worker_command_key = [], cf_worker_events_url = ''ws://127.0.0.1:8080/ws'',
     cf_worker_events_key = [], cf_worker_timeout = 10 * second, cf_session_ttl = 12 * hour,
     cf_session_cookie = ''sei_session'', cf_secure_cookies = False, cf_demo_mode = False,
     cf_demo_user = ''guest'', cf_login_rate_limit = 10, cf_login_rate_window = minute,
     cf_demo_commands = [], cf_command_rate_limit = 60, cf_demo_command_rate_limit = 10,
     cf_demo_max_targets = 25, cf_audit_client_ip = True, cf_audit_retention_days = 0,
     cf_max_event_clients = 500, cf_metrics_provider = ''mysql'', cf_graphite_url = [],
     cf_graphite_prefix = ''statusengine'', cf_default_page_size = 50, cf_max_page_size = 500,
     cf_log_level = ''info'', cf_log_format = ''text'', cf_ui_dir = []\<rparr>"

section \<open>Durations\<close>

text \<open>\<open>time.ParseDuration\<close>; a fraction is computed exactly and cut to whole nanoseconds.\<close>

definition is_digit :: "char \<Rightarrow> bool" where
  "is_digit c \<longleftrightarrow> 48 \<le> byte c \<and> byte c \<le> 57"

definition duration_unit :: "string \<rightharpoonup> nat" where
  "duration_unit = map_of
     [(''ns'', 1), (''us'', 1000), ([CHR 0xC2, CHR 0xB5, CHR ''s''], 1000),
      ([CHR 0xCE, CHR 0xBC, CHR ''s''], 1000), (''ms'', 1000000), (''s'', 1000000000),
      (''m'', 60000000000), (''h'', 3600000000000)]"

definition number_of :: "string \<Rightarrow> nat" where
  "number_of ds = (case digits_val 0 ds of Some n \<Rightarrow> n | None \<Rightarrow> 0)"

definition fraction_of :: "string \<Rightarrow> string \<times> string" where
  "fraction_of s =
     (case s of
        [] \<Rightarrow> ([], [])
      | c # t \<Rightarrow> if c = CHR ''.'' then (takeWhile is_digit t, dropWhile is_digit t) else ([], s))"

abbreviation in_unit :: "char \<Rightarrow> bool" where
  "in_unit c \<equiv> c \<noteq> CHR ''.'' \<and> \<not> is_digit c"

definition duration_span :: "string \<Rightarrow> (nat \<times> string) option" where
  "duration_span s =
     (let ds = takeWhile is_digit s;
          (fs, s2) = fraction_of (dropWhile is_digit s)
      in if ds = [] \<and> fs = [] \<or> number_of ds > 2 ^ 63 then None
         else case duration_unit (takeWhile in_unit s2) of
           None \<Rightarrow> None
         | Some w \<Rightarrow>
             let v = number_of ds * w + number_of fs * w div 10 ^ length fs
             in if v > 2 ^ 63 then None else Some (v, dropWhile in_unit s2))"

lemma duration_unit_empty: "duration_unit [] = None"
  by (simp add: duration_unit_def)

lemma fraction_of_le: "fraction_of s = (fs, t) \<Longrightarrow> length t \<le> length s"
  by (auto simp: fraction_of_def le_SucI length_dropWhile_le split: list.splits if_splits)

lemma duration_span_shorter [termination_simp]:
  "duration_span s = Some (v, rest) \<Longrightarrow> length rest < length s"
proof -
  assume a: "duration_span s = Some (v, rest)"
  obtain fs s2 where f: "fraction_of (dropWhile is_digit s) = (fs, s2)" by fastforce
  from a have rest: "rest = dropWhile in_unit s2" and "duration_unit (takeWhile in_unit s2) \<noteq> None"
    unfolding duration_span_def Let_def f by (simp_all split: if_split_asm option.split_asm)
  then have u: "takeWhile in_unit s2 \<noteq> []" using duration_unit_empty by metis
  have "length (takeWhile in_unit s2) + length rest = length s2"
    unfolding rest by (metis length_append takeWhile_dropWhile_id)
  with u have "length rest < length s2" by (metis add_less_cancel_right add_0 length_greater_0_conv)
  also have "length s2 \<le> length (dropWhile is_digit s)" using fraction_of_le [OF f] .
  also have "\<dots> \<le> length s" by (rule length_dropWhile_le)
  finally show ?thesis .
qed

fun duration_spans :: "nat \<Rightarrow> string \<Rightarrow> nat option" where
  "duration_spans acc s =
     (if s = [] then Some acc
      else case duration_span s of
        None \<Rightarrow> None
      | Some (v, rest) \<Rightarrow> if acc + v > 2 ^ 63 then None else duration_spans (acc + v) rest)"

declare duration_spans.simps [simp del]

definition parse_duration :: "string \<Rightarrow> duration option" where
  "parse_duration s =
     (let neg = (s \<noteq> [] \<and> hd s = CHR ''-'');
          body = (if s \<noteq> [] \<and> (hd s = CHR ''-'' \<or> hd s = CHR ''+'') then tl s else s)
      in if body = ''0'' then Some 0
         else if body = [] then None
         else case duration_spans 0 body of
           None \<Rightarrow> None
         | Some d \<Rightarrow> if neg then Some (- int d) else if d > 2 ^ 63 - 1 then None else Some (int d))"

section \<open>The environment\<close>

definition string_settings :: "(string \<times> (string \<Rightarrow> config \<Rightarrow> config)) list" where
  "string_settings =
     [(''SEI_LISTEN_ADDR'', \<lambda>v. cf_listen_addr_update (\<lambda>_. v)),
      (''SEI_BASE_URL'', \<lambda>v. cf_base_url_update (\<lambda>_. v)),
      (''SEI_MYSQL_DSN'', \<lambda>v. cf_mysql_dsn_update (\<lambda>_. v)),
      (''SEI_WORKER_COMMAND_URL'', \<lambda>v. cf_worker_command_url_update (\<lambda>_. v)),
      (''SEI_WORKER_COMMAND_KEY'', \<lambda>v. cf_worker_command_key_update (\<lambda>_. v)),
      (''SEI_WORKER_EVENTS_URL'', \<lambda>v. cf_worker_events_url_update (\<lambda>_. v)),
      (''SEI_WORKER_EVENTS_KEY'', \<lambda>v. cf_worker_events_key_update (\<lambda>_. v)),
      (''SEI_SESSION_COOKIE'', \<lambda>v. cf_session_cookie_update (\<lambda>_. v)),
      (''SEI_DEMO_USER'', \<lambda>v. cf_demo_user_update (\<lambda>_. v)),
      (''SEI_METRICS_PROVIDER'', \<lambda>v. cf_metrics_provider_update (\<lambda>_. v)),
      (''SEI_GRAPHITE_URL'', \<lambda>v. cf_graphite_url_update (\<lambda>_. v)),
      (''SEI_GRAPHITE_PREFIX'', \<lambda>v. cf_graphite_prefix_update (\<lambda>_. v)),
      (''SEI_LOG_LEVEL'', \<lambda>v. cf_log_level_update (\<lambda>_. v)),
      (''SEI_LOG_FORMAT'', \<lambda>v. cf_log_format_update (\<lambda>_. v)),
      (''SEI_UI_DIR'', \<lambda>v. cf_ui_dir_update (\<lambda>_. v))]"

definition int_settings :: "(string \<times> (int \<Rightarrow> config \<Rightarrow> config)) list" where
  "int_settings =
     [(''SEI_MYSQL_MAX_OPEN_CONNS'', \<lambda>v. cf_mysql_max_open_conns_update (\<lambda>_. v)),
      (''SEI_LOGIN_RATE_LIMIT'', \<lambda>v. cf_login_rate_limit_update (\<lambda>_. v)),
      (''SEI_COMMAND_RATE_LIMIT'', \<lambda>v. cf_command_rate_limit_update (\<lambda>_. v)),
      (''SEI_DEMO_COMMAND_RATE_LIMIT'', \<lambda>v. cf_demo_command_rate_limit_update (\<lambda>_. v)),
      (''SEI_DEMO_MAX_TARGETS'', \<lambda>v. cf_demo_max_targets_update (\<lambda>_. v)),
      (''SEI_MAX_EVENT_CLIENTS'', \<lambda>v. cf_max_event_clients_update (\<lambda>_. v)),
      (''SEI_AUDIT_RETENTION_DAYS'', \<lambda>v. cf_audit_retention_days_update (\<lambda>_. v)),
      (''SEI_DEFAULT_PAGE_SIZE'', \<lambda>v. cf_default_page_size_update (\<lambda>_. v)),
      (''SEI_MAX_PAGE_SIZE'', \<lambda>v. cf_max_page_size_update (\<lambda>_. v))]"

definition bool_settings :: "(string \<times> (bool \<Rightarrow> config \<Rightarrow> config)) list" where
  "bool_settings =
     [(''SEI_SECURE_COOKIES'', \<lambda>v. cf_secure_cookies_update (\<lambda>_. v)),
      (''SEI_DEMO_MODE'', \<lambda>v. cf_demo_mode_update (\<lambda>_. v)),
      (''SEI_AUDIT_CLIENT_IP'', \<lambda>v. cf_audit_client_ip_update (\<lambda>_. v))]"

definition duration_settings :: "(string \<times> (duration \<Rightarrow> config \<Rightarrow> config)) list" where
  "duration_settings =
     [(''SEI_SESSION_TTL'', \<lambda>v. cf_session_ttl_update (\<lambda>_. v)),
      (''SEI_WORKER_TIMEOUT'', \<lambda>v. cf_worker_timeout_update (\<lambda>_. v)),
      (''SEI_QUERY_TIMEOUT'', \<lambda>v. cf_query_timeout_update (\<lambda>_. v))]"

datatype flag_error =
    BadFlagSyntax string
  | UndefinedFlag string
  | HelpRequested
  | BadFlagValue string string
  | NeedsArgument string

datatype config_error =
    ReadingFile string string
  | ParsingFile string string
  | NotANumber string string
  | NotABoolean string string
  | NotADuration string string
  | FlagError flag_error
  | Invalid "string list"

text \<open>
  Each group of settings is a Go map, which a loop visits in an unspecified order: \<open>bs\<close> is the
  order the runtime picks.
\<close>

fun merge_settings ::
  "(string \<Rightarrow> 'v option) \<Rightarrow> (string \<Rightarrow> string \<Rightarrow> config_error) \<Rightarrow> (string \<rightharpoonup> string)
     \<Rightarrow> (string \<times> ('v \<Rightarrow> config \<Rightarrow> config)) list \<Rightarrow> config \<Rightarrow> config_error + config" where
  "merge_settings parse bad env [] c = Inr c"
| "merge_settings parse bad env ((k, set_field) # bs) c =
     (case env k of
        None \<Rightarrow> merge_settings parse bad env bs c
      | Some v \<Rightarrow>
          (case parse v of
             None \<Rightarrow> Inl (bad k v)
           | Some x \<Rightarrow> merge_settings parse bad env bs (set_field x c)))"

definition demo_command_list :: "string \<Rightarrow> string list" where
  "demo_command_list v = filter (\<lambda>w. w \<noteq> []) (map trim_space (split_on (CHR '','') v))"

record setting_orders =
  so_strings :: "(string \<times> (string \<Rightarrow> config \<Rightarrow> config)) list"
  so_ints :: "(string \<times> (int \<Rightarrow> config \<Rightarrow> config)) list"
  so_bools :: "(string \<times> (bool \<Rightarrow> config \<Rightarrow> config)) list"
  so_durations :: "(string \<times> (duration \<Rightarrow> config \<Rightarrow> config)) list"

definition written_order :: setting_orders where
  "written_order = \<lparr>so_strings = string_settings, so_ints = int_settings, so_bools = bool_settings,
     so_durations = duration_settings\<rparr>"

definition merge_env :: "setting_orders \<Rightarrow> (string \<rightharpoonup> string) \<Rightarrow> config \<Rightarrow> config_error + config" where
  "merge_env so env c =
     bind_err (merge_settings Some NotANumber env (so_strings so) c) (\<lambda>c.
     bind_err (merge_settings parse_int64 NotANumber env (so_ints so) c) (\<lambda>c.
       let c = (case env ''SEI_DEMO_COMMANDS'' of
                  None \<Rightarrow> c
                | Some v \<Rightarrow> c\<lparr>cf_demo_commands := demo_command_list v\<rparr>)
       in bind_err (merge_settings parse_bool NotABoolean env (so_bools so) c)
            (merge_settings parse_duration NotADuration env (so_durations so))))"

section \<open>The command line\<close>

datatype 'a flag = StringFlag "string \<Rightarrow> 'a \<Rightarrow> 'a" | BoolFlag "bool \<Rightarrow> 'a \<Rightarrow> 'a"

datatype given = GivenString string | GivenBool bool

text \<open>
  One step of \<open>FlagSet.Parse\<close>: a flag is \<open>-name\<close>, \<open>-name=value\<close> or, when it takes a string,
  \<open>-name value\<close>, with one dash or two; the first argument that is none ends the parse.
\<close>

definition parse_one ::
  "(string \<rightharpoonup> 'a flag) \<Rightarrow> string \<Rightarrow> string list \<Rightarrow> flag_error option + (string \<times> given) \<times> string list" where
  "parse_one fs a rest =
     (if length a < 2 \<or> hd a \<noteq> CHR ''-'' \<or> a = ''--'' then Inl None
      else
        let body = (if a ! 1 = CHR ''-'' then drop 2 a else drop 1 a)
        in if body = [] \<or> hd body = CHR ''-'' \<or> hd body = CHR ''='' then Inl (Some (BadFlagSyntax a))
           else
             let (name, value, has_value) = cut (CHR ''='') body
             in case fs name of
                  None \<Rightarrow>
                    Inl (Some (if name = ''help'' \<or> name = ''h'' then HelpRequested else UndefinedFlag name))
                | Some (BoolFlag set_flag) \<Rightarrow>
                    (if \<not> has_value then Inr ((name, GivenBool True), rest)
                     else case parse_bool value of
                       None \<Rightarrow> Inl (Some (BadFlagValue name value))
                     | Some b \<Rightarrow> Inr ((name, GivenBool b), rest))
                | Some (StringFlag set_flag) \<Rightarrow>
                    (if has_value then Inr ((name, GivenString value), rest)
                     else case rest of
                       [] \<Rightarrow> Inl (Some (NeedsArgument name))
                     | v # rest' \<Rightarrow> Inr ((name, GivenString v), rest')))"

definition apply_given :: "(string \<rightharpoonup> 'a flag) \<Rightarrow> string \<times> given \<Rightarrow> 'a \<Rightarrow> 'a" where
  "apply_given fs g st =
     (case (fs (fst g), snd g) of
        (Some (StringFlag s), GivenString v) \<Rightarrow> s v st
      | (Some (BoolFlag s), GivenBool b) \<Rightarrow> s b st
      | _ \<Rightarrow> st)"

lemma parse_one_shorter [termination_simp]:
  "parse_one fs a rest = Inr (g, rest') \<Longrightarrow> length rest' \<le> length rest"
  by (auto simp: parse_one_def Let_def split: if_splits option.splits flag.splits prod.splits list.splits)

text \<open>What was set before an error stays set.\<close>

fun parse_flags :: "(string \<rightharpoonup> 'a flag) \<Rightarrow> string list \<Rightarrow> 'a \<Rightarrow> flag_error option \<times> 'a" where
  "parse_flags fs [] st = (None, st)"
| "parse_flags fs (a # rest) st =
     (case parse_one fs a rest of
        Inl err \<Rightarrow> (err, st)
      | Inr (g, rest') \<Rightarrow> parse_flags fs rest' (apply_given fs g st))"

definition config_flags :: "(string \<times> config flag) list" where
  "config_flags =
     [(''config'', StringFlag (\<lambda>v. id)),
      (''listen-addr'', StringFlag (\<lambda>v. cf_listen_addr_update (\<lambda>_. v))),
      (''mysql-dsn'', StringFlag (\<lambda>v. cf_mysql_dsn_update (\<lambda>_. v))),
      (''worker-command-url'', StringFlag (\<lambda>v. cf_worker_command_url_update (\<lambda>_. v))),
      (''worker-command-key'', StringFlag (\<lambda>v. cf_worker_command_key_update (\<lambda>_. v))),
      (''worker-events-url'', StringFlag (\<lambda>v. cf_worker_events_url_update (\<lambda>_. v))),
      (''worker-events-key'', StringFlag (\<lambda>v. cf_worker_events_key_update (\<lambda>_. v))),
      (''demo-mode'', BoolFlag (\<lambda>v. cf_demo_mode_update (\<lambda>_. v))),
      (''secure-cookies'', BoolFlag (\<lambda>v. cf_secure_cookies_update (\<lambda>_. v))),
      (''metrics-provider'', StringFlag (\<lambda>v. cf_metrics_provider_update (\<lambda>_. v))),
      (''ui-dir'', StringFlag (\<lambda>v. cf_ui_dir_update (\<lambda>_. v))),
      (''log-level'', StringFlag (\<lambda>v. cf_log_level_update (\<lambda>_. v))),
      (''log-format'', StringFlag (\<lambda>v. cf_log_format_update (\<lambda>_. v)))]"

definition path_flags :: "string \<rightharpoonup> string flag" where
  "path_flags = [''config'' \<mapsto> StringFlag (\<lambda>v _. v)]"

section \<open>The check\<close>

definition DemoCommandAcknowledge :: string where "DemoCommandAcknowledge = ''acknowledge''"
definition DemoCommandDowntime :: string where "DemoCommandDowntime = ''downtime''"
definition DemoCommandReschedule :: string where "DemoCommandReschedule = ''reschedule''"
definition DemoCommandSubmitResult :: string where "DemoCommandSubmitResult = ''submit-result''"
definition DemoCommandToggle :: string where "DemoCommandToggle = ''toggle''"
definition DemoCommandNotify :: string where "DemoCommandNotify = ''notify''"

definition demo_command_names :: "string list" where
  "demo_command_names = [DemoCommandAcknowledge, DemoCommandDowntime, DemoCommandReschedule,
     DemoCommandSubmitResult, DemoCommandToggle]"

definition is_demo_command :: "string \<Rightarrow> bool" where
  "is_demo_command name = list_ex (\<lambda>known. known = name) demo_command_names"

definition complain :: "bool \<Rightarrow> string \<Rightarrow> string list" where
  "complain b message = (if b then [message] else [])"

definition check_demo_command :: "string \<Rightarrow> string list" where
  "check_demo_command name =
     (if name = DemoCommandNotify then
        [''demo_commands must not contain '' @ go_quote ''notify'' @
         '': a custom notification mails and pages the real contacts of the monitored objects,'' @
         '' and the demo account is public'']
      else if \<not> is_demo_command name then
        [''demo_commands: '' @ go_quote name @ '' is not one of '' @ join '', '' demo_command_names]
      else [])"

definition validate_config :: "config \<Rightarrow> string list" where
  "validate_config c =
     complain (cf_mysql_dsn c = []) ''mysql_dsn is required''
     @ complain (cf_listen_addr c = []) ''listen_addr is required''
     @ (if cf_metrics_provider c = ''mysql'' then []
        else if cf_metrics_provider c = ''graphite'' then
          complain (cf_graphite_url c = [])
            (''metrics_provider is '' @ go_quote ''graphite'' @ '' but graphite_url is empty'')
        else [''metrics_provider: '' @ go_quote (cf_metrics_provider c) @ '' is not one of mysql, graphite''])
     @ complain (cf_log_format c \<noteq> ''text'' \<and> cf_log_format c \<noteq> ''json'')
         (''log_format: '' @ go_quote (cf_log_format c) @ '' is not one of text, json'')
     @ complain (cf_default_page_size c < 1) ''default_page_size must be at least 1''
     @ complain (cf_max_page_size c < cf_default_page_size c)
         ''max_page_size must be at least default_page_size''
     @ complain (cf_session_ttl c \<le> 0) ''session_ttl must be positive''
     @ concat (map check_demo_command (cf_demo_commands c))
     @ complain (cf_demo_max_targets c < 1) ''demo_max_targets must be at least 1''
     @ complain (cf_audit_retention_days c < 0) ''audit_retention_days must be zero or more''
     @ complain (cf_max_event_clients c < 1) ''max_event_clients must be at least 1''
     @ complain (cf_query_timeout c \<le> 0) ''query_timeout must be positive''"

section \<open>Loading\<close>

text \<open>
  \<open>os_file\<close> is the content of a file or why it cannot be read; \<open>os_yaml\<close> what the YAML decoder
  makes of a text and the configuration so far.
\<close>

record os =
  os_env :: "string \<rightharpoonup> string"
  os_file :: "string \<Rightarrow> string + string"
  os_yaml :: "string \<Rightarrow> config \<Rightarrow> string + config"
  os_orders :: setting_orders

definition merge_file :: "os \<Rightarrow> string \<Rightarrow> config \<Rightarrow> config_error + config" where
  "merge_file os path c =
     (case os_file os path of
        Inl why \<Rightarrow> Inl (ReadingFile path why)
      | Inr text \<Rightarrow>
          (case os_yaml os text c of
             Inl why \<Rightarrow> Inl (ParsingFile path why)
           | Inr c' \<Rightarrow> Inr c'))"

definition config_path :: "os \<Rightarrow> string list \<Rightarrow> string" where
  "config_path os argv =
     snd (parse_flags path_flags argv
       (case os_env os ''SEI_CONFIG'' of None \<Rightarrow> [] | Some p \<Rightarrow> p))"

definition accept_config :: "flag_error option \<times> config \<Rightarrow> config_error + config" where
  "accept_config r =
     (case r of (err, c) \<Rightarrow>
        (case err of
           Some e \<Rightarrow> Inl (FlagError e)
         | None \<Rightarrow>
             let errs = validate_config c
             in if errs = [] then Inr c else Inl (Invalid errs)))"

definition load :: "os \<Rightarrow> string list \<Rightarrow> config_error + config" where
  "load os argv =
     (let path = config_path os argv in
      bind_err (if path \<noteq> [] then merge_file os path default_config else Inr default_config) (\<lambda>c.
      bind_err (merge_env (os_orders os) (os_env os) c) (\<lambda>c.
        accept_config (parse_flags (map_of config_flags) argv c))))"

definition commands_enabled :: "config \<Rightarrow> bool" where
  "commands_enabled c \<longleftrightarrow> cf_worker_command_key c \<noteq> [] \<and> cf_worker_command_url c \<noteq> []"

definition events_enabled :: "config \<Rightarrow> bool" where
  "events_enabled c \<longleftrightarrow> cf_worker_events_key c \<noteq> [] \<and> cf_worker_events_url c \<noteq> []"

definition allows_demo_command :: "config \<Rightarrow> string \<Rightarrow> bool" where
  "allows_demo_command c name \<longleftrightarrow>
     cf_demo_mode c \<and> list_ex (\<lambda>allowed. allowed = name) (cf_demo_commands c)"

section \<open>One group of settings\<close>

text \<open>A group succeeds when every value that is set can be read, and then assigns them all.\<close>

definition assign :: "(string \<Rightarrow> 'v option) \<Rightarrow> (string \<rightharpoonup> string)
    \<Rightarrow> string \<times> ('v \<Rightarrow> config \<Rightarrow> config) \<Rightarrow> config \<Rightarrow> config" where
  "assign parse env b c =
     (case Option.bind (env (fst b)) parse of None \<Rightarrow> c | Some x \<Rightarrow> snd b x c)"

definition readable :: "(string \<Rightarrow> 'v option) \<Rightarrow> (string \<rightharpoonup> string) \<Rightarrow> string \<Rightarrow> bool" where
  "readable parse env k \<longleftrightarrow> (\<forall>v. env k = Some v \<longrightarrow> parse v \<noteq> None)"

lemma merge_settings_Inr:
  "merge_settings parse bad env bs c = Inr c' \<longleftrightarrow>
     (\<forall>b \<in> set bs. readable parse env (fst b)) \<and> c' = fold (assign parse env) bs c"
  by (induction parse bad env bs c rule: merge_settings.induct)
    (auto simp: readable_def assign_def split: option.splits)

lemma assign_frame:
  "(\<And>x c. get (snd b x c) = get c) \<Longrightarrow> get (assign parse env b c) = get c"
  by (simp add: assign_def split: option.splits)

lemma fold_assign_frame:
  "(\<And>b x c. b \<in> set bs \<Longrightarrow> get (snd b x c) = get c) \<Longrightarrow> get (fold (assign parse env) bs c) = get c"
proof (induction bs arbitrary: c)
  case (Cons b bs)
  then show ?case using assign_frame [of get b parse env c] by simp
qed simp

lemma fold_assign_hit:
  assumes "distinct (map fst bs)" "b \<in> set bs" "\<And>x c. get (snd b x c) = x"
    and "\<And>b' x c. b' \<in> set bs \<Longrightarrow> fst b' \<noteq> fst b \<Longrightarrow> get (snd b' x c) = get c"
  shows "get (fold (assign parse env) bs c)
    = (case Option.bind (env (fst b)) parse of None \<Rightarrow> get c | Some x \<Rightarrow> x)"
proof -
  obtain us vs where bs: "bs = us @ b # vs" using split_list [OF assms(2)] by blast
  have other: "get (snd b' x c) = get c" if "b' \<in> set us \<union> set vs" for b' x c
  proof -
    have "fst b' \<in> fst ` (set us \<union> set vs)" using that by (rule imageI)
    moreover have "fst b \<notin> fst ` (set us \<union> set vs)" using assms(1) unfolding bs by auto
    ultimately have "fst b' \<noteq> fst b" by metis
    then show ?thesis using that assms(4) [of b'] unfolding bs by auto
  qed
  have "get (fold (assign parse env) bs c) = get (assign parse env b (fold (assign parse env) us c))"
    unfolding bs using fold_assign_frame [of vs get] other by simp
  also have "\<dots> = (case Option.bind (env (fst b)) parse of
      None \<Rightarrow> get (fold (assign parse env) us c) | Some x \<Rightarrow> x)"
    by (simp add: assign_def assms(3) split: option.splits)
  also have "get (fold (assign parse env) us c) = get c"
    using fold_assign_frame [of us get] other by simp
  finally show ?thesis .
qed

section \<open>The order of the maps\<close>

definition orders_ok :: "setting_orders \<Rightarrow> bool" where
  "orders_ok so \<longleftrightarrow>
     mset (so_strings so) = mset string_settings \<and> mset (so_ints so) = mset int_settings
     \<and> mset (so_bools so) = mset bool_settings \<and> mset (so_durations so) = mset duration_settings"

definition settings_commute :: "(string \<times> ('v \<Rightarrow> config \<Rightarrow> config)) list \<Rightarrow> bool" where
  "settings_commute bs \<longleftrightarrow>
     (\<forall>b \<in> set bs. \<forall>b' \<in> set bs. b \<noteq> b' \<longrightarrow> (\<forall>x y c. snd b x (snd b' y c) = snd b' y (snd b x c)))"

lemma settings_commute_map:
  assumes "sorted_wrt (\<lambda>b b'. \<forall>x y c. snd b x (snd b' y c) = snd b' y (snd b x c)) bs"
  shows "settings_commute bs"
  unfolding settings_commute_def
proof (intro ballI impI allI)
  fix a a' x y c assume "a \<in> set bs" "a' \<in> set bs" "a \<noteq> a'"
  then show "snd a x (snd a' y c) = snd a' y (snd a x c)"
    using assms
  proof (induction bs)
    case (Cons b bs)
    then consider "a = b" "a' \<in> set bs" | "a' = b" "a \<in> set bs" | "a \<in> set bs" "a' \<in> set bs" by auto
    then show ?case using Cons by cases simp_all
  qed simp
qed

lemma merge_settings_order:
  assumes "settings_commute bs" "mset bs' = mset bs"
  shows "merge_settings parse bad env bs' c = Inr c' \<longleftrightarrow> merge_settings parse bad env bs c = Inr c'"
proof -
  have "fold (assign parse env) bs' = fold (assign parse env) bs"
  proof (rule fold_multiset_equiv)
    fix b b' assume "b \<in> set bs'" "b' \<in> set bs'"
    then have "b \<in> set bs" "b' \<in> set bs" using mset_eq_setD [OF assms(2)] by simp_all
    then have "assign parse env b (assign parse env b' c) = assign parse env b' (assign parse env b c)" for c
      using assms(1) unfolding settings_commute_def assign_def
      by (cases "b = b'") (auto split: option.splits)
    then show "assign parse env b \<circ> assign parse env b' = assign parse env b' \<circ> assign parse env b"
      by (simp add: fun_eq_iff)
  qed (rule assms(2))
  then show ?thesis using mset_eq_setD [OF assms(2)] by (simp add: merge_settings_Inr)
qed

lemma string_settings_commute: "settings_commute string_settings"
  by (rule settings_commute_map) (simp add: string_settings_def)

lemma int_settings_commute: "settings_commute int_settings"
  by (rule settings_commute_map) (simp add: int_settings_def)

lemma bool_settings_commute: "settings_commute bool_settings"
  by (rule settings_commute_map) (simp add: bool_settings_def)

lemma duration_settings_commute: "settings_commute duration_settings"
  by (rule settings_commute_map) (simp add: duration_settings_def)

text \<open>
  C39. The environment is read out of Go maps, whose order is random, and the result does not
  depend on it: whichever order the runtime picks, the same environments are accepted, with the
  same configuration.
\<close>
theorem env_order_does_not_matter:
  assumes "orders_ok so"
  shows "merge_env so env c = Inr c' \<longleftrightarrow> merge_env written_order env c = Inr c'"
proof -
  note order =
    merge_settings_order [OF string_settings_commute, of "so_strings so"]
    merge_settings_order [OF int_settings_commute, of "so_ints so"]
    merge_settings_order [OF bool_settings_commute, of "so_bools so"]
    merge_settings_order [OF duration_settings_commute, of "so_durations so"]
  show ?thesis
    using assms by (simp add: merge_env_def guard_simps orders_ok_def written_order_def order Let_def)
qed

lemma env_order_does_not_matter_witness:
  "orders_ok (written_order\<lparr>so_bools := rev bool_settings\<rparr>)
   \<and> (merge_env (written_order\<lparr>so_bools := rev bool_settings\<rparr>) [''SEI_DEMO_MODE'' \<mapsto> ''true''] default_config
        = Inr default_config
      \<longleftrightarrow> merge_env written_order [''SEI_DEMO_MODE'' \<mapsto> ''true''] default_config = Inr default_config)"
proof -
  have "orders_ok (written_order\<lparr>so_bools := rev bool_settings\<rparr>)"
    by (simp add: orders_ok_def written_order_def)
  then show ?thesis using env_order_does_not_matter by blast
qed

section \<open>Precedence\<close>

text \<open>The flags a command line gives, in order; the value of a flag is the last one given.\<close>

fun given_flags :: "(string \<rightharpoonup> 'a flag) \<Rightarrow> string list \<Rightarrow> (string \<times> given) list" where
  "given_flags fs [] = []"
| "given_flags fs (a # rest) =
     (case parse_one fs a rest of Inl err \<Rightarrow> [] | Inr (g, rest') \<Rightarrow> g # given_flags fs rest')"

definition latest :: "string \<Rightarrow> (string \<times> given) list \<Rightarrow> string option" where
  "latest name gs =
     fold (\<lambda>g acc. case g of (k, GivenString v) \<Rightarrow> if k = name then Some v else acc | _ \<Rightarrow> acc) gs None"

lemma parse_flags_given:
  "snd (parse_flags fs argv st) = fold (apply_given fs) (given_flags fs argv) st"
  by (induction fs argv st rule: parse_flags.induct) (auto split: sum.splits prod.splits)

text \<open>A field that one flag and one variable set, and nothing else does.\<close>

definition set_by_flag :: "(string \<times> 'a flag) list \<Rightarrow> ('a \<Rightarrow> string) \<Rightarrow> string \<Rightarrow> bool" where
  "set_by_flag fs get flag \<longleftrightarrow>
     (case map_of fs flag of Some (StringFlag s) \<Rightarrow> True | _ \<Rightarrow> False)
     \<and> list_all (\<lambda>(name, f). case f of
          StringFlag s \<Rightarrow> (\<forall>v c. get (s v c) = (if name = flag then v else get c))
        | BoolFlag s \<Rightarrow> (\<forall>v c. get (s v c) = get c)) fs"

lemma get_apply_given:
  assumes "set_by_flag fs get flag"
  shows "get (apply_given (map_of fs) g c)
    = (case g of (k, GivenString v) \<Rightarrow> if k = flag then v else get c | _ \<Rightarrow> get c)"
proof -
  have "case f of StringFlag s \<Rightarrow> (\<forall>v c. get (s v c) = (if name = flag then v else get c))
      | BoolFlag s \<Rightarrow> (\<forall>v c. get (s v c) = get c)" if "map_of fs name = Some f" for name f
    using assms bspec [OF _ map_of_SomeD [OF that]] unfolding set_by_flag_def list_all_iff by blast
  note field = this
  obtain k given where g: "g = (k, given)" by fastforce
  show ?thesis
  proof (cases "map_of fs k")
    case None
    with assms show ?thesis
      by (auto simp: g apply_given_def set_by_flag_def split: given.splits)
  next
    case (Some f)
    with field [OF Some] assms show ?thesis
      by (auto simp: g apply_given_def set_by_flag_def split: given.splits flag.splits)
  qed
qed

lemma get_given_flags:
  assumes "set_by_flag fs get flag"
  shows "get (fold (apply_given (map_of fs)) gs c) = (case latest flag gs of Some v \<Rightarrow> v | None \<Rightarrow> get c)"
proof (induction gs rule: rev_induct)
  case (snoc g gs)
  then show ?case
    by (simp add: latest_def get_apply_given [OF assms] split: prod.splits given.splits)
qed (simp add: latest_def)

definition frames :: "(config \<Rightarrow> string) \<Rightarrow> (string \<times> ('v \<Rightarrow> config \<Rightarrow> config)) list \<Rightarrow> bool" where
  "frames get bs \<longleftrightarrow> list_all (\<lambda>b. \<forall>v c. get (snd b v c) = get c) bs"

definition set_by_env :: "(config \<Rightarrow> string) \<Rightarrow> string \<Rightarrow> bool" where
  "set_by_env get var \<longleftrightarrow>
     list_ex (\<lambda>b. fst b = var) string_settings
     \<and> list_all (\<lambda>b. \<forall>v c. get (snd b v c) = (if fst b = var then v else get c)) string_settings
     \<and> frames get int_settings \<and> frames get bool_settings \<and> frames get duration_settings
     \<and> (\<forall>v c. get (c\<lparr>cf_demo_commands := v\<rparr>) = get c)"

lemma frames_fold: "frames get bs \<Longrightarrow> get (fold (assign parse env) bs c) = get c"
  by (rule fold_assign_frame) (auto simp: frames_def list_all_iff)

lemma distinct_string_settings: "distinct (map fst string_settings)"
  by (simp add: string_settings_def)

lemma get_merge_env:
  assumes "set_by_env get var" "orders_ok so" "merge_env so env c = Inr c'"
  shows "get c' = (case env var of Some v \<Rightarrow> v | None \<Rightarrow> get c)"
proof -
  have "merge_env written_order env c = Inr c'"
    using env_order_does_not_matter [OF assms(2)] assms(3) by blast
  then obtain d where c': "c' = fold (assign parse_duration env) duration_settings
      (fold (assign parse_bool env) bool_settings
        (case env ''SEI_DEMO_COMMANDS'' of None \<Rightarrow> fold (assign parse_int64 env) int_settings d
         | Some v \<Rightarrow> (fold (assign parse_int64 env) int_settings d)\<lparr>cf_demo_commands := demo_command_list v\<rparr>))"
    and d: "d = fold (assign Some env) string_settings c"
    by (auto simp: merge_env_def guard_simps written_order_def merge_settings_Inr)
  obtain b where b: "b \<in> set string_settings" "fst b = var"
    using assms(1) by (auto simp: set_by_env_def list_ex_iff)
  have field: "get (snd b' v c) = (if fst b' = var then v else get c)" if "b' \<in> set string_settings" for b' v c
    using assms(1) that by (auto simp: set_by_env_def list_all_iff)
  have "get c' = get d"
    unfolding c' using assms(1) by (simp add: set_by_env_def frames_fold split: option.splits)
  also have "\<dots> = (case Option.bind (env (fst b)) Some of None \<Rightarrow> get c | Some x \<Rightarrow> x)"
    unfolding d by (rule fold_assign_hit [OF distinct_string_settings b(1)]) (simp_all add: field b)
  finally show ?thesis by (simp add: b(2) split: option.splits)
qed

definition layered_settings :: "(string \<times> string \<times> (config \<Rightarrow> string)) list" where
  "layered_settings =
     [(''listen-addr'', ''SEI_LISTEN_ADDR'', cf_listen_addr),
      (''mysql-dsn'', ''SEI_MYSQL_DSN'', cf_mysql_dsn),
      (''worker-command-url'', ''SEI_WORKER_COMMAND_URL'', cf_worker_command_url),
      (''worker-command-key'', ''SEI_WORKER_COMMAND_KEY'', cf_worker_command_key),
      (''worker-events-url'', ''SEI_WORKER_EVENTS_URL'', cf_worker_events_url),
      (''worker-events-key'', ''SEI_WORKER_EVENTS_KEY'', cf_worker_events_key),
      (''metrics-provider'', ''SEI_METRICS_PROVIDER'', cf_metrics_provider),
      (''ui-dir'', ''SEI_UI_DIR'', cf_ui_dir),
      (''log-level'', ''SEI_LOG_LEVEL'', cf_log_level),
      (''log-format'', ''SEI_LOG_FORMAT'', cf_log_format)]"

lemma layered_by_flag:
  "list_all (\<lambda>(flag, var, get). set_by_flag config_flags get flag) layered_settings"
  by (simp add: layered_settings_def set_by_flag_def config_flags_def)

lemma layered_by_env: "list_all (\<lambda>(flag, var, get). set_by_env get var) layered_settings"
  by (simp add: layered_settings_def set_by_env_def frames_def string_settings_def int_settings_def
      bool_settings_def duration_settings_def)

lemma accept_config_Inr: "accept_config r = Inr c \<longleftrightarrow> r = (None, c) \<and> validate_config c = []"
  by (auto simp: accept_config_def Let_def split: prod.splits option.splits if_splits)

lemma load_Inr:
  "load os argv = Inr c \<longleftrightarrow>
     (\<exists>base c1. (if config_path os argv \<noteq> [] then merge_file os (config_path os argv) default_config
                 else Inr default_config) = Inr base
        \<and> merge_env (os_orders os) (os_env os) base = Inr c1
        \<and> parse_flags (map_of config_flags) argv c1 = (None, c) \<and> validate_config c = [])"
  by (simp add: load_def guard_simps accept_config_Inr Let_def)


definition sample_os :: os where
  "sample_os =
     \<lparr>os_env = [''SEI_MYSQL_DSN'' \<mapsto> ''sei@/sei'', ''SEI_LOG_LEVEL'' \<mapsto> ''warn''],
      os_file = (\<lambda>path. Inr path),
      os_yaml = (\<lambda>text c. Inr (c\<lparr>cf_log_level := ''error'', cf_log_format := ''json''\<rparr>)),
      os_orders = written_order\<rparr>"

definition sample_argv :: "string list" where
  "sample_argv = [''-config'', ''seid.yml'', ''--log-level=debug'', ''-demo-mode'']"

lemma sample_load: "\<exists>c. load sample_os sample_argv = Inr c \<and> cf_log_format c = ''json''"
proof -
  have "(case load sample_os sample_argv of Inr c \<Rightarrow> cf_log_format c = ''json'' | Inl e \<Rightarrow> False)"
    by code_simp
  then show ?thesis by (auto split: sum.splits)
qed


text \<open>
  The first parse, which looks for \<open>-config\<close>, knows no other flag and stops at the first one: a
  configuration file named after another flag is not read.
\<close>

lemma config_after_another_flag_is_ignored:
  "config_path sample_os [''-log-level'', ''debug'', ''-config'', ''seid.yml''] = []"
  "config_path sample_os [''-config'', ''seid.yml'', ''-log-level'', ''debug''] = ''seid.yml''"
  by code_simp+

section \<open>What a loaded configuration guarantees\<close>

lemma complain_Nil [simp]: "complain b m = [] \<longleftrightarrow> \<not> b"
  by (simp add: complain_def)

lemma check_demo_command_Nil:
  "check_demo_command name = [] \<longleftrightarrow> name \<in> set demo_command_names"
  by (auto simp: check_demo_command_def is_demo_command_def list_ex_iff demo_command_names_def
      DemoCommandNotify_def DemoCommandAcknowledge_def DemoCommandDowntime_def
      DemoCommandReschedule_def DemoCommandSubmitResult_def DemoCommandToggle_def)

lemma loaded_config_facts:
  assumes "load os argv = Inr c"
  shows "1 \<le> cf_default_page_size c \<and> cf_default_page_size c \<le> cf_max_page_size c"
    and "0 < cf_session_ttl c \<and> 0 < cf_query_timeout c \<and> 1 \<le> cf_demo_max_targets c
      \<and> 1 \<le> cf_max_event_clients c \<and> 0 \<le> cf_audit_retention_days c"
    and "\<forall>name \<in> set (cf_demo_commands c). \<exists>perm. demo_command_permission name = Some perm
      \<and> perm \<in> set command_permissions \<and> perm \<noteq> PermCmdNotification"
proof -
  from assms have v: "validate_config c = []" unfolding load_Inr by blast
  then show "1 \<le> cf_default_page_size c \<and> cf_default_page_size c \<le> cf_max_page_size c"
    "0 < cf_session_ttl c \<and> 0 < cf_query_timeout c \<and> 1 \<le> cf_demo_max_targets c
      \<and> 1 \<le> cf_max_event_clients c \<and> 0 \<le> cf_audit_retention_days c"
    by (simp_all add: validate_config_def)
  show "\<forall>name \<in> set (cf_demo_commands c). \<exists>perm. demo_command_permission name = Some perm
      \<and> perm \<in> set command_permissions \<and> perm \<noteq> PermCmdNotification"
  proof
    fix name assume "name \<in> set (cf_demo_commands c)"
    with v have "check_demo_command name = []" by (auto simp: validate_config_def)
    then have "name \<in> set demo_command_names" by (simp add: check_demo_command_Nil)
    then have "\<exists>perm. demo_command_permission name = Some perm"
      by (auto simp: demo_command_names_def demo_command_permission_def DemoCommandAcknowledge_def
          DemoCommandDowntime_def DemoCommandReschedule_def DemoCommandSubmitResult_def
          DemoCommandToggle_def)
    then show "\<exists>perm. demo_command_permission name = Some perm
        \<and> perm \<in> set command_permissions \<and> perm \<noteq> PermCmdNotification"
      using demo_command_permission_command by blast
  qed
qed

text \<open>
  A configuration that loads can work: pages have a size, sessions, queries and the demo have
  positive limits, and each command it opens to the public demo account is one the permission
  table knows, a command permission other than the custom notification.
\<close>
theorem loaded_config_is_sound:
  assumes "load os argv = Inr c"
  shows "1 \<le> cf_default_page_size c \<and> cf_default_page_size c \<le> cf_max_page_size c
    \<and> 0 < cf_session_ttl c \<and> 0 < cf_query_timeout c \<and> 1 \<le> cf_demo_max_targets c
    \<and> 1 \<le> cf_max_event_clients c \<and> 0 \<le> cf_audit_retention_days c
    \<and> (\<forall>name \<in> set (cf_demo_commands c). \<exists>perm. demo_command_permission name = Some perm
          \<and> perm \<in> set command_permissions \<and> perm \<noteq> PermCmdNotification)"
  using loaded_config_facts [OF assms] by simp

lemma loaded_config_is_sound_witness:
  "\<exists>c. load sample_os sample_argv = Inr c \<and> 0 < cf_session_ttl c"
  using sample_load loaded_config_is_sound by blast

end
