(* ===== verification/Domain.thy ===== *)
theory Domain
  imports GoStrings
begin

text \<open>
  The types that cross the boundary between the repositories and the HTTP handlers
  (\<^verbatim>\<open>internal/domain\<close>): the two kinds of object, the core's state numbers and their names, and
  the rows the API returns. A Go string type (\<open>Kind\<close>) stays a string, because values outside
  the two constants reach the code and are refused by it.
\<close>

section \<open>Kinds and states\<close>

type_synonym kind = string

definition KindHost :: kind where "KindHost = ''host''"
definition KindService :: kind where "KindService = ''service''"

lemma kinds_distinct [simp]:
  "KindHost \<noteq> KindService" "KindService \<noteq> KindHost" "KindHost \<noteq> []" "KindService \<noteq> []"
  by (simp_all add: KindHost_def KindService_def)

definition HostUp :: int where "HostUp = 0"
definition HostDown :: int where "HostDown = 1"
definition HostUnreachable :: int where "HostUnreachable = 2"

definition ServiceOK :: int where "ServiceOK = 0"
definition ServiceWarning :: int where "ServiceWarning = 1"
definition ServiceCritical :: int where "ServiceCritical = 2"
definition ServiceUnknown :: int where "ServiceUnknown = 3"

definition host_state_string :: "int \<Rightarrow> string" where
  "host_state_string s =
     (if s = HostUp then ''up''
      else if s = HostDown then ''down''
      else if s = HostUnreachable then ''unreachable''
      else ''unknown'')"

definition service_state_string :: "int \<Rightarrow> string" where
  "service_state_string s =
     (if s = ServiceOK then ''ok''
      else if s = ServiceWarning then ''warning''
      else if s = ServiceCritical then ''critical''
      else if s = ServiceUnknown then ''unknown''
      else ''unknown'')"

definition notification_reason :: "int \<Rightarrow> string" where
  "notification_reason code =
     (if code = 0 then ''normal''
      else if code = 1 then ''acknowledgement''
      else if code = 2 then ''flapping_start''
      else if code = 3 then ''flapping_stop''
      else if code = 4 then ''flapping_disabled''
      else if code = 5 then ''downtime_start''
      else if code = 6 then ''downtime_end''
      else if code = 7 then ''downtime_cancelled''
      else if code = 8 then ''custom''
      else ''unknown'')"

section \<open>Rows of the status tables\<close>

text \<open>The fields only the detail endpoint fills; a list leaves them at their zero values.\<close>

record host_detail =
  hd_long_output :: string
  hd_check_command :: string
  hd_event_handler :: string
  hd_check_timeperiod :: string
  hd_node_name :: string
  hd_check_interval :: int
  hd_retry_interval :: int
  hd_percent_change :: float64
  hd_last_time_up :: int64
  hd_last_time_down :: int64
  hd_last_time_unreach :: int64
  hd_last_notified :: int64
  hd_next_notify :: int64
  hd_notify_number :: int

definition no_host_detail :: host_detail where
  "no_host_detail = \<lparr>hd_long_output = [], hd_check_command = [], hd_event_handler = [],
     hd_check_timeperiod = [], hd_node_name = [], hd_check_interval = 0, hd_retry_interval = 0,
     hd_percent_change = 0, hd_last_time_up = 0, hd_last_time_down = 0, hd_last_time_unreach = 0,
     hd_last_notified = 0, hd_next_notify = 0, hd_notify_number = 0\<rparr>"

record host_status =
  hs_hostname :: string
  hs_state :: int
  hs_state_text :: string
  hs_is_hard :: bool
  hs_output :: string
  hs_perfdata :: string
  hs_current_attempt :: int
  hs_max_attempts :: int
  hs_last_check :: int64
  hs_next_check :: int64
  hs_last_state_change :: int64
  hs_last_hard_change :: int64
  hs_status_updated :: int64
  hs_acknowledged :: bool
  hs_ack_type :: int
  hs_in_downtime :: bool
  hs_downtime_depth :: int
  hs_is_flapping :: bool
  hs_notifications_on :: bool
  hs_active_checks_on :: bool
  hs_passive_checks_on :: bool
  hs_is_passive_check :: bool
  hs_event_handler_on :: bool
  hs_flap_detection_on :: bool
  hs_latency :: float64
  hs_execution_time :: float64
  hs_detail :: host_detail

definition host_pending :: "host_status \<Rightarrow> bool" where
  "host_pending h \<longleftrightarrow> hs_last_check h = 0"

record service_detail =
  sd_long_output :: string
  sd_check_command :: string
  sd_event_handler :: string
  sd_check_timeperiod :: string
  sd_node_name :: string
  sd_check_interval :: int
  sd_retry_interval :: int
  sd_percent_change :: float64
  sd_last_time_ok :: int64
  sd_last_time_warning :: int64
  sd_last_time_crit :: int64
  sd_last_time_unknown :: int64
  sd_last_notified :: int64
  sd_next_notify :: int64
  sd_notify_number :: int

definition no_service_detail :: service_detail where
  "no_service_detail = \<lparr>sd_long_output = [], sd_check_command = [], sd_event_handler = [],
     sd_check_timeperiod = [], sd_node_name = [], sd_check_interval = 0, sd_retry_interval = 0,
     sd_percent_change = 0, sd_last_time_ok = 0, sd_last_time_warning = 0, sd_last_time_crit = 0,
     sd_last_time_unknown = 0,
     sd_last_notified = 0, sd_next_notify = 0, sd_notify_number = 0\<rparr>"

record service_status =
  ss_hostname :: string
  ss_description :: string
  ss_state :: int
  ss_state_text :: string
  ss_is_hard :: bool
  ss_output :: string
  ss_perfdata :: string
  ss_current_attempt :: int
  ss_max_attempts :: int
  ss_last_check :: int64
  ss_next_check :: int64
  ss_last_state_change :: int64
  ss_last_hard_change :: int64
  ss_status_updated :: int64
  ss_acknowledged :: bool
  ss_ack_type :: int
  ss_in_downtime :: bool
  ss_downtime_depth :: int
  ss_is_flapping :: bool
  ss_notifications_on :: bool
  ss_active_checks_on :: bool
  ss_passive_checks_on :: bool
  ss_is_passive_check :: bool
  ss_event_handler_on :: bool
  ss_flap_detection_on :: bool
  ss_latency :: float64
  ss_execution_time :: float64
  ss_detail :: service_detail

definition service_pending :: "service_status \<Rightarrow> bool" where
  "service_pending s \<longleftrightarrow> ss_last_check s = 0"

section \<open>Problems\<close>

record problem =
  pr_kind :: kind
  pr_hostname :: string
  pr_description :: string
  pr_state :: int
  pr_state_text :: string
  pr_is_hard :: bool
  pr_output :: string
  pr_current_attempt :: int
  pr_max_attempts :: int
  pr_last_check :: int64
  pr_last_state_change :: int64
  pr_acknowledged :: bool
  pr_in_downtime :: bool
  pr_is_flapping :: bool
  pr_notifications_on :: bool
  pr_host_is_down :: bool

section \<open>Downtimes and acknowledgements\<close>

record downtime =
  dt_kind :: kind
  dt_hostname :: string
  dt_description :: string
  dt_internal_id :: uint32
  dt_node_name :: string
  dt_author :: string
  dt_comment :: string
  dt_entry_time :: int64
  dt_start_time :: int64
  dt_end_time :: int64
  dt_is_fixed :: bool
  dt_duration :: int64
  dt_was_started :: bool
  dt_actual_start :: int64
  dt_triggered_by :: uint32
  dt_actual_end :: int64
  dt_was_cancelled :: bool

definition downtime_running :: "downtime \<Rightarrow> int64 \<Rightarrow> bool" where
  "downtime_running d now \<longleftrightarrow>
     dt_was_started d \<and> dt_start_time d \<le> now \<and> now < dt_end_time d"

record acknowledgement =
  ak_kind :: kind
  ak_hostname :: string
  ak_description :: string
  ak_entry_time :: int64
  ak_state :: int
  ak_state_text :: string
  ak_author :: string
  ak_comment :: string
  ak_is_sticky :: bool
  ak_persistent :: bool
  ak_notify_contacts :: bool
  ak_ack_type :: int

record log_entry =
  le_id :: int
  le_entry_time :: int64
  le_type :: int
  le_data :: string
  le_node_name :: string

section \<open>Dashboard figures\<close>

record hour_bucket =
  hb_t :: int64
  hb_count :: int64

record oldest_problem =
  op_kind :: kind
  op_hostname :: string
  op_description :: string
  op_state :: int
  op_state_text :: string
  op_since :: int64

record state_counts =
  sc_total :: int64
  sc_pending :: int64
  sc_by_state :: "string \<rightharpoonup> int64"
  sc_problems :: int64
  sc_unhandled :: int64
  sc_acknowledged :: int64
  sc_in_downtime :: int64
  sc_flapping :: int64
  sc_notifications_disabled :: int64
  sc_active_checks_disabled :: int64

record node =
  nd_name :: string
  nd_hosts :: int64
  nd_services :: int64
  nd_last_update :: int64

record window_summary =
  ws_hours :: int
  ws_since :: int64
  ws_hosts_changed :: int64
  ws_services_changed :: int64
  ws_notifications :: int64
  ws_notifications_by_hour :: "hour_bucket list"
  ws_notifications_previous :: int64
  ws_oldest :: "oldest_problem option"

record summary =
  sm_hosts :: state_counts
  sm_services :: state_counts
  sm_last_update :: int64
  sm_nodes :: "node list"
  sm_window :: window_summary

section \<open>History\<close>

record check_result =
  ck_kind :: kind
  ck_hostname :: string
  ck_description :: string
  ck_start_time :: int64
  ck_end_time :: int64
  ck_state :: int
  ck_state_text :: string
  ck_is_hard :: bool
  ck_output :: string
  ck_long_output :: string
  ck_perfdata :: string
  ck_command :: string
  ck_current_attempt :: int
  ck_max_attempts :: int
  ck_latency :: float64
  ck_execution_time :: float64
  ck_timeout :: int
  ck_early_timeout :: bool

record state_change =
  st_kind :: kind
  st_hostname :: string
  st_description :: string
  st_state_time :: int64
  st_state :: int
  st_state_text :: string
  st_last_state :: int
  st_last_state_text :: string
  st_last_hard_state :: int
  st_is_hard :: bool
  st_is_transition :: bool
  st_current_attempt :: int
  st_max_attempts :: int
  st_output :: string
  st_long_output :: string

record notification =
  nt_kind :: kind
  nt_hostname :: string
  nt_description :: string
  nt_start_time :: int64
  nt_end_time :: int64
  nt_contact :: string
  nt_command_name :: string
  nt_command_args :: string
  nt_state :: int
  nt_state_text :: string
  nt_reason_type :: int
  nt_reason :: string
  nt_output :: string
  nt_ack_author :: string
  nt_ack_data :: string

section \<open>Performance data\<close>

record metric_meta =
  mm_hostname :: string
  mm_description :: string
  mm_label :: string
  mm_unit :: string
  mm_first_seen :: int64
  mm_last_seen :: int64

record metric_query =
  mq_hostname :: string
  mq_description :: string
  mq_labels :: "string list"
  mq_from :: int64
  mq_to :: int64
  mq_max_points :: int

record point =
  pt_time :: int64
  pt_avg :: float64
  pt_min :: float64
  pt_max :: float64

record series =
  sr_label :: string
  sr_unit :: string
  sr_points :: "point list"

record metric_result =
  mr_series :: "series list"
  mr_bucket_seconds :: int64
  mr_from :: int64
  mr_to :: int64
  mr_source :: string

end
