(* ===== verification/Commands.thy ===== *)
theory Commands
  imports Domain
begin

text \<open>
  Operator actions as Naemon external commands (\<^verbatim>\<open>internal/commands/naemon.go\<close>): the target and
  its validation, the field check, one builder per action, the raw line, and the combination
  of several envelopes into one submission. A builder returns \<open>Inl\<close> its error or \<open>Inr\<close> the
  envelope.
\<close>

section \<open>Envelopes\<close>

record check_result_data =
  cr_host_name :: string
  cr_description :: string
  cr_output :: string
  cr_long_output :: string
  cr_perf_data :: string
  cr_return_code :: int
  cr_check_type :: int
  cr_start_time :: int64
  cr_end_time :: int64
  cr_exited_ok :: int

record schedule_check_data =
  sd_host_name :: string
  sd_description :: string
  sd_schedule_time :: int64

text \<open>The \<open>Data any\<close> of an envelope is one of three things, or absent.\<close>

datatype edata = RawLine string | CheckResult check_result_data | ScheduleCheck schedule_check_data

datatype envelope =
  Envelope (env_command: string) (env_data: "edata option") (env_messages: "envelope list")

section \<open>Targets and fields\<close>

record target =
  tg_kind :: kind
  tg_hostname :: string
  tg_description :: string

datatype cmd_error =
    FieldTooLong string nat
  | FieldSemicolon string
  | FieldNotSingleLine string
  | FieldControl string
  | HostRequired
  | HostWithService
  | ServiceRequired
  | BadKind
  | NeedsComment string
  | EndsBeforeStart
  | FlexibleNeedsDuration
  | AllServicesOnService
  | DowntimeIdRequired
  | BadReturnCode int kind
  | NeedsOutput
  | ResultNotSingleLine string
  | UnknownSwitch string
  | NothingToSubmit
  | TooManyCommands nat

definition is_service :: "target \<Rightarrow> bool" where
  "is_service t \<longleftrightarrow> tg_kind t = KindService"

definition target_string :: "target \<Rightarrow> string" where
  "target_string t =
     (if is_service t then tg_hostname t @ ''/'' @ tg_description t else tg_hostname t)"

definition max_field_length :: nat where "max_field_length = 255"

fun check_runes :: "string \<Rightarrow> nat list \<Rightarrow> cmd_error option" where
  "check_runes name [] = None"
| "check_runes name (r # rs) =
     (if r = 10 \<or> r = 13 then Some (FieldNotSingleLine name)
      else if is_control r then Some (FieldControl name)
      else check_runes name rs)"

definition check_field :: "string \<Rightarrow> string \<Rightarrow> cmd_error option" where
  "check_field name value =
     (if length value > max_field_length then Some (FieldTooLong name (length value))
      else if CHR '';'' \<in> set value then Some (FieldSemicolon name)
      else check_runes name (runes value))"

definition validate_target :: "target \<Rightarrow> cmd_error option" where
  "validate_target t =
     (case check_field ''host'' (tg_hostname t) of
        Some e \<Rightarrow> Some e
      | None \<Rightarrow>
          if tg_hostname t = [] then Some HostRequired
          else if tg_kind t = KindHost then
            (if tg_description t \<noteq> [] then Some HostWithService else None)
          else if tg_kind t = KindService then
            (if tg_description t = [] then Some ServiceRequired
             else check_field ''service'' (tg_description t))
          else Some BadKind)"

section \<open>Raw command lines\<close>

definition raw :: "string \<Rightarrow> string list \<Rightarrow> envelope" where
  "raw name fs =
     Envelope ''raw'' (Some (RawLine (if fs = [] then name else name @ '';'' @ join '';'' fs))) []"

definition bool_field :: "bool \<Rightarrow> string" where
  "bool_field v = (if v then ''1'' else ''0'')"

text \<open>The leading fields that name the object.\<close>

abbreviation object_fields :: "target \<Rightarrow> string list" where
  "object_fields t \<equiv>
     (if is_service t then [tg_hostname t, tg_description t] else [tg_hostname t])"

section \<open>The builders\<close>

record acknowledge_request =
  aq_target :: target
  aq_comment :: string
  aq_sticky :: bool
  aq_notify :: bool
  aq_persistent :: bool

definition acknowledge :: "acknowledge_request \<Rightarrow> string \<Rightarrow> cmd_error + envelope" where
  "acknowledge r author =
     guard_err (validate_target (aq_target r)) (
     fail_if (trim_space (aq_comment r) = []) (NeedsComment ''an acknowledgement'') (
     guard_err (check_field ''comment'' (aq_comment r)) (
     guard_err (check_field ''author'' author) (
       let name = (if is_service (aq_target r) then ''ACKNOWLEDGE_SVC_PROBLEM''
                   else ''ACKNOWLEDGE_HOST_PROBLEM'');
           fs = object_fields (aq_target r)
             @ [bool_field (aq_sticky r), bool_field (aq_notify r), bool_field (aq_persistent r),
                author, aq_comment r]
       in Inr (raw name fs)))))"

definition remove_acknowledgement :: "target \<Rightarrow> cmd_error + envelope" where
  "remove_acknowledgement t =
     guard_err (validate_target t) (
       if is_service t
       then Inr (raw ''REMOVE_SVC_ACKNOWLEDGEMENT'' [tg_hostname t, tg_description t])
       else Inr (raw ''REMOVE_HOST_ACKNOWLEDGEMENT'' [tg_hostname t]))"

record downtime_request =
  dq_target :: target
  dq_start :: int64
  dq_end :: int64
  dq_comment :: string
  dq_fixed :: bool
  dq_duration :: int64
  dq_all_services :: bool

text \<open>The length of a fixed window is a 64-bit subtraction, which wraps.\<close>

definition downtime_fields :: "downtime_request \<Rightarrow> string \<Rightarrow> string list \<Rightarrow> string list" where
  "downtime_fields r author lead =
     (let duration = (if dq_fixed r then wrap64 (dq_end r - dq_start r) else dq_duration r)
      in lead @ [fmt_int (dq_start r), fmt_int (dq_end r), bool_field (dq_fixed r), ''0'',
                 fmt_int duration, author, dq_comment r])"

definition schedule_downtime :: "downtime_request \<Rightarrow> string \<Rightarrow> cmd_error + envelope" where
  "schedule_downtime r author =
     guard_err (validate_target (dq_target r)) (
     fail_if (trim_space (dq_comment r) = []) (NeedsComment ''a downtime'') (
     guard_err (check_field ''comment'' (dq_comment r)) (
     guard_err (check_field ''author'' author) (
     fail_if (dq_end r \<le> dq_start r) EndsBeforeStart (
     fail_if (\<not> dq_fixed r \<and> dq_duration r \<le> 0) FlexibleNeedsDuration (
     fail_if (dq_all_services r \<and> is_service (dq_target r)) AllServicesOnService (
       let build = (\<lambda>name lead. raw name (downtime_fields r author lead));
           hostname = tg_hostname (dq_target r)
       in if is_service (dq_target r)
          then Inr (build ''SCHEDULE_SVC_DOWNTIME'' [hostname, tg_description (dq_target r)])
          else
            let host = build ''SCHEDULE_HOST_DOWNTIME'' [hostname]
            in if \<not> dq_all_services r then Inr host
               else
                 let services = build ''SCHEDULE_HOST_SVC_DOWNTIME'' [hostname]
                 in Inr (Envelope [] None [host, services]))))))))"

definition delete_downtime :: "kind \<Rightarrow> uint32 \<Rightarrow> cmd_error + envelope" where
  "delete_downtime k internal_id =
     fail_if (internal_id = 0) DowntimeIdRequired (
       let name = (if k = KindService then ''DEL_SVC_DOWNTIME'' else ''DEL_HOST_DOWNTIME'')
       in Inr (raw name [fmt_nat (unat internal_id)]))"

record reschedule_request =
  rq_target :: target
  rq_at :: int64
  rq_forced :: bool

definition reschedule :: "reschedule_request \<Rightarrow> int64 \<Rightarrow> cmd_error + envelope" where
  "reschedule r now =
     guard_err (validate_target (rq_target r)) (
       let at = (if rq_at r = 0 then now else rq_at r)
       in if \<not> rq_forced r then
            Inr (Envelope ''schedule_check''
              (Some (ScheduleCheck
                 \<lparr>sd_host_name = tg_hostname (rq_target r),
                  sd_description =
                    (if is_service (rq_target r) then tg_description (rq_target r) else []),
                  sd_schedule_time = at\<rparr>)) [])
          else
            let name = (if is_service (rq_target r) then ''SCHEDULE_FORCED_SVC_CHECK''
                        else ''SCHEDULE_FORCED_HOST_CHECK'')
            in Inr (raw name (object_fields (rq_target r) @ [fmt_int at])))"

record submit_result_request =
  sq_target :: target
  sq_return_code :: int
  sq_output :: string
  sq_long_output :: string
  sq_perf_data :: string

definition has_newline :: "string \<Rightarrow> bool" where
  "has_newline s \<longleftrightarrow> CHR 0x0A \<in> set s \<or> CHR 0x0D \<in> set s"

fun check_lines :: "(string \<times> string) list \<Rightarrow> cmd_error option" where
  "check_lines [] = None"
| "check_lines ((name, value) # rest) =
     (if has_newline value then Some (ResultNotSingleLine name) else check_lines rest)"

text \<open>
  The two values are checked in the iteration order of a Go map, which is unspecified:
  \<open>perf_first\<close> is the order the runtime picks.
\<close>

definition submit_result :: "bool \<Rightarrow> submit_result_request \<Rightarrow> int64 \<Rightarrow> cmd_error + envelope" where
  "submit_result perf_first r now =
     guard_err (validate_target (sq_target r)) (
       let max_code = (if \<not> is_service (sq_target r) then 2 else 3)
       in
     fail_if (sq_return_code r < 0 \<or> sq_return_code r > max_code)
       (BadReturnCode max_code (tg_kind (sq_target r))) (
     fail_if (trim_space (sq_output r) = []) NeedsOutput (
     guard_err (check_lines
       (if perf_first then [(''perf_data'', sq_perf_data r), (''output'', sq_output r)]
        else [(''output'', sq_output r), (''perf_data'', sq_perf_data r)])) (
       Inr (Envelope ''check_result''
         (Some (CheckResult
            \<lparr>cr_host_name = tg_hostname (sq_target r),
             cr_description =
               (if is_service (sq_target r) then tg_description (sq_target r) else []),
             cr_output = sq_output r,
             cr_long_output = sq_long_output r,
             cr_perf_data = sq_perf_data r,
             cr_return_code = sq_return_code r,
             cr_check_type = 1,
             cr_start_time = now,
             cr_end_time = now,
             cr_exited_ok = 1\<rparr>)) [])))))"

record notify_request =
  nq_target :: target
  nq_comment :: string
  nq_forced :: bool
  nq_broadcast :: bool

definition notify_broadcast :: int where "notify_broadcast = 1"
definition notify_forced :: int where "notify_forced = 2"

definition notify :: "notify_request \<Rightarrow> string \<Rightarrow> cmd_error + envelope" where
  "notify r author =
     guard_err (validate_target (nq_target r)) (
     fail_if (trim_space (nq_comment r) = []) (NeedsComment ''a custom notification'') (
     guard_err (check_field ''comment'' (nq_comment r)) (
     guard_err (check_field ''author'' author) (
       let options0 = (if nq_broadcast r then 0 OR notify_broadcast else 0);
           options = (if nq_forced r then options0 OR notify_forced else options0);
           name = (if is_service (nq_target r) then ''SEND_CUSTOM_SVC_NOTIFICATION''
                   else ''SEND_CUSTOM_HOST_NOTIFICATION'')
       in Inr (raw name
            (object_fields (nq_target r) @ [fmt_int options, author, nq_comment r]))))))"

definition SwitchActiveChecks :: string where "SwitchActiveChecks = ''active_checks''"
definition SwitchPassiveChecks :: string where "SwitchPassiveChecks = ''passive_checks''"
definition SwitchNotifications :: string where "SwitchNotifications = ''notifications''"
definition SwitchFlapDetection :: string where "SwitchFlapDetection = ''flap_detection''"
definition SwitchEventHandler :: string where "SwitchEventHandler = ''event_handler''"

definition switch_commands :: "string \<rightharpoonup> string \<times> string" where
  "switch_commands = map_of
     [(SwitchActiveChecks, (''HOST_CHECK'', ''SVC_CHECK'')),
      (SwitchPassiveChecks, (''PASSIVE_HOST_CHECKS'', ''PASSIVE_SVC_CHECKS'')),
      (SwitchNotifications, (''HOST_NOTIFICATIONS'', ''SVC_NOTIFICATIONS'')),
      (SwitchFlapDetection, (''HOST_FLAP_DETECTION'', ''SVC_FLAP_DETECTION'')),
      (SwitchEventHandler, (''HOST_EVENT_HANDLER'', ''SVC_EVENT_HANDLER''))]"

definition switches :: "string list" where
  "switches = [SwitchActiveChecks, SwitchPassiveChecks, SwitchNotifications,
               SwitchFlapDetection, SwitchEventHandler]"

record toggle_request =
  tq_target :: target
  tq_switch :: string
  tq_enable :: bool

definition toggle :: "toggle_request \<Rightarrow> cmd_error + envelope" where
  "toggle r =
     guard_err (validate_target (tq_target r)) (
       case switch_commands (tq_switch r) of
         None \<Rightarrow> Inl (UnknownSwitch (tq_switch r))
       | Some (host_name, service_name) \<Rightarrow>
           let verb = (if tq_enable r then ''ENABLE'' else ''DISABLE'')
           in if is_service (tq_target r)
              then Inr (raw (verb @ ''_'' @ service_name)
                     [tg_hostname (tq_target r), tg_description (tq_target r)])
              else Inr (raw (verb @ ''_'' @ host_name) [tg_hostname (tq_target r)]))"

section \<open>Bulk submissions\<close>

definition max_bulk_commands :: nat where "max_bulk_commands = 1000"

definition flatten :: "envelope list \<Rightarrow> envelope list" where
  "flatten es = concat (map (\<lambda>e. if env_messages e \<noteq> [] then env_messages e else [e]) es)"

definition bulk :: "envelope list \<Rightarrow> cmd_error + envelope" where
  "bulk envelopes =
     (let flat = flatten envelopes
      in if flat = [] then Inl NothingToSubmit
         else if length flat > max_bulk_commands then Inl (TooManyCommands (length flat))
         else if length flat = 1 then Inr (hd flat)
         else Inr (Envelope [] None flat))"

definition command_count :: "envelope \<Rightarrow> nat" where
  "command_count e = (if env_messages e \<noteq> [] then length (env_messages e) else 1)"

section \<open>Any action, as one request\<close>

text \<open>
  The builders side by side, so that a property of every command is one statement.
\<close>

datatype command_request =
    Acknowledge acknowledge_request
  | RemoveAck target
  | ScheduleDowntime downtime_request
  | DeleteDowntime kind uint32
  | Reschedule reschedule_request
  | SubmitResult bool submit_result_request
  | Notify notify_request
  | Toggle toggle_request

fun build_command :: "command_request \<Rightarrow> string \<Rightarrow> int64 \<Rightarrow> cmd_error + envelope" where
  "build_command (Acknowledge r) author now = acknowledge r author"
| "build_command (RemoveAck t) author now = remove_acknowledgement t"
| "build_command (ScheduleDowntime r) author now = schedule_downtime r author"
| "build_command (DeleteDowntime k i) author now = delete_downtime k i"
| "build_command (Reschedule r) author now = reschedule r now"
| "build_command (SubmitResult p r) author now = submit_result p r now"
| "build_command (Notify r) author now = notify r author"
| "build_command (Toggle r) author now = toggle r"

section \<open>What the core reads\<close>

text \<open>
  The raw lines an envelope carries, and the core's own parse of one: \<open>command_parse\<close> splits on
  the semicolon, with no escape.
\<close>

fun raw_lines :: "envelope \<Rightarrow> string list" where
  "raw_lines (Envelope c d ms) =
     (case d of Some (RawLine l) \<Rightarrow> [l] | _ \<Rightarrow> []) @ concat (map raw_lines ms)"

definition command_parse :: "string \<Rightarrow> string list" where
  "command_parse line = split_on (CHR '';'') line"

text \<open>
  The specification of each action: the external commands, as name and argument list, that it
  stands for. Nothing here knows about lines or separators.
\<close>

abbreviation by_kind :: "target \<Rightarrow> 'a \<Rightarrow> 'a \<Rightarrow> 'a" where
  "by_kind t h s \<equiv> (if is_service t then s else h)"

fun intended :: "command_request \<Rightarrow> string \<Rightarrow> int64 \<Rightarrow> string list list" where
  "intended (Acknowledge r) author now =
     [by_kind (aq_target r) ''ACKNOWLEDGE_HOST_PROBLEM'' ''ACKNOWLEDGE_SVC_PROBLEM''
        # object_fields (aq_target r)
        @ [bool_field (aq_sticky r), bool_field (aq_notify r), bool_field (aq_persistent r),
           author, aq_comment r]]"
| "intended (RemoveAck t) author now =
     [by_kind t ''REMOVE_HOST_ACKNOWLEDGEMENT'' ''REMOVE_SVC_ACKNOWLEDGEMENT'' # object_fields t]"
| "intended (ScheduleDowntime r) author now =
     (let args = downtime_fields r author []
      in (by_kind (dq_target r) ''SCHEDULE_HOST_DOWNTIME'' ''SCHEDULE_SVC_DOWNTIME''
            # object_fields (dq_target r) @ args)
         # (if dq_all_services r
            then [''SCHEDULE_HOST_SVC_DOWNTIME'' # tg_hostname (dq_target r) # args] else []))"
| "intended (DeleteDowntime k i) author now =
     [[if k = KindService then ''DEL_SVC_DOWNTIME'' else ''DEL_HOST_DOWNTIME'',
       fmt_nat (unat i)]]"
| "intended (Reschedule r) author now =
     (if rq_forced r
      then [by_kind (rq_target r) ''SCHEDULE_FORCED_HOST_CHECK'' ''SCHEDULE_FORCED_SVC_CHECK''
              # object_fields (rq_target r) @ [fmt_int (if rq_at r = 0 then now else rq_at r)]]
      else [])"
| "intended (SubmitResult p r) author now = []"
| "intended (Notify r) author now =
     [by_kind (nq_target r) ''SEND_CUSTOM_HOST_NOTIFICATION'' ''SEND_CUSTOM_SVC_NOTIFICATION''
        # object_fields (nq_target r)
        @ [fmt_int ((if nq_broadcast r then 1 else 0) + (if nq_forced r then 2 else 0)),
           author, nq_comment r]]"
| "intended (Toggle r) author now =
     (case switch_commands (tq_switch r) of
        None \<Rightarrow> []
      | Some (host_name, service_name) \<Rightarrow>
          [((if tq_enable r then ''ENABLE'' else ''DISABLE'') @ ''_''
              @ by_kind (tq_target r) host_name service_name)
           # object_fields (tq_target r)])"

section \<open>Facts about fields and targets\<close>

lemma check_runes_None: "check_runes name rs = None \<longleftrightarrow> (\<forall>r \<in> set rs. \<not> is_control r)"
  by (induction rs) (auto simp: is_control_def)

lemma check_field_None:
  "check_field name v = None \<longleftrightarrow>
     length v \<le> max_field_length \<and> CHR '';'' \<notin> set v \<and> (\<forall>r \<in> set (runes v). \<not> is_control r)"
  by (auto simp: check_field_def check_runes_None)

text \<open>A byte the core's log or parser would trip over: a control byte or the separator.\<close>

definition unsafe_byte :: "char \<Rightarrow> bool" where
  "unsafe_byte c \<longleftrightarrow> byte c < 32 \<or> byte c = 127"

lemma check_field_safe: "check_field name v = None \<Longrightarrow> c \<in> set v \<Longrightarrow> \<not> unsafe_byte c"
  using ascii_rune_in [of c v]
  by (fastforce simp: check_field_None unsafe_byte_def is_control_def)

lemma validate_target_None:
  "validate_target t = None \<longleftrightarrow>
     check_field ''host'' (tg_hostname t) = None \<and> tg_hostname t \<noteq> []
     \<and> (tg_kind t = KindHost \<and> tg_description t = []
        \<or> tg_kind t = KindService \<and> tg_description t \<noteq> []
          \<and> check_field ''service'' (tg_description t) = None)"
  by (auto simp: validate_target_def split: option.splits if_splits)

text \<open>A field that can be carried: no separator and no control byte.\<close>

definition carried :: "string \<Rightarrow> bool" where
  "carried v \<longleftrightarrow> (\<forall>c \<in> set v. c \<noteq> CHR '';'' \<and> \<not> unsafe_byte c)"

lemma carried_Nil [simp]: "carried []"
  by (simp add: carried_def)

lemma carried_Cons: "carried (c # v) \<longleftrightarrow> c \<noteq> CHR '';'' \<and> \<not> unsafe_byte c \<and> carried v"
  by (auto simp: carried_def)

lemma carried_append [simp]: "carried (v @ w) \<longleftrightarrow> carried v \<and> carried w"
  by (auto simp: carried_def)

lemma check_field_carried: "check_field name v = None \<Longrightarrow> carried v"
  using check_field_safe [of name v] by (auto simp: carried_def check_field_None)

lemma carried_fmt_nat [simp]: "carried (fmt_nat n)"
  by (auto simp: carried_def unsafe_byte_def go_simps dest!: fmt_nat_digits)

lemma carried_fmt_int [simp]: "carried (fmt_int x)"
  by (auto simp: carried_def unsafe_byte_def go_simps dest!: fmt_int_bytes)

lemma carried_bool_field [simp]: "carried (bool_field b)"
  by (simp add: carried_def bool_field_def unsafe_byte_def byte_def)

lemma validate_carried [simp]:
  "validate_target t = None \<Longrightarrow> carried (tg_hostname t)"
  "validate_target t = None \<Longrightarrow> carried (tg_description t)"
  by (auto simp: validate_target_None intro: check_field_carried)

lemma text_carried [simp]:
  "check_field ''comment'' v = None \<Longrightarrow> carried v"
  "check_field ''author'' v = None \<Longrightarrow> carried v"
  by (rule check_field_carried, assumption)+

lemma raw_lines_raw: "raw_lines (raw name fs) = [join '';'' (name # fs)]"
  by (simp add: raw_def join_Cons)

lemma command_parse_join:
  assumes "carried name" and "list_all carried fs"
  shows "command_parse (join '';'' (name # fs)) = name # fs"
  using assms unfolding command_parse_def
  by (intro split_on_join) (auto simp: carried_def list_all_iff)

lemma join_safe:
  assumes "carried name" and "list_all carried fs" and "c \<in> set (join '';'' (name # fs))"
  shows "\<not> unsafe_byte c"
proof -
  have "c = CHR '';'' \<or> (\<exists>w \<in> set (name # fs). c \<in> set w)"
    using set_join_subset [of c "'';''" "name # fs"] assms(3) by simp
  then show ?thesis
  proof
    assume "c = CHR '';''"
    then show ?thesis by (simp add: unsafe_byte_def byte_def)
  next
    assume "\<exists>w \<in> set (name # fs). c \<in> set w"
    with assms(1,2) show ?thesis by (auto simp: carried_def list_all_iff)
  qed
qed

section \<open>Every action says exactly what it means\<close>

text \<open>
  The envelopes of one request, as the parsed lines they should read as. \<open>reads\<close> says that an
  envelope carries exactly these commands, and that every one of them is safe to carry.
\<close>

definition reads :: "envelope \<Rightarrow> string list list \<Rightarrow> bool" where
  "reads e cmds \<longleftrightarrow>
     map command_parse (raw_lines e) = cmds
     \<and> (\<forall>l \<in> set (raw_lines e). \<forall>c \<in> set l. \<not> unsafe_byte c)"

lemma reads_raw [simp]:
  "carried name \<Longrightarrow> list_all carried fs \<Longrightarrow> reads (raw name fs) [name # fs]"
  using join_safe [of name fs]
  unfolding reads_def raw_lines_raw by (simp del: join.simps add: command_parse_join)

lemma reads_typed [simp]:
  "reads (Envelope c (Some (ScheduleCheck d)) []) []"
  "reads (Envelope c (Some (CheckResult r)) []) []"
  by (simp_all add: reads_def)

lemma reads_pair [simp]:
  "reads a [x] \<Longrightarrow> reads b [y] \<Longrightarrow> reads (Envelope c None [a, b]) [x, y]"
  unfolding reads_def by (simp add: ball_Un)

declare raw_lines.simps [simp del]

lemmas command_defs = acknowledge_def remove_acknowledgement_def schedule_downtime_def
  delete_downtime_def reschedule_def submit_result_def notify_def toggle_def

lemma carried_names [simp]:
  "carried ''ACKNOWLEDGE_HOST_PROBLEM''" "carried ''ACKNOWLEDGE_SVC_PROBLEM''"
  "carried ''REMOVE_HOST_ACKNOWLEDGEMENT''" "carried ''REMOVE_SVC_ACKNOWLEDGEMENT''"
  "carried ''SCHEDULE_HOST_DOWNTIME''" "carried ''SCHEDULE_SVC_DOWNTIME''"
  "carried ''SCHEDULE_HOST_SVC_DOWNTIME''" "carried ''DEL_HOST_DOWNTIME''"
  "carried ''DEL_SVC_DOWNTIME''" "carried ''SCHEDULE_FORCED_HOST_CHECK''"
  "carried ''SCHEDULE_FORCED_SVC_CHECK''" "carried ''SEND_CUSTOM_HOST_NOTIFICATION''"
  "carried ''SEND_CUSTOM_SVC_NOTIFICATION''" "carried ''ENABLE''" "carried ''DISABLE''"
  "carried ''_''" "carried ''0''"
  by (simp_all add: carried_def unsafe_byte_def byte_def)

lemma switch_commands_carried:
  assumes "switch_commands sw = Some (h, s)"
  shows "carried h" "carried s"
  using assms
  by (auto simp: switch_commands_def carried_def unsafe_byte_def byte_def split: if_splits)

lemma or_options [simp]:
  "(1 OR (2::int)) = 3"
  by simp

lemma acknowledge_reads:
  "acknowledge r author = Inr e \<Longrightarrow> reads e (intended (Acknowledge r) author now)"
  by (auto simp: acknowledge_def guard_simps Let_def)

lemma remove_acknowledgement_reads:
  "remove_acknowledgement t = Inr e \<Longrightarrow> reads e (intended (RemoveAck t) author now)"
  by (auto simp: remove_acknowledgement_def guard_simps Let_def split: if_splits)

lemma schedule_downtime_reads:
  "schedule_downtime r author = Inr e \<Longrightarrow> reads e (intended (ScheduleDowntime r) author now)"
  by (auto simp: schedule_downtime_def guard_simps Let_def downtime_fields_def split: if_splits)

lemma delete_downtime_reads:
  "delete_downtime k i = Inr e \<Longrightarrow> reads e (intended (DeleteDowntime k i) author now)"
  by (auto simp: delete_downtime_def guard_simps Let_def)

lemma reschedule_reads:
  "reschedule r now = Inr e \<Longrightarrow> reads e (intended (Reschedule r) author now)"
  by (auto simp: reschedule_def guard_simps Let_def split: if_splits)

lemma submit_result_reads:
  "submit_result p r now = Inr e \<Longrightarrow> reads e (intended (SubmitResult p r) author now)"
  by (auto simp: submit_result_def guard_simps Let_def)

lemma notify_reads:
  "notify r author = Inr e \<Longrightarrow> reads e (intended (Notify r) author now)"
  by (auto simp: notify_def guard_simps Let_def notify_broadcast_def notify_forced_def)

lemma toggle_reads:
  assumes "toggle r = Inr e"
  shows "reads e (intended (Toggle r) author now)"
proof -
  from assms obtain h s where hs: "switch_commands (tq_switch r) = Some (h, s)"
    by (auto simp: toggle_def guard_simps split: option.splits)
  then have "carried h" "carried s" by (simp_all add: switch_commands_carried)
  with hs assms show ?thesis
    by (auto simp: toggle_def guard_simps Let_def carried_Cons unsafe_byte_def byte_def
        split: if_splits)
qed

lemmas all_reads = acknowledge_reads remove_acknowledgement_reads schedule_downtime_reads
  delete_downtime_reads reschedule_reads submit_result_reads notify_reads toggle_reads

lemma build_command_reads:
  "build_command q author now = Inr e \<Longrightarrow> reads e (intended q author now)"
  by (cases q) (simp_all only: build_command.simps all_reads)


section \<open>Bulk submissions\<close>

text \<open>
  The single commands of a submission, and the shape every builder returns: one command, or a
  bulk whose parts are single commands and which carries nothing beside them.
\<close>

definition commands_of :: "envelope \<Rightarrow> envelope list" where
  "commands_of e = (if env_messages e \<noteq> [] then env_messages e else [e])"

definition single :: "envelope \<Rightarrow> bool" where
  "single e \<longleftrightarrow> env_messages e = [] \<and> env_command e \<noteq> [] \<and> env_data e \<noteq> None"

definition wf_envelope :: "envelope \<Rightarrow> bool" where
  "wf_envelope e \<longleftrightarrow>
     single e \<or> (env_command e = [] \<and> env_data e = None \<and> env_messages e \<noteq> []
                 \<and> (\<forall>m \<in> set (env_messages e). single m))"

lemma single_raw [simp]: "single (raw name fs)"
  by (simp add: single_def raw_def)

lemma single_typed [simp]: "single (Envelope c (Some d) []) \<longleftrightarrow> c \<noteq> []"
  by (simp add: single_def)

lemma wf_single [simp, intro]: "single e \<Longrightarrow> wf_envelope e"
  by (simp add: wf_envelope_def)

lemma wf_pair [simp]: "wf_envelope (Envelope [] None [a, b]) \<longleftrightarrow> single a \<and> single b"
  by (auto simp: wf_envelope_def single_def)

lemma wf_commands_of: "wf_envelope e \<Longrightarrow> m \<in> set (commands_of e) \<Longrightarrow> single m"
  by (auto simp: wf_envelope_def commands_of_def single_def [of e] split: if_splits)

lemma flatten_commands_of: "flatten es = concat (map commands_of es)"
  by (simp only: flatten_def commands_of_def [symmetric])

lemma flatten_Nil_iff [simp]: "flatten es = [] \<longleftrightarrow> es = []"
  by (cases es) (auto simp: flatten_def)

lemma command_count_commands_of: "command_count e = length (commands_of e)"
  by (simp add: command_count_def commands_of_def)

lemma length_flatten: "length (flatten es) = sum_list (map command_count es)"
  by (simp add: flatten_commands_of length_concat command_count_commands_of [abs_def] comp_def)

lemma build_command_wf: "build_command q author now = Inr e \<Longrightarrow> wf_envelope e"
  by (cases q) (auto simp: command_defs guard_simps Let_def split: if_splits option.splits)

text \<open>A bulk is exactly the commands it was given, in order, within the worker's ceiling.\<close>

lemma bulk_Inr:
  assumes "\<forall>e \<in> set es. wf_envelope e" and "bulk es = Inr b"
  shows "wf_envelope b" "commands_of b = flatten es" "length (flatten es) \<le> max_bulk_commands"
proof -
  have single: "\<forall>m \<in> set (flatten es). single m"
    using assms(1) by (auto simp: flatten_commands_of dest: wf_commands_of)
  show "length (flatten es) \<le> max_bulk_commands"
    using assms(2) by (auto simp: bulk_def Let_def split: if_splits)
  show "wf_envelope b" "commands_of b = flatten es"
    using assms(2) single
    by (auto simp: bulk_def Let_def commands_of_def wf_envelope_def single_def length_Suc_conv
        split: if_splits)
qed

lemma bulk_Inr_iff:
  "(\<exists>b. bulk es = Inr b) \<longleftrightarrow> es \<noteq> [] \<and> sum_list (map command_count es) \<le> max_bulk_commands"
  by (auto simp: bulk_def Let_def length_flatten)

lemma raw_lines_commands_of:
  assumes "wf_envelope e"
  shows "raw_lines e = concat (map raw_lines (commands_of e))"
  using assms
  by (cases e) (auto simp: wf_envelope_def commands_of_def single_def raw_lines.simps
      split: if_splits)

lemma raw_lines_flatten:
  assumes "\<forall>e \<in> set es. wf_envelope e"
  shows "concat (map raw_lines (flatten es)) = concat (map raw_lines es)"
  using assms
  by (induction es) (auto simp: flatten_commands_of raw_lines_commands_of)

section \<open>Properties\<close>


definition example_downtime :: downtime_request where
  "example_downtime =
     \<lparr>dq_target = \<lparr>tg_kind = ''host'', tg_hostname = ''db1'', tg_description = []\<rparr>,
      dq_start = 100, dq_end = 160, dq_comment = ''kernel'', dq_fixed = True,
      dq_duration = 0, dq_all_services = True\<rparr>"

definition example_downtime_envelope :: envelope where
  "example_downtime_envelope =
     Envelope [] None
       [raw ''SCHEDULE_HOST_DOWNTIME'' [''db1'', ''100'', ''160'', ''1'', ''0'', ''60'', ''ops'', ''kernel''],
        raw ''SCHEDULE_HOST_SVC_DOWNTIME'' [''db1'', ''100'', ''160'', ''1'', ''0'', ''60'', ''ops'', ''kernel'']]"

lemma example_downtime_built:
  "build_command (ScheduleDowntime example_downtime) ''ops'' 90 = Inr example_downtime_envelope"
  by code_simp



definition example_requests :: "command_request list" where
  "example_requests =
     [ScheduleDowntime example_downtime,
      DeleteDowntime KindService 7]"

lemma example_requests_built:
  "map_err (\<lambda>q. build_command q ''ops'' 90) example_requests
     = Inr [example_downtime_envelope, raw ''DEL_SVC_DOWNTIME'' [''7'']]"
  by code_simp


lemma downtime_args:
  assumes "schedule_downtime r author = Inr e"
  shows "\<forall>args \<in> set (map command_parse (raw_lines e)).
    \<exists>name lead. args = name # lead @ downtime_fields r author []"
  using build_command_reads [of "ScheduleDowntime r" author 0 e] assms
  by (auto simp: reads_def Let_def)

lemma downtime_fields_seven:
  "downtime_fields r author [] =
     [fmt_int (dq_start r), fmt_int (dq_end r), bool_field (dq_fixed r), ''0'',
      fmt_int (if dq_fixed r then wrap64 (dq_end r - dq_start r) else dq_duration r),
      author, dq_comment r]"
  by (simp add: downtime_fields_def)

text \<open>
  For a window that does not start before the epoch, the length an accepted downtime carries
  in every command it sends is positive: it is the length of the window when the downtime is fixed
  and the requested duration when it is flexible. The core reads it as the same number.
\<close>
theorem downtime_length_positive:
  assumes "schedule_downtime r author = Inr e"
    and "int64_range (dq_start r)" and "int64_range (dq_end r)" and "int64_range (dq_duration r)"
    and "0 \<le> dq_start r"
  shows "\<forall>args \<in> set (map command_parse (raw_lines e)). \<exists>d > 0.
    parse_int64 (args ! (length args - 3)) = Some d
    \<and> d = (if dq_fixed r then dq_end r - dq_start r else dq_duration r)"
proof -
  let ?d = "if dq_fixed r then dq_end r - dq_start r else dq_duration r"
  have guards: "dq_start r < dq_end r" "\<not> dq_fixed r \<longrightarrow> 0 < dq_duration r"
    using assms(1) by (auto simp: schedule_downtime_def guard_simps)
  then have pos: "0 < ?d" by auto
  have range: "int64_range ?d" using assms guards by (auto simp: int64_range_def)
  then have "(if dq_fixed r then wrap64 (dq_end r - dq_start r) else dq_duration r) = ?d"
    by (auto simp: wrap64_id)
  then have fs: "downtime_fields r author [] =
     [fmt_int (dq_start r), fmt_int (dq_end r), bool_field (dq_fixed r), ''0'',
      fmt_int ?d, author, dq_comment r]" by (simp only: downtime_fields_seven)
  have "(name # lead @ downtime_fields r author [])
      ! (length (name # lead @ downtime_fields r author []) - 3) = fmt_int ?d" for name lead
    unfolding fs by (simp add: nth_append nth_Cons')
  then show ?thesis
    using downtime_args [OF assms(1)] pos parse_int64_fmt_int [OF range] by fastforce
qed

theorem downtime_length_positive_witness:
  "\<exists>d > 0. parse_int64
     ((command_parse (hd (raw_lines example_downtime_envelope))) ! 6) = Some d \<and> d = 60"
proof -
  have built: "schedule_downtime example_downtime ''ops'' = Inr example_downtime_envelope"
    using example_downtime_built by simp
  have "int64_range (dq_start example_downtime)" "int64_range (dq_end example_downtime)"
    "int64_range (dq_duration example_downtime)" "0 \<le> dq_start example_downtime"
    by (simp_all add: example_downtime_def int64_range_def)
  note all = downtime_length_positive [OF built this]
  have "hd (raw_lines example_downtime_envelope) \<in> set (raw_lines example_downtime_envelope)"
    by code_simp
  moreover have "length (command_parse (hd (raw_lines example_downtime_envelope))) = 9"
    by code_simp
  moreover have "dq_fixed example_downtime" "dq_end example_downtime - dq_start example_downtime = 60"
    by (simp_all add: example_downtime_def)
  ultimately show ?thesis using all by fastforce
qed

text \<open>
  Without that premise the 64-bit subtraction wraps: this request is accepted, and what the core
  is told is a negative length.
\<close>

definition wrapping_downtime :: downtime_request where
  "wrapping_downtime = example_downtime\<lparr>dq_start := - (2 ^ 62), dq_end := 2 ^ 62, dq_all_services := False\<rparr>"

lemma downtime_length_wraps:
  "schedule_downtime wrapping_downtime ''ops''
     = Inr (raw ''SCHEDULE_HOST_DOWNTIME''
         [''db1'', fmt_int (- (2 ^ 62)), fmt_int (2 ^ 62), ''1'', ''0'', fmt_int (- (2 ^ 63)),
          ''ops'', ''kernel''])"
proof -
  have ok: "validate_target (dq_target example_downtime) = None"
    "trim_space ''kernel'' \<noteq> []" "check_field ''comment'' ''kernel'' = None"
    "check_field ''author'' ''ops'' = None"
    by code_simp+
  have "wrap64 (2 ^ 62 - - (2 ^ 62)) = - (2 ^ 63)" by (simp add: wrap64_def)
  with ok show ?thesis
    by (simp add: schedule_downtime_def wrapping_downtime_def example_downtime_def Let_def
        downtime_fields_def is_service_def KindService_def bool_field_def)
qed

lemma check_lines_None: "check_lines nvs = None \<longleftrightarrow> (\<forall>(n, v) \<in> set nvs. \<not> has_newline v)"
  by (induction nvs rule: check_lines.induct) auto

text \<open>
  A passive check result is accepted exactly when its target is valid, its return code is one
  the core knows for that kind of object, its output is not blank, and neither the output nor the
  performance data holds a line break. Which of the two is looked at first cannot change the
  verdict, and what is accepted is handed over untouched, stamped with the one reading of the
  clock.
\<close>
theorem submit_result_accepts:
  "(\<exists>e. submit_result perf_first r now = Inr e) \<longleftrightarrow>
     validate_target (sq_target r) = None
     \<and> sq_return_code r \<in> {0 .. (if is_service (sq_target r) then 3 else 2)}
     \<and> (\<exists>c \<in> set (runes (sq_output r)). \<not> is_space c)
     \<and> \<not> has_newline (sq_output r) \<and> \<not> has_newline (sq_perf_data r)"
  by (auto simp: submit_result_def guard_simps Let_def check_lines_None trim_space_empty_iff)

end
