(* ===== verification/Client.thy ===== *)
theory Client
  imports Commands Json
begin

text \<open>
  Handing an envelope to the worker's \<^verbatim>\<open>/commands\<close> endpoint (\<^verbatim>\<open>internal/commands/client.go\<close>). The
  network is a value: the requests that went out, and what will come back for the next ones.
\<close>

section \<open>The text of an envelope\<close>

definition json_int :: "int \<Rightarrow> json" where
  "json_int n = JNum (fmt_int n)"

definition data_json :: "edata \<Rightarrow> json" where
  "data_json d =
     (case d of
        RawLine s \<Rightarrow> JStr s
      | CheckResult c \<Rightarrow> JObj (
          [(''host_name'', JStr (cr_host_name c))]
          @ omit_if (cr_description c = []) (''service_description'', JStr (cr_description c))
          @ [(''output'', JStr (cr_output c))]
          @ omit_if (cr_long_output c = []) (''long_output'', JStr (cr_long_output c))
          @ omit_if (cr_perf_data c = []) (''perf_data'', JStr (cr_perf_data c))
          @ [(''return_code'', json_int (cr_return_code c)), (''check_type'', json_int (cr_check_type c)),
             (''start_time'', json_int (cr_start_time c)), (''end_time'', json_int (cr_end_time c)),
             (''exited_ok'', json_int (cr_exited_ok c))])
      | ScheduleCheck c \<Rightarrow> JObj (
          [(''host_name'', JStr (sd_host_name c))]
          @ omit_if (sd_description c = []) (''service_description'', JStr (sd_description c))
          @ [(''schedule_time'', json_int (sd_schedule_time c))]))"

fun envelope_json :: "envelope \<Rightarrow> json" where
  "envelope_json (Envelope c d ms) = JObj (
     omit_if (c = []) (''Command'', JStr c)
     @ (case d of None \<Rightarrow> [] | Some x \<Rightarrow> [(''Data'', data_json x)])
     @ omit_if (ms = []) (''messages'', JArr (map envelope_json ms)))"

section \<open>The network\<close>

record http_message =
  hm_method :: string
  hm_url :: string
  hm_headers :: "(string \<times> string) list"
  hm_body :: string

datatype wire_reply = Unreachable string | Reply int string

record wire =
  wi_sent :: "http_message list"
  wi_replies :: "wire_reply list"

definition do_request :: "http_message \<Rightarrow> wire \<Rightarrow> wire_reply \<times> wire" where
  "do_request m w =
     (case wi_replies w of
        [] \<Rightarrow> (Unreachable ''EOF'', w\<lparr>wi_sent := wi_sent w @ [m]\<rparr>)
      | r # rs \<Rightarrow> (r, w\<lparr>wi_sent := wi_sent w @ [m], wi_replies := rs\<rparr>))"

section \<open>The client\<close>

record client_result =
  sr_accepted :: int
  sr_status :: int

datatype submit_failure =
    Disabled
  | SubmitError int string       \<comment> \<open>status, 0 when the worker was not reached, and message\<close>
  | BadRequestUrl string

record client =
  cl_url :: string
  cl_key :: string
  cl_timeout :: duration

text \<open>\<open>ce_url_error\<close> is the verdict of \<open>net/url\<close> on an address, \<open>ce_read\<close> the tree of a JSON text.\<close>

record client_env =
  ce_url_error :: "string \<Rightarrow> string option"
  ce_read :: "string \<Rightarrow> json option"

definition new_client :: "string \<Rightarrow> string \<Rightarrow> duration \<Rightarrow> client" where
  "new_client url key timeout =
     \<lparr>cl_url = url, cl_key = key, cl_timeout = (if timeout \<le> 0 then 10 * second else timeout)\<rparr>"

definition client_enabled :: "client \<Rightarrow> bool" where
  "client_enabled c \<longleftrightarrow> cl_url c \<noteq> [] \<and> cl_key c \<noteq> []"

definition err_disabled :: string where
  "err_disabled = ''external commands are switched off: no worker_command_key is configured''"

definition submit_error_text :: "submit_failure \<Rightarrow> string" where
  "submit_error_text e =
     (case e of
        Disabled \<Rightarrow> err_disabled
      | SubmitError status message \<Rightarrow> message
      | BadRequestUrl why \<Rightarrow> ''commands: building request: '' @ why)"

definition retryable :: "submit_failure \<Rightarrow> bool" where
  "retryable e = (case e of SubmitError status message \<Rightarrow> status = 503 \<or> status = 0 | _ \<Rightarrow> False)"

definition request_for :: "client \<Rightarrow> envelope \<Rightarrow> http_message" where
  "request_for c e =
     \<lparr>hm_method = ''POST'', hm_url = cl_url c,
      hm_headers = [(''Content-Type'', ''application/json''), (''X-Api-Key'', cl_key c)],
      hm_body = json_text (envelope_json e)\<rparr>"

text \<open>The part of an answer the client reads: \<open>accepted\<close> and \<open>error\<close>, zero when absent.\<close>

definition reply_payload :: "client_env \<Rightarrow> string \<Rightarrow> int \<times> string" where
  "reply_payload env body =
     (case ce_read env (take 65536 body) of
        Some (JObj kvs) \<Rightarrow>
          decode_lenient
            [(''accepted'', int_field (\<lambda>n p. (n, snd p))), (''error'', string_field (\<lambda>s p. (fst p, s)))]
            kvs (0, [])
      | _ \<Rightarrow> (0, []))"

definition submit_envelope ::
  "client_env \<Rightarrow> client \<Rightarrow> envelope \<Rightarrow> wire \<Rightarrow> (client_result \<times> submit_failure option) \<times> wire" where
  "submit_envelope env c e w =
     (if \<not> client_enabled c then ((\<lparr>sr_accepted = 0, sr_status = 0\<rparr>, Some Disabled), w)
      else case ce_url_error env (cl_url c) of
        Some why \<Rightarrow> ((\<lparr>sr_accepted = 0, sr_status = 0\<rparr>, Some (BadRequestUrl why)), w)
      | None \<Rightarrow>
          (case do_request (request_for c e) w of
             (Unreachable why, w') \<Rightarrow>
               ((\<lparr>sr_accepted = 0, sr_status = 0\<rparr>,
                 Some (SubmitError 0 (''could not reach the Statusengine worker: '' @ why))), w')
           | (Reply status body, w') \<Rightarrow>
               (let (accepted, err) = reply_payload env body in
                if status = 202 then ((\<lparr>sr_accepted = accepted, sr_status = status\<rparr>, None), w')
                else
                  let message = (if err = [] then ''the worker refused the command with status '' @ fmt_int status
                                 else err)
                  in ((\<lparr>sr_accepted = 0, sr_status = status\<rparr>, Some (SubmitError status message)), w'))))"

section \<open>What goes out\<close>

text \<open>
  A submission sends nothing or exactly one request, the one built for the envelope; it sends
  nothing when the client is switched off.
\<close>

lemma do_request_sent: "do_request m w = (r, w') \<Longrightarrow> wi_sent w' = wi_sent w @ [m]"
  by (auto simp: do_request_def split: list.splits)

lemma submit_envelope_sent:
  "submit_envelope env c e w = (r, w') \<Longrightarrow>
     wi_sent w' = wi_sent w @
       (if client_enabled c \<and> ce_url_error env (cl_url c) = None then [request_for c e] else [])"
  by (auto simp: submit_envelope_def Let_def dest: do_request_sent
      split: if_splits option.splits prod.splits wire_reply.splits)

lemma submit_envelope_accepted:
  "submit_envelope env c e w = ((res, None), w') \<Longrightarrow>
     client_enabled c \<and> wi_sent w' = wi_sent w @ [request_for c e] \<and> sr_status res = 202"
  by (auto simp: submit_envelope_def Let_def dest: do_request_sent
      split: if_splits option.splits prod.splits wire_reply.splits)

lemma submit_envelope_disabled:
  "\<not> client_enabled c \<Longrightarrow> submit_envelope env c e w = ((\<lparr>sr_accepted = 0, sr_status = 0\<rparr>, Some Disabled), w)"
  by (simp add: submit_envelope_def)

section \<open>The transport\<close>

text \<open>
  The interface \<open>Transport\<close>, through which the server sees the client: a submission either sends
  nothing or the one message of its envelope, and what was accepted was sent. \<open>sent\<close> is what has
  gone out so far, \<open>message\<close> what stands for an envelope on the wire.
\<close>

locale transport =
  fixes submit :: "envelope \<Rightarrow> 'w \<Rightarrow> (client_result \<times> submit_failure option) \<times> 'w"
    and sent :: "'w \<Rightarrow> 'm list"
    and message :: "envelope \<Rightarrow> 'm"
    and active :: bool
  assumes at_most_once: "submit e w = (r, w') \<Longrightarrow> w' = w \<or> active \<and> sent w' = sent w @ [message e]"
    and accepted: "submit e w = ((res, None), w') \<Longrightarrow> active \<and> sent w' = sent w @ [message e]"
begin

text \<open>Envelopes submitted one after another, whatever becomes of each.\<close>

fun submit_each :: "envelope list \<Rightarrow> 'w \<Rightarrow> bool list \<times> 'w" where
  "submit_each [] w = ([], w)"
| "submit_each (e # es) w =
     (case submit e w of (r, w') \<Rightarrow> case submit_each es w' of (oks, w'') \<Rightarrow> ((snd r = None) # oks, w''))"

text \<open>
  Nothing is sent twice, out of order or unasked for, and every acceptance stands for a message
  that went out.
\<close>

lemma submit_each_sent:
  "submit_each es w = (oks, w') \<Longrightarrow>
     \<exists>ms. sent w' = sent w @ ms \<and> subseq ms (map message es) \<and> count_list oks True \<le> length ms"
proof (induction es arbitrary: w oks)
  case (Cons e es)
  obtain r w1 where r: "submit e w = (r, w1)" by fastforce
  obtain oks1 where 1: "submit_each es w1 = (oks1, w')" "oks = (snd r = None) # oks1"
    using Cons.prems r by (auto split: prod.splits)
  from Cons.IH [OF 1(1)] obtain ms where ms: "sent w' = sent w1 @ ms" "subseq ms (map message es)"
    "count_list oks1 True \<le> length ms" by blast
  show ?case
  proof (cases "snd r = None")
    case True
    then have "sent w1 = sent w @ [message e]" using accepted [of e w "fst r" w1] r by (metis prod.collapse)
    with ms 1(2) True show ?thesis by (intro exI [of _ "message e # ms"]) simp
  next
    case False
    from at_most_once [OF r] show ?thesis
    proof
      assume "w1 = w"
      with ms 1(2) False show ?thesis by (intro exI [of _ ms]) auto
    next
      assume "active \<and> sent w1 = sent w @ [message e]"
      with ms 1(2) False show ?thesis by (intro exI [of _ "message e # ms"]) simp
    qed
  qed
qed simp

end

interpretation worker: transport "submit_envelope env c" wi_sent "request_for c" "client_enabled c" for env c
proof unfold_locales
  fix e w r w' assume sub: "submit_envelope env c e w = (r, w')"
  then show "w' = w \<or> client_enabled c \<and> wi_sent w' = wi_sent w @ [request_for c e]"
    using submit_envelope_sent [OF sub]
    by (auto simp: submit_envelope_def Let_def split: if_splits option.splits prod.splits wire_reply.splits)
qed (blast dest: submit_envelope_accepted)

end
