(* ===== verification/Query.thy ===== *)
theory Query
  imports Domain
begin

text \<open>
  Building statements over the worker's tables (\<^verbatim>\<open>query.go\<close> and \<^verbatim>\<open>filters.go\<close> of
  \<^verbatim>\<open>internal/repository/mysql\<close>). The code assembles \<open>WHERE\<close> clauses from fragments and a list of
  bound arguments. Here a fragment is a tree: \<open>render\<close> gives the text the code writes, \<open>args\<close> the
  values it binds, and \<open>eval\<close> what MySQL makes of it on a row, in SQL's three-valued logic.
\<close>

section \<open>Values and rows\<close>

datatype sql_value = VInt int | VStr string | VFloat float64 | VNull

type_synonym sql_row = "string \<Rightarrow> sql_value"

datatype cmp = Eq | Ne | Lt | Le | Gt | Ge

fun cmp_text :: "cmp \<Rightarrow> string" where
  "cmp_text Eq = ''=''"
| "cmp_text Ne = ''<>''"
| "cmp_text Lt = ''<''"
| "cmp_text Le = ''<=''"
| "cmp_text Gt = ''>''"
| "cmp_text Ge = ''>=''"

fun cmp_holds :: "cmp \<Rightarrow> 'a::linorder \<Rightarrow> 'a \<Rightarrow> bool" where
  "cmp_holds Eq a b \<longleftrightarrow> a = b"
| "cmp_holds Ne a b \<longleftrightarrow> a \<noteq> b"
| "cmp_holds Lt a b \<longleftrightarrow> a < b"
| "cmp_holds Le a b \<longleftrightarrow> a \<le> b"
| "cmp_holds Gt a b \<longleftrightarrow> b < a"
| "cmp_holds Ge a b \<longleftrightarrow> b \<le> a"

text \<open>
  A comparison with \<open>NULL\<close> is unknown. Strings compare by their collation key \<open>coll\<close>. A column is
  only ever compared with a value of its own type.
\<close>

fun sql_compare :: "(string \<Rightarrow> string) \<Rightarrow> cmp \<Rightarrow> sql_value \<Rightarrow> sql_value \<Rightarrow> bool option" where
  "sql_compare coll op (VInt a) (VInt b) = Some (cmp_holds op a b)"
| "sql_compare coll op (VStr a) (VStr b) = Some (cmp_holds op (coll a) (coll b))"
| "sql_compare coll op _ _ = None"

fun and3 :: "bool option \<Rightarrow> bool option \<Rightarrow> bool option" where
  "and3 (Some False) _ = Some False"
| "and3 _ (Some False) = Some False"
| "and3 (Some True) (Some True) = Some True"
| "and3 _ _ = None"

definition not3 :: "bool option \<Rightarrow> bool option" where
  "not3 = map_option Not"

definition or3 :: "bool option \<Rightarrow> bool option \<Rightarrow> bool option" where
  "or3 a b = not3 (and3 (not3 a) (not3 b))"

lemma and3_True [sql_simps]: "and3 a b = Some True \<longleftrightarrow> a = Some True \<and> b = Some True"
  by (cases "(a, b)" rule: and3.cases) auto

lemma not3_simps [sql_simps]: "not3 (Some b) = Some (\<not> b)" "not3 None = None"
  by (simp_all add: not3_def)

lemma or3_True [sql_simps]: "or3 a b = Some True \<longleftrightarrow> a = Some True \<or> b = Some True"
proof -
  have "a = None \<or> a = Some True \<or> a = Some False" "b = None \<or> b = Some True \<or> b = Some False"
    by (cases a; cases b; simp)+
  then show ?thesis by (elim disjE) (simp_all add: or3_def not3_def)
qed

lemma three_valued_Some [sql_simps]:
  "and3 (Some a) (Some b) = Some (a \<and> b)" "or3 (Some a) (Some b) = Some (a \<or> b)"
  by (cases a; cases b; simp add: or3_def not3_def)+

section \<open>Patterns\<close>

text \<open>
  \<open>LIKE\<close> with the backslash as its escape: \<open>%\<close> is any sequence, \<open>_\<close> any one character. Letters
  are compared by \<open>eqc\<close>, which the collation decides.
\<close>

fun like :: "(char \<Rightarrow> char \<Rightarrow> bool) \<Rightarrow> string \<Rightarrow> string \<Rightarrow> bool" where
  "like eqc [] s \<longleftrightarrow> s = []"
| "like eqc (x # p) s \<longleftrightarrow>
     (if x = CHR ''%'' then like eqc p s \<or> (case s of [] \<Rightarrow> False | c # s' \<Rightarrow> like eqc (x # p) s')
      else if x = CHR 0x5C then
        (case p of
           [] \<Rightarrow> (case s of [c] \<Rightarrow> eqc x c | _ \<Rightarrow> False)
         | y # p' \<Rightarrow> (case s of [] \<Rightarrow> False | c # s' \<Rightarrow> eqc y c \<and> like eqc p' s'))
      else (case s of [] \<Rightarrow> False | c # s' \<Rightarrow> (x = CHR ''_'' \<or> eqc x c) \<and> like eqc p s'))"

definition escapes :: "char \<rightharpoonup> string" where
  "escapes = [CHR 0x5C \<mapsto> [CHR 0x5C, CHR 0x5C], CHR ''%'' \<mapsto> [CHR 0x5C, CHR ''%''],
              CHR ''_'' \<mapsto> [CHR 0x5C, CHR ''_'']]"

definition like_escape :: "string \<Rightarrow> string" where
  "like_escape s = ''%'' @ replace_bytes escapes s @ ''%''"

declare like.simps(2) [simp del]

lemma replace_bytes_simps [simp]:
  "replace_bytes m [] = []"
  "replace_bytes m (c # s) = (case m c of Some w \<Rightarrow> w | None \<Rightarrow> [c]) @ replace_bytes m s"
  by (simp_all add: replace_bytes_def)

lemma like_percent_iff: "like eqc (CHR ''%'' # p) s \<longleftrightarrow> (\<exists>pre post. s = pre @ post \<and> like eqc p post)"
proof (induction s)
  case Nil
  show ?case by (subst like.simps) simp
next
  case (Cons c s)
  have "like eqc (CHR ''%'' # p) (c # s) \<longleftrightarrow> like eqc p (c # s) \<or> like eqc (CHR ''%'' # p) s"
    by (subst like.simps) simp
  also have "\<dots> \<longleftrightarrow> (\<exists>pre post. c # s = pre @ post \<and> like eqc p post)"
    unfolding Cons.IH by (metis append_eq_Cons_conv append_Nil)
  finally show ?case .
qed

lemma like_percent_only: "like eqc ''%'' s"
  by (simp add: like_percent_iff)

lemma like_escaped_char:
  "like eqc ((case escapes c of Some w \<Rightarrow> w | None \<Rightarrow> [c]) @ p) t
     \<longleftrightarrow> (case t of [] \<Rightarrow> False | d # t' \<Rightarrow> eqc c d \<and> like eqc p t')"
  by (auto simp: escapes_def like.simps(2) split: list.splits)

lemma like_literal:
  "like eqc (replace_bytes escapes s @ p) t
     \<longleftrightarrow> (\<exists>mid post. t = mid @ post \<and> list_all2 eqc s mid \<and> like eqc p post)"
proof (induction s arbitrary: t)
  case (Cons c s)
  have "like eqc (replace_bytes escapes (c # s) @ p) t
      \<longleftrightarrow> (case t of [] \<Rightarrow> False | d # t' \<Rightarrow> eqc c d \<and> like eqc (replace_bytes escapes s @ p) t')"
    using like_escaped_char [of eqc c "replace_bytes escapes s @ p" t] by simp
  also have "\<dots> \<longleftrightarrow> (\<exists>mid post. t = mid @ post \<and> list_all2 eqc (c # s) mid \<and> like eqc p post)"
  proof (cases t)
    case (Cons d t')
    have "(\<exists>mid post. d # t' = mid @ post \<and> list_all2 eqc (c # s) mid \<and> like eqc p post)
      \<longleftrightarrow> eqc c d \<and> (\<exists>mid post. t' = mid @ post \<and> list_all2 eqc s mid \<and> like eqc p post)"
      by (auto simp: Cons_eq_append_conv list_all2_Cons1)
    with Cons Cons.IH [of t'] show ?thesis by simp
  qed (simp add: list_all2_Cons1)
  finally show ?case .
qed simp

lemma like_like_escape:
  "like eqc (like_escape s) t \<longleftrightarrow> (\<exists>pre mid post. t = pre @ mid @ post \<and> list_all2 eqc s mid)"
proof -
  have "like eqc (like_escape s) t \<longleftrightarrow> (\<exists>pre rest. t = pre @ rest \<and>
      (\<exists>mid post. rest = mid @ post \<and> list_all2 eqc s mid \<and> like eqc ''%'' post))"
    unfolding like_escape_def append_Cons append_Nil like_percent_iff [of eqc "replace_bytes escapes s @ ''%''"]
    by (simp only: like_literal)
  then show ?thesis using like_percent_only by blast
qed

section \<open>Fragments\<close>

datatype sexpr =
    Bound string cmp sql_value      \<comment> \<open>\<open>col op ?\<close>\<close>
  | Lit string cmp int              \<comment> \<open>\<open>col op n\<close>\<close>
  | CoalesceLit string cmp int      \<comment> \<open>\<open>COALESCE(col, 0) op n\<close>\<close>
  | InList string "int list"
  | LikeE string string
  | AnyOf "sexpr list"              \<comment> \<open>parenthesised\<close>
  | Both sexpr sexpr
  | NotP sexpr                      \<comment> \<open>parenthesised\<close>

fun render :: "sexpr \<Rightarrow> string" where
  "render (Bound col op v) = col @ '' '' @ cmp_text op @ '' ?''"
| "render (Lit col op n) = col @ '' '' @ cmp_text op @ '' '' @ fmt_int n"
| "render (CoalesceLit col op n) =
     ''COALESCE('' @ col @ '', 0) '' @ cmp_text op @ '' '' @ fmt_int n"
| "render (InList col vs) = col @ '' IN ('' @ join '','' (map (\<lambda>_. ''?'') vs) @ '')''"
| "render (LikeE col pat) = col @ '' LIKE ? ESCAPE '' @ [CHR 0x27, CHR 0x5C, CHR 0x5C, CHR 0x27]"
| "render (AnyOf es) = ''('' @ join '' OR '' (map render es) @ '')''"
| "render (Both a b) = render a @ '' AND '' @ render b"
| "render (NotP e) = ''NOT ('' @ render e @ '')''"

fun args :: "sexpr \<Rightarrow> sql_value list" where
  "args (Bound col op v) = [v]"
| "args (Lit col op n) = []"
| "args (CoalesceLit col op n) = []"
| "args (InList col vs) = map VInt vs"
| "args (LikeE col pat) = [VStr pat]"
| "args (AnyOf es) = concat (map args es)"
| "args (Both a b) = args a @ args b"
| "args (NotP e) = args e"

definition coalesce0 :: "sql_value \<Rightarrow> sql_value" where
  "coalesce0 v = (if v = VNull then VInt 0 else v)"

text \<open>\<open>cl\<close> is the collation: the key of a string and the equality of letters.\<close>

type_synonym collation = "(string \<Rightarrow> string) \<times> (char \<Rightarrow> char \<Rightarrow> bool)"

fun sql_in :: "sql_value \<Rightarrow> int list \<Rightarrow> bool option" where
  "sql_in (VInt a) vs = Some (a \<in> set vs)"
| "sql_in _ vs = None"

fun sql_like :: "collation \<Rightarrow> sql_value \<Rightarrow> string \<Rightarrow> bool option" where
  "sql_like cl (VStr s) pat = Some (like (snd cl) pat s)"
| "sql_like cl _ pat = None"

fun eval :: "collation \<Rightarrow> sql_row \<Rightarrow> sexpr \<Rightarrow> bool option" where
  "eval cl r (Bound col op v) = sql_compare (fst cl) op (r col) v"
| "eval cl r (Lit col op n) = sql_compare (fst cl) op (r col) (VInt n)"
| "eval cl r (CoalesceLit col op n) = sql_compare (fst cl) op (coalesce0 (r col)) (VInt n)"
| "eval cl r (InList col vs) = sql_in (r col) vs"
| "eval cl r (LikeE col pat) = sql_like cl (r col) pat"
| "eval cl r (AnyOf es) = fold or3 (map (eval cl r) es) (Some False)"
| "eval cl r (Both a b) = and3 (eval cl r a) (eval cl r b)"
| "eval cl r (NotP e) = not3 (eval cl r e)"

text \<open>The conditions of a statement, the clause they render to and its arguments.\<close>

type_synonym conditions = "sexpr list"

definition clause :: "conditions \<Rightarrow> string" where
  "clause c = (if c = [] then [] else '' WHERE '' @ join '' AND '' (map render c))"

definition params :: "conditions \<Rightarrow> sql_value list" where
  "params c = concat (map args c)"

definition matches :: "collation \<Rightarrow> conditions \<Rightarrow> sql_row \<Rightarrow> bool" where
  "matches cl c r \<longleftrightarrow> (\<forall>e \<in> set c. eval cl r e = Some True)"

definition add_bool :: "string \<Rightarrow> bool option \<Rightarrow> conditions" where
  "add_bool column want =
     (case want of None \<Rightarrow> [] | Some b \<Rightarrow> [Lit column Eq (if b then 1 else 0)])"

definition add_in :: "string \<Rightarrow> int list \<Rightarrow> conditions" where
  "add_in column vs = (if vs = [] then [] else [InList column vs])"

definition add_search :: "string \<Rightarrow> string list \<Rightarrow> conditions" where
  "add_search search columns =
     (if search = [] then [] else [AnyOf (map (\<lambda>col. LikeE col (like_escape search)) columns)])"

definition add_eq :: "string \<Rightarrow> string \<Rightarrow> conditions" where
  "add_eq column v = (if v = [] then [] else [Bound column Eq (VStr v)])"

definition add_depth :: "string \<Rightarrow> bool option \<Rightarrow> conditions" where
  "add_depth column want =
     (case want of None \<Rightarrow> [] | Some b \<Rightarrow> [Lit column (if b then Gt else Eq) 0])"

definition add_handled :: "string \<Rightarrow> string \<Rightarrow> bool option \<Rightarrow> conditions" where
  "add_handled ack depth want =
     (case want of
        None \<Rightarrow> []
      | Some True \<Rightarrow> [AnyOf [Lit ack Eq 1, Lit depth Gt 0]]
      | Some False \<Rightarrow> [Both (Lit ack Eq 0) (Lit depth Eq 0)])"

section \<open>The status filter\<close>

record status_filter =
  sf_search :: string
  sf_host :: string
  sf_states :: "int list"
  sf_acknowledged :: "bool option"
  sf_in_downtime :: "bool option"
  sf_flapping :: "bool option"
  sf_notifications_enabled :: "bool option"
  sf_active_checks_enabled :: "bool option"
  sf_hard_state :: "bool option"
  sf_passive :: "bool option"
  sf_problems_only :: bool
  sf_handled :: "bool option"

definition apply_status :: "status_filter \<Rightarrow> string list \<Rightarrow> int \<Rightarrow> conditions" where
  "apply_status f search_columns ok_state =
     add_eq ''hostname'' (sf_host f)
     @ add_search (sf_search f) search_columns
     @ add_in ''current_state'' (sf_states f)
     @ (if sf_problems_only f then [Bound ''current_state'' Ne (VInt ok_state)] else [])
     @ add_bool ''problem_has_been_acknowledged'' (sf_acknowledged f)
     @ add_bool ''is_flapping'' (sf_flapping f)
     @ add_bool ''notifications_enabled'' (sf_notifications_enabled f)
     @ add_bool ''active_checks_enabled'' (sf_active_checks_enabled f)
     @ add_bool ''is_hardstate'' (sf_hard_state f)
     @ add_bool ''is_passive_check'' (sf_passive f)
     @ add_depth ''scheduled_downtime_depth'' (sf_in_downtime f)
     @ add_handled ''problem_has_been_acknowledged'' ''scheduled_downtime_depth'' (sf_handled f)"


section \<open>Text and arguments agree\<close>

text \<open>
  Every statement has as many arguments as placeholders. \<open>holes\<close> counts the placeholders of a
  text; column names hold none.
\<close>

definition holes :: "string \<Rightarrow> nat" where
  "holes s = count_list s (CHR ''?'')"

lemma holes_simps [simp]:
  "holes [] = 0" "holes (s @ t) = holes s + holes t"
  "holes (c # s) = (if c = CHR ''?'' then Suc (holes s) else holes s)"
  by (simp_all add: holes_def)

lemma holes_fmt_int [simp]: "holes (fmt_int n) = 0"
  by (auto simp: holes_def count_list_0_iff byte_def dest!: fmt_int_bytes)

lemma holes_cmp_text [simp]: "holes (cmp_text op) = 0"
  by (cases op) simp_all

lemma holes_join:
  "holes (join sep ws) = sum_list (map holes ws) + holes sep * (length ws - 1)"
  by (induction sep ws rule: join.induct) auto

fun cols_of :: "sexpr \<Rightarrow> string list" where
  "cols_of (Bound col op v) = [col]"
| "cols_of (Lit col op n) = [col]"
| "cols_of (CoalesceLit col op n) = [col]"
| "cols_of (InList col vs) = [col]"
| "cols_of (LikeE col pat) = [col]"
| "cols_of (AnyOf es) = concat (map cols_of es)"
| "cols_of (Both a b) = cols_of a @ cols_of b"
| "cols_of (NotP e) = cols_of e"

definition plain :: "string \<Rightarrow> bool" where
  "plain col \<longleftrightarrow> holes col = 0"

definition well_named :: "conditions \<Rightarrow> bool" where
  "well_named c \<longleftrightarrow> list_all plain (concat (map cols_of c))"

lemma holes_render: "list_all plain (cols_of e) \<Longrightarrow> holes (render e) = length (args e)"
proof (induction e)
  case (InList col vs)
  then show ?case by (simp add: plain_def holes_join comp_def sum_list_triv)
next
  case (AnyOf es)
  then have "sum_list (map (holes \<circ> render) es) = sum_list (map (length \<circ> args) es)"
    by (intro arg_cong [where f = sum_list] map_cong) (auto simp: list_all_iff)
  then show ?case by (simp add: holes_join length_concat comp_def)
qed (simp_all add: plain_def)

lemma holes_clause: "well_named c \<Longrightarrow> holes (clause c) = length (params c)"
proof -
  assume w: "well_named c"
  have "sum_list (map (holes \<circ> render) c) = sum_list (map (length \<circ> args) c)"
    using w by (intro arg_cong [where f = sum_list] map_cong)
      (auto simp: well_named_def list_all_iff intro!: holes_render)
  then show ?thesis by (simp add: clause_def params_def holes_join length_concat comp_def)
qed

lemma well_named_append [simp]: "well_named (c @ d) \<longleftrightarrow> well_named c \<and> well_named d"
  by (simp add: well_named_def)

lemma well_named_simps [simp]:
  "well_named []" "well_named [e] \<longleftrightarrow> list_all plain (cols_of e)"
  by (simp_all add: well_named_def)

lemma well_named_Cons [simp]: "well_named (e # c) \<longleftrightarrow> list_all plain (cols_of e) \<and> well_named c"
  by (simp add: well_named_def)

lemma well_named_adds [simp]:
  "plain col \<Longrightarrow> well_named (add_eq col v)" "plain col \<Longrightarrow> well_named (add_bool col b)"
  "plain col \<Longrightarrow> well_named (add_in col vs)" "plain col \<Longrightarrow> well_named (add_depth col b)"
  "plain a \<Longrightarrow> plain d \<Longrightarrow> well_named (add_handled a d b)"
  by (auto simp: add_eq_def add_bool_def add_in_def add_depth_def add_handled_def
      split: option.splits bool.splits)

lemma well_named_search [simp]: "list_all plain cols \<Longrightarrow> well_named (add_search s cols)"
  by (auto simp: add_search_def list_all_iff)

section \<open>What the conditions mean\<close>

lemma matches_simps [sql_simps]:
  "matches cl [] r" "matches cl (c @ d) r \<longleftrightarrow> matches cl c r \<and> matches cl d r"
  "matches cl [e] r \<longleftrightarrow> eval cl r e = Some True"
  by (auto simp: matches_def)

lemma fold_or3_True: "fold or3 vs acc = Some True \<longleftrightarrow> Some True \<in> set vs \<or> acc = Some True"
  by (induction vs arbitrary: acc) (auto simp: or3_True)

lemma eval_AnyOf [sql_simps]:
  "eval cl r (AnyOf es) = Some True \<longleftrightarrow> (\<exists>e \<in> set es. eval cl r e = Some True)"
  by (auto simp: fold_or3_True image_iff) (metis)

lemma matches_add_eq [sql_simps]:
  "matches cl (add_eq col v) r \<longleftrightarrow> v = [] \<or> (\<exists>s. r col = VStr s \<and> fst cl s = fst cl v)"
  by (cases "r col") (auto simp: add_eq_def matches_def)

lemma matches_add_in [sql_simps]:
  "matches cl (add_in col vs) r \<longleftrightarrow> vs = [] \<or> (\<exists>n \<in> set vs. r col = VInt n)"
  by (cases "r col") (auto simp: add_in_def matches_def)

lemma matches_add_bool [sql_simps]:
  "matches cl (add_bool col b) r \<longleftrightarrow>
     (case b of None \<Rightarrow> True | Some v \<Rightarrow> r col = VInt (if v then 1 else 0))"
  by (cases "r col") (auto simp: add_bool_def matches_simps split: option.splits bool.splits)

text \<open>The search: some column holds the searched text, letter for letter under the collation.\<close>

fun contains :: "(char \<Rightarrow> char \<Rightarrow> bool) \<Rightarrow> string \<Rightarrow> string \<Rightarrow> bool" where
  "contains eqc s [] \<longleftrightarrow> s = []"
| "contains eqc s (c # t) \<longleftrightarrow>
     list_all2 eqc s (take (length s) (c # t)) \<or> contains eqc s t"

lemma ex_suffix_Cons: "(\<exists>pre rest. c # t = pre @ rest \<and> P rest) \<longleftrightarrow> P (c # t) \<or> (\<exists>pre rest. t = pre @ rest \<and> P rest)"
  by (auto simp: Cons_eq_append_conv)

lemma prefix_matches: "list_all2 eqc s (take (length s) t) \<longleftrightarrow> (\<exists>mid post. t = mid @ post \<and> list_all2 eqc s mid)"
proof
  assume "list_all2 eqc s (take (length s) t)"
  then show "\<exists>mid post. t = mid @ post \<and> list_all2 eqc s mid"
    by (intro exI [of _ "take (length s) t"] exI [of _ "drop (length s) t"]) simp
qed (auto simp: list_all2_lengthD)

lemma contains_suffix:
  "contains eqc s t \<longleftrightarrow> (\<exists>pre rest. t = pre @ rest \<and> list_all2 eqc s (take (length s) rest))"
proof (induction t)
  case (Cons c t)
  then show ?case unfolding contains.simps ex_suffix_Cons by simp
qed simp

lemma contains_iff: "contains eqc s t \<longleftrightarrow> (\<exists>pre mid post. t = pre @ mid @ post \<and> list_all2 eqc s mid)"
  unfolding contains_suffix prefix_matches by blast

lemma matches_add_search [sql_simps]:
  "matches cl (add_search s cols) r \<longleftrightarrow>
     s = [] \<or> (\<exists>col \<in> set cols. \<exists>t. r col = VStr t \<and> contains (snd cl) s t)"
proof -
  have "eval cl r (LikeE col (like_escape s)) = Some True \<longleftrightarrow> (\<exists>t. r col = VStr t \<and> contains (snd cl) s t)"
    for col by (cases "r col") (auto simp: like_like_escape contains_iff)
  then show ?thesis by (auto simp: add_search_def matches_simps eval_AnyOf simp del: eval.simps)
qed

text \<open>Columns that hold a number.\<close>

definition numeric :: "sql_row \<Rightarrow> string \<Rightarrow> bool" where
  "numeric r col \<longleftrightarrow> (\<exists>n. r col = VInt n)"

definition num :: "sql_row \<Rightarrow> string \<Rightarrow> int" where
  "num r col = (case r col of VInt n \<Rightarrow> n | _ \<Rightarrow> 0)"

lemma numericD: "numeric r col \<Longrightarrow> r col = VInt (num r col)"
  by (auto simp: numeric_def num_def)

lemma matches_add_depth [sql_simps]:
  "numeric r col \<Longrightarrow> matches cl (add_depth col b) r \<longleftrightarrow>
     (case b of None \<Rightarrow> True | Some v \<Rightarrow> if v then 0 < num r col else num r col = 0)"
  using numericD [of r col] by (cases b) (simp_all add: add_depth_def matches_def)

lemma matches_add_handled [sql_simps]:
  "numeric r a \<Longrightarrow> numeric r d \<Longrightarrow> matches cl (add_handled a d b) r \<longleftrightarrow>
     (case b of None \<Rightarrow> True
      | Some v \<Rightarrow> if v then num r a = 1 \<or> 0 < num r d else num r a = 0 \<and> num r d = 0)"
  by (auto simp: add_handled_def matches_simps and3_True or3_True numericD split: option.splits bool.splits)

section \<open>What reaches the text\<close>

text \<open>
  The part of a filter that decides the text of its clause: which questions were asked, the
  answers wanted for the yes/no ones, and how many states. The searched text, the host and the
  states themselves are not part of it.
\<close>

definition filter_shape :: "status_filter \<Rightarrow> status_filter" where
  "filter_shape f = f\<lparr>
     sf_search := (if sf_search f = [] then [] else ''s''),
     sf_host := (if sf_host f = [] then [] else ''h''),
     sf_states := map (\<lambda>_. 0) (sf_states f)\<rparr>"

lemma clause_cong: "map render c = map render d \<Longrightarrow> clause c = clause d"
  by (auto simp: clause_def)

lemma render_add_in: "map render (add_in col vs) = map render (add_in col (map (\<lambda>_. 0) vs))"
  by (simp add: add_in_def comp_def)

lemma render_add_eq:
  "map render (add_eq col v) = map render (add_eq col (if v = [] then [] else x # xs))"
  by (simp add: add_eq_def)

lemma render_add_search:
  "map render (add_search v cols) = map render (add_search (if v = [] then [] else x # xs) cols)"
  by (simp add: add_search_def comp_def)


definition web_filter :: "string \<Rightarrow> status_filter" where
  "web_filter search = \<lparr>sf_search = search, sf_host = [], sf_states = [1, 2], sf_acknowledged = None,
     sf_in_downtime = None, sf_flapping = None, sf_notifications_enabled = None,
     sf_active_checks_enabled = None, sf_hard_state = Some True, sf_passive = None,
     sf_problems_only = False, sf_handled = Some False\<rparr>"


end
