(* ===== verification/Listing.thy ===== *)
theory Listing
  imports Query
begin

text \<open>
  How a list endpoint reads the worker's tables: the columns a statement selects, the \<open>UNION ALL\<close>
  of the host and the service half, \<open>ORDER BY\<close> from a whitelist, \<open>LIMIT\<close>, and the scan of a row
  into a record. Every \<open>List\<close> method of \<^verbatim>\<open>internal/repository/mysql\<close> is an instance of
  \<open>list_page\<close>.
\<close>

section \<open>Select lists\<close>

datatype proj =
    Col string                          \<comment> \<open>a column as it is\<close>
  | Coal string sql_value               \<comment> \<open>\<open>COALESCE(col, v)\<close>\<close>
  | Const sql_value
  | CaseOf string "(int \<times> int) list"    \<comment> \<open>\<open>CASE col WHEN a THEN b ... ELSE 0 END\<close>\<close>
  | NonZero string                      \<comment> \<open>\<open>CASE WHEN COALESCE(col, 0) <> 0 THEN 1 ELSE 0 END\<close>\<close>

fun literal :: "sql_value \<Rightarrow> string" where
  "literal (VInt n) = fmt_int n"
| "literal (VStr s) = [CHR 0x27] @ s @ [CHR 0x27]"
| "literal (VFloat x) = ''0''"
| "literal VNull = ''NULL''"

fun render_proj :: "proj \<Rightarrow> string" where
  "render_proj (Col c) = c"
| "render_proj (Coal c v) = ''COALESCE('' @ c @ '', '' @ literal v @ '')''"
| "render_proj (Const v) = literal v"
| "render_proj (CaseOf c ws) = ''CASE '' @ c
     @ concat (map (\<lambda>w. '' WHEN '' @ fmt_int (fst w) @ '' THEN '' @ fmt_int (snd w)) ws) @ '' ELSE 0 END''"
| "render_proj (NonZero c) = ''CASE WHEN COALESCE('' @ c @ '', 0) <> 0 THEN 1 ELSE 0 END''"

fun value_of :: "proj \<Rightarrow> sql_row \<Rightarrow> sql_value" where
  "value_of (Col c) r = r c"
| "value_of (Coal c v) r = (if r c = VNull then v else r c)"
| "value_of (Const v) r = v"
| "value_of (CaseOf c ws) r =
     (case r c of
        VInt n \<Rightarrow> VInt (case map_of ws n of Some k \<Rightarrow> k | None \<Rightarrow> 0)
      | _ \<Rightarrow> VInt 0)"
| "value_of (NonZero c) r = VInt (if coalesce0 (r c) = VInt 0 then 0 else 1)"

text \<open>A select list entry is an expression and its alias; an empty alias is no alias.\<close>

type_synonym field = "proj \<times> string"

definition render_field :: "field \<Rightarrow> string" where
  "render_field f = render_proj (fst f) @ (if snd f = [] then [] else '' AS '' @ snd f)"

definition out_name :: "field \<Rightarrow> string" where
  "out_name f =
     (if snd f \<noteq> [] then snd f
      else case fst f of
          Col c \<Rightarrow> if prefix ''s.'' c then drop 2 c else c
        | _ \<Rightarrow> [])"

datatype source = Table string | ServicesWithHosts

fun render_source :: "source \<Rightarrow> string" where
  "render_source (Table t) = t"
| "render_source ServicesWithHosts = ''statusengine_servicestatus s''
     @ '' LEFT JOIN statusengine_hoststatus h ON h.hostname = s.hostname''"

record select =
  sl_fields :: "field list"
  sl_from :: source
  sl_where :: conditions

definition render_select :: "select \<Rightarrow> string" where
  "render_select s = ''SELECT '' @ join '', '' (map render_field (sl_fields s))
     @ '' FROM '' @ render_source (sl_from s) @ clause (sl_where s)"

text \<open>The body that counting and listing share; \<open>none\<close> is the statement that selects nothing.\<close>

definition union_text :: "field list \<Rightarrow> select list \<Rightarrow> string" where
  "union_text none sels =
     (case sels of
        [] \<Rightarrow> ''SELECT '' @ join '', '' (map render_field none) @ '' FROM DUAL WHERE FALSE''
      | _ \<Rightarrow> join '' UNION ALL '' (map render_select sels))"

definition union_args :: "select list \<Rightarrow> sql_value list" where
  "union_args sels = concat (map (\<lambda>s. params (sl_where s)) sels)"

section \<open>Rows\<close>

type_synonym database = "string \<Rightarrow> sql_row list"

definition joined :: "sql_row \<Rightarrow> sql_row option \<Rightarrow> sql_row" where
  "joined s h col =
     (if prefix ''s.'' col then s (drop 2 col)
      else case h of None \<Rightarrow> VNull | Some r \<Rightarrow> r (drop 2 col))"

definition hosts_of :: "collation \<Rightarrow> database \<Rightarrow> sql_row \<Rightarrow> sql_row list" where
  "hosts_of cl db s =
     filter (\<lambda>h. sql_compare (fst cl) Eq (h ''hostname'') (s ''hostname'') = Some True)
       (db ''statusengine_hoststatus'')"

fun source_rows :: "collation \<Rightarrow> database \<Rightarrow> source \<Rightarrow> sql_row list" where
  "source_rows cl db (Table t) = db t"
| "source_rows cl db ServicesWithHosts =
     concat (map (\<lambda>s. case hosts_of cl db s of
         [] \<Rightarrow> [joined s None]
       | hs \<Rightarrow> map (\<lambda>h. joined s (Some h)) hs) (db ''statusengine_servicestatus''))"

text \<open>A result row: what \<open>ORDER BY\<close> sees, and the values in the order they are scanned.\<close>

type_synonym out_row = "sql_row \<times> sql_value list"

definition project :: "field list \<Rightarrow> sql_row \<Rightarrow> sql_value list" where
  "project fs r = map (\<lambda>f. value_of (fst f) r) fs"

definition named :: "field list \<Rightarrow> sql_value list \<Rightarrow> sql_row" where
  "named fs vs col = (case map_of (zip (map out_name fs) vs) col of Some v \<Rightarrow> v | None \<Rightarrow> VNull)"

definition selected :: "collation \<Rightarrow> database \<Rightarrow> select \<Rightarrow> sql_row list" where
  "selected cl db s = filter (matches cl (sl_where s)) (source_rows cl db (sl_from s))"

text \<open>A statement on one table sorts by its columns, one on a union by the union's.\<close>

definition plain_rows :: "collation \<Rightarrow> database \<Rightarrow> select \<Rightarrow> out_row list" where
  "plain_rows cl db s = map (\<lambda>r. (r, project (sl_fields s) r)) (selected cl db s)"

definition union_rows :: "collation \<Rightarrow> database \<Rightarrow> select list \<Rightarrow> out_row list" where
  "union_rows cl db sels = concat (map (\<lambda>s.
     map (\<lambda>r. (named (sl_fields s) (project (sl_fields s) r), project (sl_fields s) r))
       (selected cl db s)) sels)"

section \<open>Sorting and paging\<close>

record page =
  pg_limit :: int
  pg_offset :: int
  pg_sort :: string
  pg_desc :: bool

text \<open>The sort expression, its direction, and the tiebreaker.\<close>

type_synonym sort_order = "proj \<times> bool \<times> proj"

definition order_of :: "string \<Rightarrow> bool \<Rightarrow> (string \<rightharpoonup> proj) \<Rightarrow> string \<Rightarrow> sort_order" where
  "order_of name desc whitelist fallback =
     (let get = (\<lambda>n. case whitelist n of Some e \<Rightarrow> e | None \<Rightarrow> Col []);
          expr = (case whitelist name of Some e \<Rightarrow> e | None \<Rightarrow> get fallback)
      in (expr, desc, get fallback))"

definition order_by :: "string \<Rightarrow> bool \<Rightarrow> (string \<rightharpoonup> proj) \<Rightarrow> string \<Rightarrow> string" where
  "order_by name desc whitelist fallback =
     (let (expr, d, tie) = order_of name desc whitelist fallback;
          dir = (if d then ''DESC'' else ''ASC'')
      in if render_proj expr = render_proj tie then '' ORDER BY '' @ render_proj expr @ '' '' @ dir
         else '' ORDER BY '' @ render_proj expr @ '' '' @ dir @ '', '' @ render_proj tie @ '' ASC'')"

definition limit_clause :: string where
  "limit_clause = '' LIMIT ? OFFSET ?''"

definition limit_args :: "page \<Rightarrow> sql_value list" where
  "limit_args p = [VInt (pg_limit p), VInt (pg_offset p)]"

definition slice :: "page \<Rightarrow> 'a list \<Rightarrow> 'a list" where
  "slice p xs = take (nat (pg_limit p)) (drop (nat (pg_offset p)) xs)"

text \<open>
  The order of values: \<open>NULL\<close> first, strings by their collation key. Nothing is said about two
  floating point values. An \<open>arrange\<close> is what the server does with an \<open>ORDER BY\<close>: the same rows,
  sorted; between rows that compare equal it is free.
\<close>

fun sql_le :: "collation \<Rightarrow> sql_value \<Rightarrow> sql_value \<Rightarrow> bool" where
  "sql_le cl VNull _ \<longleftrightarrow> True"
| "sql_le cl (VInt a) (VInt b) \<longleftrightarrow> a \<le> b"
| "sql_le cl (VStr a) (VStr b) \<longleftrightarrow> fst cl a \<le> fst cl b"
| "sql_le cl (VFloat a) (VFloat b) \<longleftrightarrow> True"
| "sql_le cl (VInt a) (VStr b) \<longleftrightarrow> True"
| "sql_le cl (VInt a) (VFloat b) \<longleftrightarrow> True"
| "sql_le cl (VStr a) (VFloat b) \<longleftrightarrow> True"
| "sql_le cl _ _ \<longleftrightarrow> False"

definition dir_le :: "collation \<Rightarrow> bool \<Rightarrow> sql_value \<Rightarrow> sql_value \<Rightarrow> bool" where
  "dir_le cl desc a b \<longleftrightarrow> (if desc then sql_le cl b a else sql_le cl a b)"

definition in_order :: "collation \<Rightarrow> sort_order \<Rightarrow> out_row \<Rightarrow> out_row \<Rightarrow> bool" where
  "in_order cl ord a b =
     (case ord of (expr, desc, tie) \<Rightarrow>
        dir_le cl desc (value_of expr (fst a)) (value_of expr (fst b))
        \<and> (dir_le cl desc (value_of expr (fst b)) (value_of expr (fst a))
           \<longrightarrow> expr = tie \<or> sql_le cl (value_of tie (fst a)) (value_of tie (fst b))))"

type_synonym arrange = "sort_order \<Rightarrow> out_row list \<Rightarrow> out_row list"

definition sorts :: "collation \<Rightarrow> arrange \<Rightarrow> bool" where
  "sorts cl arr \<longleftrightarrow> (\<forall>ord rows. mset (arr ord rows) = mset rows
     \<and> sorted_wrt (in_order cl ord) (arr ord rows))"

text \<open>An instance: insertion.\<close>

fun insert_row :: "(out_row \<Rightarrow> out_row \<Rightarrow> bool) \<Rightarrow> out_row \<Rightarrow> out_row list \<Rightarrow> out_row list" where
  "insert_row le x [] = [x]"
| "insert_row le x (y # ys) = (if le x y then x # y # ys else y # insert_row le x ys)"

definition insertion :: "collation \<Rightarrow> arrange" where
  "insertion cl ord rows = foldr (insert_row (in_order cl ord)) rows []"

lemma sql_le_total: "sql_le cl a b \<or> sql_le cl b a"
  by (cases a; cases b) auto

lemma sql_le_trans: "sql_le cl a b \<Longrightarrow> sql_le cl b c \<Longrightarrow> sql_le cl a c"
  by (cases a; cases b; cases c) auto

lemma dir_le_total: "dir_le cl d a b \<or> dir_le cl d b a"
  using sql_le_total [of cl a b] by (auto simp: dir_le_def)

lemma dir_le_trans: "dir_le cl d a b \<Longrightarrow> dir_le cl d b c \<Longrightarrow> dir_le cl d a c"
  by (auto simp: dir_le_def dest: sql_le_trans split: if_splits)

lemma in_order_total: "in_order cl ord a b \<or> in_order cl ord b a"
  unfolding in_order_def by (cases ord) (simp, meson dir_le_total sql_le_total)

lemma in_order_trans: "in_order cl ord a b \<Longrightarrow> in_order cl ord b c \<Longrightarrow> in_order cl ord a c"
  unfolding in_order_def by (cases ord) (simp, meson dir_le_trans sql_le_trans)

lemma insert_row_set [simp]: "set (insert_row le x ys) = insert x (set ys)"
  by (induction ys) auto

lemma insert_row_mset [simp]: "mset (insert_row le x ys) = add_mset x (mset ys)"
  by (induction ys) auto

lemma insert_row_sorted:
  "sorted_wrt (in_order cl ord) ys \<Longrightarrow> sorted_wrt (in_order cl ord) (insert_row (in_order cl ord) x ys)"
proof (induction ys)
  case (Cons y ys)
  then show ?case
    using in_order_total [of cl ord x y] in_order_trans [of cl ord x y] by auto
qed simp

lemma insertion_sorts: "sorts cl (insertion cl)"
proof -
  have "mset (insertion cl ord rows) = mset rows
    \<and> sorted_wrt (in_order cl ord) (insertion cl ord rows)" for ord rows
    unfolding insertion_def by (induction rows) (auto intro: insert_row_sorted)
  then show ?thesis by (simp add: sorts_def)
qed

section \<open>Scanning\<close>

text \<open>
  \<open>Rows.Scan\<close> assigns the columns in order and fails on the first that does not convert: a \<open>NULL\<close>,
  a flag other than 0 and 1, a number out of range, and a wrong number of columns.
\<close>

fun scan_int :: "sql_value \<Rightarrow> int64 option" where
  "scan_int (VInt n) = (if int64_range n then Some n else None)"
| "scan_int (VStr s) = parse_int64 s"
| "scan_int _ = None"

fun scan_uint :: "nat \<Rightarrow> sql_value \<Rightarrow> int option" where
  "scan_uint w (VInt n) = (if 0 \<le> n \<and> n < 2 ^ w then Some n else None)"
| "scan_uint w _ = None"

fun scan_bool :: "sql_value \<Rightarrow> bool option" where
  "scan_bool (VInt n) = (if n = 1 then Some True else if n = 0 then Some False else None)"
| "scan_bool _ = None"

fun scan_string :: "sql_value \<Rightarrow> string option" where
  "scan_string (VStr s) = Some s"
| "scan_string (VInt n) = Some (fmt_int n)"
| "scan_string _ = None"

fun scan_float :: "sql_value \<Rightarrow> float64 option" where
  "scan_float (VFloat x) = Some x"
| "scan_float _ = None"

definition scan_uint32 :: "sql_value \<Rightarrow> uint32 option" where
  "scan_uint32 v = map_option of_int (scan_uint 32 v)"

type_synonym 'r scanner = "sql_value list \<Rightarrow> 'r option"

definition dest :: "(sql_value \<Rightarrow> 'a option) \<Rightarrow> ('a \<Rightarrow> 'r scanner) \<Rightarrow> 'r scanner" where
  "dest f k vs =
     (case vs of
        [] \<Rightarrow> None
      | v # rest \<Rightarrow> (case f v of None \<Rightarrow> None | Some x \<Rightarrow> k x rest))"

definition scanned :: "'r \<Rightarrow> 'r scanner" where
  "scanned x vs = (if vs = [] then Some x else None)"

lemma dest_simps [simp]:
  "dest f k [] = None" "dest f k (v # vs) = (case f v of None \<Rightarrow> None | Some x \<Rightarrow> k x vs)"
  "scanned x [] = Some x" "scanned x (v # vs) = None"
  by (simp_all add: dest_def scanned_def)

section \<open>A page of a list\<close>

datatype list_error = CountFailed | ListFailed

text \<open>
  The count and the page are two statements: \<open>counted\<close> is what the first sees, \<open>listed\<close> what the
  second does. \<open>faults\<close> says which of them the server fails.
\<close>

definition scan_row :: "'r scanner \<Rightarrow> out_row \<Rightarrow> list_error + 'r" where
  "scan_row sc row = (case sc (snd row) of None \<Rightarrow> Inl ListFailed | Some x \<Rightarrow> Inr x)"

definition list_page ::
  "bool \<times> bool \<Rightarrow> arrange \<Rightarrow> sort_order \<Rightarrow> 'r scanner \<Rightarrow> out_row list \<Rightarrow> out_row list \<Rightarrow> page
     \<Rightarrow> list_error + 'r list \<times> int" where
  "list_page faults arr ord sc counted listed p =
     fail_if (fst faults) CountFailed
       (let total = int (length counted) in
        if total = 0 then Inr ([], 0)
        else fail_if (snd faults \<or> pg_limit p < 0 \<or> pg_offset p < 0) ListFailed
          (bind_err (map_err (scan_row sc) (slice p (arr ord listed))) (\<lambda>out. Inr (out, total))))"


text \<open>
  The server as one call of a \<open>List\<close> method meets it: its collation and its sorting, the tables
  at the count and at the listing, and which of the two fails.
\<close>

record server =
  sv_collation :: collation
  sv_arrange :: arrange
  sv_counted :: database
  sv_listed :: database
  sv_faults :: "bool \<times> bool"

definition plain_page ::
  "server \<Rightarrow> select \<Rightarrow> sort_order \<Rightarrow> 'r scanner \<Rightarrow> page \<Rightarrow> list_error + 'r list \<times> int" where
  "plain_page sv s ord sc p =
     list_page (sv_faults sv) (sv_arrange sv) ord sc
       (plain_rows (sv_collation sv) (sv_counted sv) s)
       (plain_rows (sv_collation sv) (sv_listed sv) s) p"

definition union_page ::
  "server \<Rightarrow> select list \<Rightarrow> sort_order \<Rightarrow> 'r scanner \<Rightarrow> page \<Rightarrow> list_error + 'r list \<times> int" where
  "union_page sv sels ord sc p =
     list_page (sv_faults sv) (sv_arrange sv) ord sc
       (union_rows (sv_collation sv) (sv_counted sv) sels)
       (union_rows (sv_collation sv) (sv_listed sv) sels) p"

section \<open>Reading a page\<close>

lemma scan_row_Inr: "scan_row sc row = Inr x \<longleftrightarrow> sc (snd row) = Some x"
  by (simp add: scan_row_def split: option.splits)

lemma list_page_Inr:
  "list_page faults arr ord sc counted listed p = Inr (out, tot) \<longleftrightarrow>
     \<not> fst faults \<and> tot = int (length counted)
     \<and> (if counted = [] then out = []
        else \<not> snd faults \<and> 0 \<le> pg_limit p \<and> 0 \<le> pg_offset p
           \<and> map (\<lambda>row. sc (snd row)) (slice p (arr ord listed)) = map Some out)"
proof -
  have "list_all2 (\<lambda>row x. sc (snd row) = Some x) rows out
      \<longleftrightarrow> map (\<lambda>row. sc (snd row)) rows = map Some out" for rows
    by (auto simp: list_all2_conv_all_nth list_eq_iff_nth_eq)
  then show ?thesis
    by (auto simp: list_page_def guard_simps Let_def map_err_Inr scan_row_Inr split: if_splits)
qed

lemma sortsD:
  "sorts cl arr \<Longrightarrow> mset (arr ord rows) = mset rows"
  "sorts cl arr \<Longrightarrow> sorted_wrt (in_order cl ord) (arr ord rows)"
  "sorts cl arr \<Longrightarrow> length (arr ord rows) = length rows"
  "sorts cl arr \<Longrightarrow> set (arr ord rows) = set rows"
proof -
  assume "sorts cl arr"
  then show "mset (arr ord rows) = mset rows" "sorted_wrt (in_order cl ord) (arr ord rows)"
    unfolding sorts_def by blast+
  then show "length (arr ord rows) = length rows" "set (arr ord rows) = set rows"
    by (blast dest: mset_eq_length mset_eq_setD)+
qed

lemma set_slice: "set (slice p xs) \<subseteq> set xs"
  by (auto simp: slice_def dest: in_set_takeD in_set_dropD)

lemma map_eq_SomeD: "map f xs = map Some ys \<Longrightarrow> y \<in> set ys \<longleftrightarrow> (\<exists>x \<in> set xs. f x = Some y)"
proof (induction xs arbitrary: ys)
  case (Cons x xs)
  then show ?case by (cases ys) auto
qed auto

lemma sorted_slice: "sorted_wrt P xs \<Longrightarrow> sorted_wrt P (slice p xs)"
  by (simp add: slice_def sorted_wrt_take sorted_wrt_drop)

lemma list_page_member:
  assumes "list_page faults arr ord sc counted listed p = Inr (out, tot)" "sorts cl arr" "x \<in> set out"
  obtains row where "row \<in> set listed" "sc (snd row) = Some x"
proof -
  have "map (\<lambda>row. sc (snd row)) (slice p (arr ord listed)) = map Some out"
    using assms(1,3) by (auto simp: list_page_Inr split: if_splits)
  from map_eq_SomeD [OF this, of x] assms(3)
  obtain row where "row \<in> set (slice p (arr ord listed))" "sc (snd row) = Some x" by blast
  moreover have "row \<in> set listed"
    using subsetD [OF set_slice calculation(1)] unfolding sortsD(4) [OF assms(2)] .
  ultimately show ?thesis using that by blast
qed

text \<open>Consecutive slices of the same length put a list together again.\<close>

lemma concat_slices:
  assumes "0 < k" "length xs \<le> n * k"
  shows "concat (map (\<lambda>i. take k (drop (i * k) xs)) [0..<n]) = xs"
  using assms(2)
proof (induction n arbitrary: xs)
  case (Suc n)
  have "concat (map (\<lambda>i. take k (drop (i * k) xs)) [0..<Suc n])
      = take k xs @ concat (map (\<lambda>i. take k (drop (i * k) (drop k xs))) [0..<n])"
    by (simp add: upt_conv_Cons map_Suc_upt [symmetric] comp_def add.commute del: upt_Suc)
  also have "\<dots> = take k xs @ drop k xs" using Suc.prems by (subst Suc.IH) auto
  finally show ?case by simp
qed simp

lemma mset_slice: "mset (slice p xs) \<subseteq># mset xs"
  unfolding slice_def by (metis append_take_drop_id mset_append mset_subset_eq_add_left
      mset_subset_eq_add_right subset_mset.trans)

text \<open>
  What a page is, for statements whose condition is a predicate on the scanned record: a slice of
  the records that satisfy it, and their number.
\<close>

lemma list_page_holds:
  assumes ok: "list_page faults arr ord sc rows rows p = Inr (out, tot)"
    and "sorts cl arr"
    and rows: "mset (map (\<lambda>row. sc (snd row)) rows) = mset (map Some xs)"
  shows "tot = int (length xs)" "mset out \<subseteq># mset xs"
    "length out = min (nat (pg_limit p)) (length xs - nat (pg_offset p))"
proof -
  have l: "length rows = length xs" using rows by (metis length_map mset_eq_length)
  then show "tot = int (length xs)" using ok by (simp add: list_page_Inr)
  have m: "map (\<lambda>row. sc (snd row)) (slice p (arr ord rows)) = map Some out" if "rows \<noteq> []"
    using ok that by (simp add: list_page_Inr)
  show "length out = min (nat (pg_limit p)) (length xs - nat (pg_offset p))"
  proof (cases "rows = []")
    case False
    then have "length out = length (slice p (arr ord rows))" by (metis m length_map)
    then show ?thesis using l sortsD(3) [OF assms(2)] by (simp add: slice_def min.commute)
  qed (use ok l in \<open>simp add: list_page_Inr\<close>)
  show "mset out \<subseteq># mset xs"
  proof (cases "rows = []")
    case False
    have "image_mset Some (mset out) = image_mset (\<lambda>row. sc (snd row)) (mset (slice p (arr ord rows)))"
      using m [OF False] by (metis mset_map)
    also have "\<dots> \<subseteq># image_mset (\<lambda>row. sc (snd row)) (mset rows)"
      using mset_slice [of p "arr ord rows"] sortsD(1) [OF assms(2)]
      by (metis image_mset_subseteq_mono)
    also have "\<dots> = image_mset Some (mset xs)" using rows by simp
    finally have "image_mset the (image_mset Some (mset out)) \<subseteq># image_mset the (image_mset Some (mset xs))"
      by (rule image_mset_subseteq_mono)
    then show ?thesis by (simp add: multiset.map_comp comp_def)
  qed (use ok in \<open>simp add: list_page_Inr\<close>)
qed

lemma scanned_filter:
  assumes "map (\<lambda>r. sc (project fs r)) rs = map Some xs"
    and "\<And>r x. r \<in> set rs \<Longrightarrow> sc (project fs r) = Some x \<Longrightarrow> Q r \<longleftrightarrow> P x"
  shows "map (\<lambda>r. sc (project fs r)) (filter Q rs) = map Some (filter P xs)"
  using assms
proof (induction rs arbitrary: xs)
  case (Cons r rs)
  then obtain x ys where "xs = x # ys" "sc (project fs r) = Some x"
    "map (\<lambda>r. sc (project fs r)) rs = map Some ys" by (cases xs) auto
  with Cons show ?case by auto
qed simp

lemma plain_page_holds:
  assumes "plain_page sv s ord sc p = Inr (out, tot)"
    and "sorts (sv_collation sv) (sv_arrange sv)" "sv_counted sv = sv_listed sv"
    and "map (\<lambda>r. sc (project (sl_fields s) r))
        (source_rows (sv_collation sv) (sv_listed sv) (sl_from s)) = map Some xs"
    and "\<And>r x. r \<in> set (source_rows (sv_collation sv) (sv_listed sv) (sl_from s)) \<Longrightarrow>
        sc (project (sl_fields s) r) = Some x \<Longrightarrow> matches (sv_collation sv) (sl_where s) r \<longleftrightarrow> P x"
  shows "tot = int (length (filter P xs))" "mset out \<subseteq># mset (filter P xs)"
    "length out = min (nat (pg_limit p)) (length (filter P xs) - nat (pg_offset p))"
proof -
  have "map (\<lambda>row. sc (snd row)) (plain_rows (sv_collation sv) (sv_listed sv) s) = map Some (filter P xs)"
    using scanned_filter [OF assms(4,5)] by (simp add: plain_rows_def selected_def comp_def)
  then have "mset (map (\<lambda>row. sc (snd row)) (plain_rows (sv_collation sv) (sv_listed sv) s))
      = mset (map Some (filter P xs))" by simp
  note p = list_page_holds [OF assms(1) [unfolded plain_page_def assms(3)] assms(2) this]
  then show "tot = int (length (filter P xs))" "mset out \<subseteq># mset (filter P xs)"
    "length out = min (nat (pg_limit p)) (length (filter P xs) - nat (pg_offset p))" by blast+
qed

text \<open>
  The union of a host and a service half, each consulted or not: the page is over the records of
  both tables that satisfy \<open>P\<close>, when \<open>P\<close> is false on the records of a half left out.
\<close>

lemma scanned_half:
  assumes "map (\<lambda>r. sc (project (sl_fields s) r)) (source_rows cl db (sl_from s)) = map Some xs"
    and "\<And>r x. r \<in> set (source_rows cl db (sl_from s)) \<Longrightarrow> sc (project (sl_fields s) r) = Some x \<Longrightarrow>
        (c \<and> matches cl (sl_where s) r) \<longleftrightarrow> P x"
  shows "map (\<lambda>row. sc (snd row)) (union_rows cl db (if c then [s] else [])) = map Some (filter P xs)"
  using scanned_filter [where Q = "\<lambda>r. c \<and> matches cl (sl_where s) r", OF assms]
  by (auto simp: union_rows_def selected_def comp_def)

lemma union_rows_append: "union_rows cl db (s @ t) = union_rows cl db s @ union_rows cl db t"
  by (simp add: union_rows_def)

lemma two_halves_hold:
  assumes "union_page sv ((if c1 then [s1] else []) @ (if c2 then [s2] else [])) ord sc p = Inr (out, tot)"
    and "sorts (sv_collation sv) (sv_arrange sv)" "sv_counted sv = sv_listed sv"
    and "map (\<lambda>r. sc (project (sl_fields s1) r))
        (source_rows (sv_collation sv) (sv_listed sv) (sl_from s1)) = map Some xs1"
    and "map (\<lambda>r. sc (project (sl_fields s2) r))
        (source_rows (sv_collation sv) (sv_listed sv) (sl_from s2)) = map Some xs2"
    and "\<And>r x. r \<in> set (source_rows (sv_collation sv) (sv_listed sv) (sl_from s1)) \<Longrightarrow>
        sc (project (sl_fields s1) r) = Some x \<Longrightarrow>
        (c1 \<and> matches (sv_collation sv) (sl_where s1) r) \<longleftrightarrow> P x"
    and "\<And>r x. r \<in> set (source_rows (sv_collation sv) (sv_listed sv) (sl_from s2)) \<Longrightarrow>
        sc (project (sl_fields s2) r) = Some x \<Longrightarrow>
        (c2 \<and> matches (sv_collation sv) (sl_where s2) r) \<longleftrightarrow> P x"
  shows "tot = int (length (filter P (xs1 @ xs2)))" "mset out \<subseteq># mset (filter P (xs1 @ xs2))"
    "length out = min (nat (pg_limit p)) (length (filter P (xs1 @ xs2)) - nat (pg_offset p))"
proof -
  let ?rows = "union_rows (sv_collation sv) (sv_listed sv)
      ((if c1 then [s1] else []) @ (if c2 then [s2] else []))"
  have "map (\<lambda>row. sc (snd row)) ?rows = map Some (filter P (xs1 @ xs2))"
    unfolding union_rows_append map_append filter_append
    using scanned_half [OF assms(4,6)] scanned_half [OF assms(5,7)] by simp
  then have "mset (map (\<lambda>row. sc (snd row)) ?rows) = mset (map Some (filter P (xs1 @ xs2)))" by simp
  note p = list_page_holds [OF assms(1) [unfolded union_page_def assms(3)] assms(2) this]
  then show "tot = int (length (filter P (xs1 @ xs2)))" "mset out \<subseteq># mset (filter P (xs1 @ xs2))"
    "length out = min (nat (pg_limit p)) (length (filter P (xs1 @ xs2)) - nat (pg_offset p))" by blast+
qed

section \<open>Statements\<close>

definition plain_field :: "field \<Rightarrow> bool" where
  "plain_field f \<longleftrightarrow> holes (render_field f) = 0"

definition plain_source :: "source \<Rightarrow> bool" where
  "plain_source s \<longleftrightarrow> holes (render_source s) = 0"

text \<open>
  The interface of a list: a body with as many arguments as placeholders, whose two halves have
  the same columns, so that \<open>UNION ALL\<close> is well formed and one scan serves both.
\<close>

locale list_statement =
  fixes none :: "field list"
    and body :: "'f \<Rightarrow> select list"
  assumes none_plain: "list_all plain_field none"
    and body_plain: "s \<in> set (body f) \<Longrightarrow>
      list_all plain_field (sl_fields s) \<and> plain_source (sl_from s) \<and> well_named (sl_where s)"
    and same_columns: "s \<in> set (body f) \<Longrightarrow> map out_name (sl_fields s) = map out_name none"
begin

lemma fields_holes: "list_all plain_field fs \<Longrightarrow> holes (join '', '' (map render_field fs)) = 0"
  by (auto simp: holes_join plain_field_def list_all_iff comp_def sum_list_eq_0_iff)

lemma select_holes:
  assumes "s \<in> set (body f)"
  shows "holes (render_select s) = length (params (sl_where s))"
  using body_plain [OF assms] fields_holes [of "sl_fields s"]
  by (simp add: render_select_def plain_source_def holes_clause)

lemma body_agrees: "holes (union_text none (body f)) = length (union_args (body f))"
proof (cases "body f")
  case Nil
  then show ?thesis using fields_holes [OF none_plain] by (simp add: union_text_def union_args_def)
next
  case (Cons s ss)
  have "sum_list (map (holes \<circ> render_select) (body f))
      = sum_list (map (\<lambda>s. length (params (sl_where s))) (body f))"
    by (intro arg_cong [where f = sum_list] map_cong) (auto simp: select_holes)
  then show ?thesis
    using Cons by (simp add: union_text_def union_args_def holes_join length_concat comp_def)
qed

lemma count_agrees:
  "holes (''SELECT COUNT(*) FROM ('' @ union_text none (body f) @ '') AS x'')
     = length (union_args (body f))"
  by (simp add: body_agrees)

lemma width: "s \<in> set (body f) \<Longrightarrow> length (sl_fields s) = length none"
  by (drule same_columns) (metis length_map)

lemma row_width: "row \<in> set (union_rows cl db (body f)) \<Longrightarrow> length (snd row) = length none"
  by (auto simp: union_rows_def project_def width)

lemma in_union_rows:
  "row \<in> set (union_rows cl db (body f)) \<longleftrightarrow>
     (\<exists>s \<in> set (body f). \<exists>r \<in> set (source_rows cl db (sl_from s)). matches cl (sl_where s) r
        \<and> row = (named none (project (sl_fields s) r), project (sl_fields s) r))"
proof -
  have "named (sl_fields s) vs = named none vs" if "s \<in> set (body f)" for s vs
    by (rule ext) (simp add: named_def same_columns [OF that])
  then show ?thesis by (fastforce simp: union_rows_def selected_def)
qed

end

text \<open>A union list also sorts: by its own columns only, whatever the request names.\<close>

locale sorted_statement = list_statement none body
  for none :: "field list" and body :: "'f \<Rightarrow> select list" +
  fixes whitelist :: "string \<rightharpoonup> proj"
    and fallback :: string
  assumes sort_columns: "whitelist name = Some e \<Longrightarrow>
      \<exists>c \<in> out_name ` set none. e = Col c \<and> plain c"
    and fallback: "whitelist fallback \<noteq> None"
begin

lemma order_columns:
  "\<exists>c \<in> out_name ` set none. \<exists>t \<in> out_name ` set none. plain c \<and> plain t
     \<and> order_of name desc whitelist fallback = (Col c, desc, Col t)"
proof -
  obtain t where t: "whitelist fallback = Some t" using fallback by auto
  obtain e where "(case whitelist name of Some e \<Rightarrow> e | None \<Rightarrow> t) = e" "e = t \<or> whitelist name = Some e"
    by (cases "whitelist name") auto
  then have "\<exists>c \<in> out_name ` set none. e = Col c \<and> plain c" using t sort_columns by blast
  then obtain c where "c \<in> out_name ` set none" "e = Col c" "plain c" by blast
  moreover obtain d where "d \<in> out_name ` set none" "t = Col d" "plain d"
    using sort_columns [OF t] by blast
  moreover have "order_of name desc whitelist fallback = (e, desc, t)"
    using t \<open>_ = e\<close> by (cases "whitelist name") (auto simp: order_of_def Let_def)
  ultimately show ?thesis by blast
qed

lemma page_agrees:
  "holes (''SELECT * FROM ('' @ union_text none (body f) @ '') AS x''
       @ order_by (pg_sort p) (pg_desc p) whitelist fallback @ limit_clause)
     = length (union_args (body f) @ limit_args p)"
proof -
  obtain c t where "plain c" "plain t"
    "order_of (pg_sort p) (pg_desc p) whitelist fallback = (Col c, pg_desc p, Col t)"
    using order_columns by blast
  then have "holes (order_by (pg_sort p) (pg_desc p) whitelist fallback) = 0"
    by (simp add: order_by_def plain_def Let_def)
  then show ?thesis by (simp add: body_agrees limit_clause_def limit_args_def)
qed

end

end
