(* ===== verification/CommandAudit.thy ===== *)
theory CommandAudit
  imports Listing Json
begin

text \<open>
  The command audit (\<^verbatim>\<open>internal/commands/audit.go\<close>) over its table of
  \<^verbatim>\<open>internal/migrate/sql/0001_auth.sql\<close>: one row per object a command named, whatever became of
  the command. The table checks what its columns declare: text has to be valid UTF-8 and no
  longer than its column, and a row that breaks this fails the whole statement.
\<close>

section \<open>State\<close>

text \<open>A payload that \<open>json.Marshal\<close> refuses is \<open>None\<close>.\<close>

record audit_entry =
  an_user_id :: "uint32 option"
  an_username :: string
  an_action :: string
  an_target :: string
  an_payload :: "json option"
  an_status :: int
  an_response :: string
  an_remote_ip :: string

record audit_row =
  aw_id :: nat
  aw_user_id :: "uint32 option"
  aw_username :: string
  aw_action :: string
  aw_target :: string
  aw_payload :: string
  aw_status :: int
  aw_response :: string
  aw_remote_ip :: string
  aw_created_at :: int64

record audit_db =
  ad_rows :: "audit_row list"
  ad_next :: nat
  ad_faults :: "bool list"

datatype audit_error = RecordingFailed nat | PruningFailed | CountingFailed | ListingAuditFailed

type_synonym 'a audit_op = "(audit_db, audit_error, 'a) step"

definition audit_statement :: "audit_error \<Rightarrow> 'a audit_op \<Rightarrow> 'a audit_op" where
  "audit_statement e body d =
     (let d' = d\<lparr>ad_faults := tl (ad_faults d)\<rparr>
      in if ad_faults d \<noteq> [] \<and> hd (ad_faults d) then (Inl e, d') else body d')"

section \<open>Recording\<close>

definition truncate_text :: "string \<Rightarrow> nat \<Rightarrow> string" where
  "truncate_text s n = (if length s \<le> n then s else take n s)"

definition marshal :: "json option \<Rightarrow> string" where
  "marshal p =
     (case p of
        Some j \<Rightarrow> json_text j
      | None \<Rightarrow> [CHR 0x7B, CHR 0x22] @ ''error'' @ [CHR 0x22] @ '':'' @ [CHR 0x22]
          @ ''payload could not be encoded'' @ [CHR 0x22, CHR 0x7D])"

definition audit_values :: "int64 \<Rightarrow> audit_entry \<Rightarrow> nat \<Rightarrow> audit_row" where
  "audit_values now e i =
     \<lparr>aw_id = i, aw_user_id = an_user_id e, aw_username = an_username e, aw_action = an_action e,
      aw_target = truncate_text (an_target e) 512, aw_payload = marshal (an_payload e),
      aw_status = an_status e, aw_response = truncate_text (an_response e) 1024,
      aw_remote_ip = truncate_text (an_remote_ip e) 45, aw_created_at = now\<rparr>"

definition fits :: "nat \<Rightarrow> string \<Rightarrow> bool" where
  "fits n s \<longleftrightarrow> valid_utf8 s \<and> length (go_runes s) \<le> n"

definition storable :: "audit_row \<Rightarrow> bool" where
  "storable r \<longleftrightarrow>
     fits 190 (aw_username r) \<and> fits 64 (aw_action r) \<and> fits 512 (aw_target r)
     \<and> fits 1024 (aw_response r) \<and> fits 45 (aw_remote_ip r)
     \<and> - 32768 \<le> aw_status r \<and> aw_status r < 32768 \<and> valid_utf8 (aw_payload r)"

definition insert_audit :: "audit_row list \<Rightarrow> audit_db \<Rightarrow> (audit_error + unit) \<times> audit_db" where
  "insert_audit rows d =
     (if list_all storable rows
      then (Inr (), d\<lparr>ad_rows := ad_rows d @ rows, ad_next := ad_next d + length rows\<rparr>)
      else (Inl (RecordingFailed (length rows)), d))"

definition record_batch :: "int64 \<Rightarrow> audit_entry list \<Rightarrow> unit audit_op" where
  "record_batch now entries =
     (if entries = [] then return ()
      else audit_statement (RecordingFailed (length entries)) (\<lambda>d.
        insert_audit (map2 (audit_values now) entries [ad_next d..<ad_next d + length entries]) d))"

definition record_one :: "int64 \<Rightarrow> audit_entry \<Rightarrow> unit audit_op" where
  "record_one now e =
     audit_statement (RecordingFailed 1) (\<lambda>d. insert_audit [audit_values now e (ad_next d)] d)"

section \<open>Pruning\<close>

definition prune :: "int \<Rightarrow> duration \<Rightarrow> nat audit_op" where
  "prune now keep =
     (if keep \<le> 0 then return 0
      else audit_statement PruningFailed (\<lambda>d.
        let cutoff = (now - keep) div second;
            old = filter (\<lambda>r. aw_created_at r < cutoff) (ad_rows d)
        in (Inr (length old), d\<lparr>ad_rows := filter (\<lambda>r. \<not> aw_created_at r < cutoff) (ad_rows d)\<rparr>)))"

text \<open>The pruning loop; the instants are those of its start and of each tick before it is stopped.\<close>

fun prune_every :: "duration \<Rightarrow> int list \<Rightarrow> audit_db \<Rightarrow> audit_db" where
  "prune_every keep [] d = d"
| "prune_every keep (now # ticks) d =
     (if keep \<le> 0 then d else prune_every keep ticks (snd (prune now keep d)))"

section \<open>Listing\<close>

record audit_record =
  ar_id :: nat
  ar_username :: string
  ar_action :: string
  ar_target :: string
  ar_payload :: "json option"
  ar_status :: int
  ar_response :: string
  ar_remote_ip :: string
  ar_created_at :: int64

record audit_filter =
  uf_username :: string
  uf_action :: string
  uf_search :: string
  uf_from :: int64
  uf_to :: int64
  uf_failed_only :: bool

record audit_page =
  ap_limit :: int
  ap_offset :: int
  ap_desc :: bool

text \<open>The clause as the code concatenates it, and the values it binds.\<close>

definition audit_where :: "audit_filter \<Rightarrow> string" where
  "audit_where f = '' WHERE 1=1''
     @ (if uf_username f \<noteq> [] then '' AND username = ?'' else [])
     @ (if uf_action f \<noteq> [] then '' AND action = ?'' else [])
     @ (if uf_from f > 0 then '' AND created_at >= ?'' else [])
     @ (if uf_to f > 0 then '' AND created_at <= ?'' else [])
     @ (if uf_failed_only f then '' AND http_status <> 202'' else [])
     @ (if uf_search f \<noteq> [] then '' AND (target LIKE ? OR response LIKE ? OR username LIKE ?)'' else [])"

definition escape_like :: "string \<Rightarrow> string" where
  "escape_like s = replace_bytes escapes s"

definition audit_args :: "audit_filter \<Rightarrow> sql_value list" where
  "audit_args f =
     (if uf_username f \<noteq> [] then [VStr (uf_username f)] else [])
     @ (if uf_action f \<noteq> [] then [VStr (uf_action f)] else [])
     @ (if uf_from f > 0 then [VInt (uf_from f)] else [])
     @ (if uf_to f > 0 then [VInt (uf_to f)] else [])
     @ (if uf_search f \<noteq> []
        then let pattern = VStr (''%'' @ escape_like (uf_search f) @ ''%'') in [pattern, pattern, pattern]
        else [])"

text \<open>What MySQL makes of the clause; the backslash is the default escape of \<open>LIKE\<close>.\<close>

definition audit_matches :: "collation \<Rightarrow> audit_filter \<Rightarrow> audit_row \<Rightarrow> bool" where
  "audit_matches cl f r \<longleftrightarrow>
     (uf_username f \<noteq> [] \<longrightarrow> fst cl (aw_username r) = fst cl (uf_username f))
     \<and> (uf_action f \<noteq> [] \<longrightarrow> fst cl (aw_action r) = fst cl (uf_action f))
     \<and> (uf_from f > 0 \<longrightarrow> uf_from f \<le> aw_created_at r)
     \<and> (uf_to f > 0 \<longrightarrow> aw_created_at r \<le> uf_to f)
     \<and> (uf_failed_only f \<longrightarrow> aw_status r \<noteq> 202)
     \<and> (uf_search f \<noteq> [] \<longrightarrow>
          list_ex (like (snd cl) (''%'' @ escape_like (uf_search f) @ ''%''))
            [aw_target r, aw_response r, aw_username r])"

definition audit_order :: "bool \<Rightarrow> audit_row list \<Rightarrow> audit_row list" where
  "audit_order desc rows =
     (let asc = sort_key aw_created_at (sort_key aw_id rows) in if desc then rev asc else asc)"

text \<open>\<open>read\<close> is the tree of a JSON text; a payload that is none is left out.\<close>

definition audit_record_of :: "(string \<Rightarrow> json option) \<Rightarrow> audit_row \<Rightarrow> audit_record" where
  "audit_record_of read r =
     \<lparr>ar_id = aw_id r, ar_username = aw_username r, ar_action = aw_action r, ar_target = aw_target r,
      ar_payload = (if aw_payload r = [] then None else read (aw_payload r)),
      ar_status = aw_status r, ar_response = aw_response r, ar_remote_ip = aw_remote_ip r,
      ar_created_at = aw_created_at r\<rparr>"

definition audit_list ::
  "collation \<Rightarrow> (string \<Rightarrow> json option) \<Rightarrow> audit_filter \<Rightarrow> audit_page
     \<Rightarrow> (audit_record list \<times> int) audit_op" where
  "audit_list cl read f p =
     bind_step (audit_statement CountingFailed (\<lambda>d.
         (Inr (length (filter (audit_matches cl f) (ad_rows d))), d)))
       (\<lambda>total.
         if total = 0 then return ([], 0)
         else audit_statement ListingAuditFailed (\<lambda>d.
           if ap_limit p < 0 \<or> ap_offset p < 0 then (Inl ListingAuditFailed, d)
           else (Inr (map (audit_record_of read)
                   (take (nat (ap_limit p)) (drop (nat (ap_offset p))
                     (audit_order (ap_desc p) (filter (audit_matches cl f) (ad_rows d))))),
                 int total), d)))"

section \<open>The invariant\<close>

text \<open>Identifiers are given out in order and never twice, and every row fits its columns.\<close>

definition audit_inv :: "audit_db \<Rightarrow> bool" where
  "audit_inv d \<longleftrightarrow>
     sorted (map aw_id (ad_rows d)) \<and> distinct (map aw_id (ad_rows d))
     \<and> (\<forall>r \<in> set (ad_rows d). aw_id r < ad_next d \<and> storable r)"

lemma audit_statement_eq:
  "audit_statement e body d = x \<longleftrightarrow>
     (let d' = d\<lparr>ad_faults := tl (ad_faults d)\<rparr>
      in x = (if ad_faults d \<noteq> [] \<and> hd (ad_faults d) then (Inl e, d') else body d'))"
  by (auto simp: audit_statement_def Let_def)

lemma audit_inv_faults [simp]: "audit_inv (d\<lparr>ad_faults := fs\<rparr>) = audit_inv d"
  by (simp add: audit_inv_def)

lemma keeps_audit_statement:
  "keeps audit_inv body \<Longrightarrow> keeps audit_inv (audit_statement e body)"
  by (simp add: keeps_def audit_statement_def Let_def)

lemma map2_audit_ids:
  "length es = length is \<Longrightarrow> map aw_id (map2 (audit_values now) es is) = is"
  by (induction es "is" rule: list_induct2) (simp_all add: audit_values_def)

lemma audit_inv_append:
  assumes "audit_inv d" "map aw_id rows = [ad_next d..<ad_next d + length rows]" "list_all storable rows"
  shows "audit_inv (d\<lparr>ad_rows := ad_rows d @ rows, ad_next := ad_next d + length rows\<rparr>)"
proof -
  have ids: "aw_id r \<in> {ad_next d..<ad_next d + length rows}" if "r \<in> set rows" for r
    using that assms(2) by (metis atLeastLessThan_upt imageI list.set_map)
  then have "\<forall>r \<in> set rows. aw_id r < ad_next d + length rows \<and> ad_next d \<le> aw_id r" by simp
  with assms ids show ?thesis
    by (auto simp: audit_inv_def sorted_append list_all_iff)
qed

lemma insert_audit_inv:
  "audit_inv d \<Longrightarrow> map aw_id rows = [ad_next d..<ad_next d + length rows] \<Longrightarrow>
     audit_inv (snd (insert_audit rows d))"
  by (simp add: insert_audit_def audit_inv_append)

lemma keeps_insert_audit:
  "(\<And>d. map aw_id (rows d) = [ad_next d..<ad_next d + length (rows d)]) \<Longrightarrow>
     keeps audit_inv (\<lambda>d. insert_audit (rows d) d)"
  by (simp add: keeps_def insert_audit_inv)

lemma keeps_record_batch [keeps_intros]: "keeps audit_inv (record_batch now es)"
  unfolding record_batch_def
  by (intro keeps_if keeps_return keeps_audit_statement keeps_insert_audit) (subst map2_audit_ids; simp)

lemma keeps_record_one [keeps_intros]: "keeps audit_inv (record_one now e)"
  unfolding record_one_def
  by (intro keeps_audit_statement keeps_insert_audit) (simp add: audit_values_def)

lemma keeps_prune [keeps_intros]: "keeps audit_inv (prune now keep)"
  unfolding prune_def
  by (intro keeps_if keeps_return keeps_audit_statement)
    (auto simp: keeps_def audit_inv_def Let_def sorted_filter distinct_map_filter)

lemma keeps_audit_list [keeps_intros]: "keeps audit_inv (audit_list cl read f p)"
  unfolding audit_list_def
  by (intro keeps_bind keeps_if keeps_return keeps_audit_statement) (simp_all add: keeps_def)

lemma prune_every_inv: "audit_inv d \<Longrightarrow> audit_inv (prune_every keep ticks d)"
proof (induction keep ticks d rule: prune_every.induct)
  case (2 keep now ticks d)
  then show ?case using keeps_prune [of now keep] by (simp add: keeps_def)
qed simp

section \<open>The order of the log\<close>

lemma sort_key_sorted: "sorted (map f xs) \<Longrightarrow> sort_key f xs = xs"
  by (induction xs) (auto simp: insort_is_Cons)

lemma insort_key_append:
  "(\<And>y. y \<in> set ys \<Longrightarrow> f x \<le> f y) \<Longrightarrow> insort_key f x (xs @ ys) = insort_key f x xs @ ys"
  by (induction xs) (auto simp: insort_is_Cons)

lemma sort_key_append:
  "(\<And>x y. x \<in> set xs \<Longrightarrow> y \<in> set ys \<Longrightarrow> f x \<le> f y) \<Longrightarrow>
     sort_key f (xs @ ys) = sort_key f xs @ sort_key f ys"
  by (induction xs) (auto intro: insort_key_append)

lemma set_audit_order [simp]: "set (audit_order desc rows) = set rows"
  by (simp add: audit_order_def Let_def)

lemma length_audit_order [simp]: "length (audit_order desc rows) = length rows"
  by (simp add: audit_order_def Let_def)

lemma distinct_audit_order: "distinct (map aw_id rows) \<Longrightarrow> distinct (map aw_id (audit_order desc rows))"
  by (simp add: audit_order_def Let_def distinct_map)

lemma sorted_audit_order:
  "sorted_wrt (\<lambda>a b. if desc then aw_created_at b \<le> aw_created_at a else aw_created_at a \<le> aw_created_at b)
     (audit_order desc rows)"
proof -
  have "sorted_wrt (\<lambda>a b. aw_created_at a \<le> aw_created_at b) (sort_key aw_created_at (sort_key aw_id rows))"
    using sorted_sort_key [of aw_created_at "sort_key aw_id rows"] by (simp only: sorted_map)
  then show ?thesis by (simp add: audit_order_def Let_def sorted_wrt_rev)
qed

section \<open>Reading the log\<close>

definition audit_answers :: "audit_db \<Rightarrow> bool" where
  "audit_answers d \<longleftrightarrow> list_all (\<lambda>b. \<not> b) (ad_faults d)"

lemma audit_answers_hd: "audit_answers d \<Longrightarrow> \<not> (ad_faults d \<noteq> [] \<and> hd (ad_faults d))"
  by (cases "ad_faults d") (auto simp: audit_answers_def)

lemma audit_answers_tl: "audit_answers d \<Longrightarrow> audit_answers (d\<lparr>ad_faults := tl (ad_faults d)\<rparr>)"
  by (cases "ad_faults d") (auto simp: audit_answers_def)

lemma audit_statement_answers:
  "audit_answers d \<Longrightarrow> audit_statement e body d = body (d\<lparr>ad_faults := tl (ad_faults d)\<rparr>)"
  using audit_answers_hd [of d] by (auto simp: audit_statement_def Let_def)

lemma audit_list_eval:
  assumes "audit_answers d" "0 \<le> ap_limit p" "0 \<le> ap_offset p"
  shows "fst (audit_list cl read f p d) =
    Inr (map (audit_record_of read) (take (nat (ap_limit p)) (drop (nat (ap_offset p))
          (audit_order (ap_desc p) (filter (audit_matches cl f) (ad_rows d))))),
         int (length (filter (audit_matches cl f) (ad_rows d))))"
  using assms
  by (simp add: audit_list_def bind_step_def attempt_def audit_statement_answers audit_answers_tl)

definition entries_shown :: "(audit_error + audit_record list \<times> int) \<times> audit_db \<Rightarrow> audit_record list" where
  "entries_shown r = (case fst r of Inr (recs, n) \<Rightarrow> recs | Inl e \<Rightarrow> [])"

text \<open>
  Paging through the command audit shows every entry that passes the filter exactly once, in
  order of time, whichever page size and direction: entries of one batch share their timestamp by
  the hundred, and the identifier breaks the tie.
\<close>
theorem audit_pages_show_each_entry_once:
  assumes "audit_inv d" "audit_answers d" "0 < k"
    and "length (filter (audit_matches cl f) (ad_rows d)) \<le> n * k"
  obtains shown where
    "concat (map (\<lambda>i. entries_shown (audit_list cl read f
          \<lparr>ap_limit = int k, ap_offset = int (i * k), ap_desc = desc\<rparr> d)) [0..<n]) = map (audit_record_of read) shown"
    "distinct (map aw_id shown)"
    "set shown = {r \<in> set (ad_rows d). audit_matches cl f r}"
    "sorted_wrt (\<lambda>a b. if desc then aw_created_at b \<le> aw_created_at a
        else aw_created_at a \<le> aw_created_at b) shown"
proof
  let ?shown = "audit_order desc (filter (audit_matches cl f) (ad_rows d))"
  have "concat (map (\<lambda>i. entries_shown (audit_list cl read f
          \<lparr>ap_limit = int k, ap_offset = int (i * k), ap_desc = desc\<rparr> d)) [0..<n])
      = concat (map (\<lambda>i. map (audit_record_of read) (take k (drop (i * k) ?shown))) [0..<n])"
    using assms(2) by (simp add: entries_shown_def audit_list_eval nat_mult_distrib)
  also have "\<dots> = map (audit_record_of read) (concat (map (\<lambda>i. take k (drop (i * k) ?shown)) [0..<n]))"
    by (simp add: map_concat comp_def)
  also have "\<dots> = map (audit_record_of read) ?shown"
    using assms(3,4) by (subst concat_slices) simp_all
  finally show "concat (map (\<lambda>i. entries_shown (audit_list cl read f
          \<lparr>ap_limit = int k, ap_offset = int (i * k), ap_desc = desc\<rparr> d)) [0..<n]) = map (audit_record_of read) ?shown" .
  show "distinct (map aw_id ?shown)"
    using assms(1) by (intro distinct_audit_order) (simp add: audit_inv_def distinct_map_filter)
qed (auto simp: sorted_audit_order)

definition sample_entry :: "string \<Rightarrow> audit_entry" where
  "sample_entry target =
     \<lparr>an_user_id = Some 7, an_username = ''ops'', an_action = ''toggle'', an_target = target,
      an_payload = Some (JObj [(''switch'', JStr ''notifications'')]), an_status = 202,
      an_response = ''accepted'', an_remote_ip = ''10.0.0.1''\<rparr>"

definition sample_audit :: audit_db where
  "sample_audit = snd (record_batch 50 [sample_entry ''web'', sample_entry ''db/load'']
     \<lparr>ad_rows = [], ad_next = 1, ad_faults = []\<rparr>)"

definition any_entry :: audit_filter where
  "any_entry = \<lparr>uf_username = [], uf_action = [], uf_search = [], uf_from = 0, uf_to = 0,
     uf_failed_only = False\<rparr>"

lemma sample_audit_inv: "audit_inv sample_audit"
proof -
  have "audit_inv \<lparr>ad_rows = [], ad_next = 1, ad_faults = []\<rparr>" by (simp add: audit_inv_def)
  then show ?thesis
    using keeps_record_batch [of 50 "[sample_entry ''web'', sample_entry ''db/load'']"]
    by (simp add: keeps_def sample_audit_def)
qed

lemma sample_audit_answers: "audit_answers sample_audit"
  by code_simp

lemma audit_pages_show_each_entry_once_witness:
  "\<exists>shown. concat (map (\<lambda>i. entries_shown (audit_list (id, (=)) (\<lambda>s. None) any_entry
      \<lparr>ap_limit = int 1, ap_offset = int (i * 1), ap_desc = True\<rparr> sample_audit)) [0..<2])
    = map (audit_record_of (\<lambda>s. None)) shown
    \<and> set shown = {r \<in> set (ad_rows sample_audit). audit_matches (id, (=)) any_entry r}
    \<and> length (ad_rows sample_audit) = 2"
proof -
  have len: "length (filter (audit_matches (id, (=)) any_entry) (ad_rows sample_audit)) \<le> 2 * 1"
    "length (ad_rows sample_audit) = 2" by code_simp+
  show ?thesis
    by (rule audit_pages_show_each_entry_once
        [OF sample_audit_inv sample_audit_answers _ len(1), of "\<lambda>s. None" True]) (use len(2) in auto)
qed

section \<open>What is recorded is what is shown\<close>

definition shown_entry :: "(string \<Rightarrow> json option) \<Rightarrow> int64 \<Rightarrow> audit_entry \<times> nat \<Rightarrow> audit_record" where
  "shown_entry read now p = audit_record_of read (audit_values now (fst p) (snd p))"

lemma record_batch_Inr:
  "record_batch now es d = (Inr (), d') \<Longrightarrow> es \<noteq> [] \<Longrightarrow>
     ad_rows d' = ad_rows d @ map2 (audit_values now) es [ad_next d..<ad_next d + length es]
     \<and> ad_next d' = ad_next d + length es \<and> ad_faults d' = tl (ad_faults d)"
  by (auto simp: record_batch_def audit_statement_def insert_audit_def Let_def split: if_splits)

lemma audit_order_newest:
  assumes "sorted (map aw_id (old @ new))" "\<forall>r \<in> set old. aw_created_at r \<le> now"
    "\<forall>r \<in> set new. aw_created_at r = now"
  shows "take (length new) (audit_order True (old @ new)) = rev new"
proof -
  have "sort_key aw_created_at new = new"
    using assms(3) by (intro sort_key_sorted) (auto simp: sorted_iff_nth_mono)
  moreover have "sort_key aw_created_at (old @ new)
      = sort_key aw_created_at old @ sort_key aw_created_at new"
    using assms(2,3) by (intro sort_key_append) auto
  ultimately show ?thesis
    by (simp add: audit_order_def sort_key_sorted [OF assms(1)])
qed



text \<open>
  A text is cut at a number of bytes, which can fall inside a rune; the table then refuses the
  whole batch, and the refusal it was about goes unrecorded.
\<close>

lemma nth_pairs: "k < n \<Longrightarrow> concat (replicate n [x, y]) ! (2 * k) = x"
proof (induction n arbitrary: k)
  case (Suc n)
  then show ?case by (cases k) auto
qed simp

lemma batch_lost_on_split_rune:
  "fst (record_batch 60
      [sample_entry ''web'', sample_entry (CHR ''a'' # concat (replicate 256 [CHR 0xC3, CHR 0xA9]))]
      sample_audit) = Inl (RecordingFailed 2)"
proof -
  let ?t = "CHR ''a'' # concat (replicate 256 [CHR 0xC3, CHR 0xA9])"
  have len: "length ?t = 513" by (simp add: length_concat sum_list_replicate)
  have "last (take 512 ?t) = ?t ! 511" using len by (simp add: last_conv_nth)
  also have "\<dots> = CHR 0xC3" using nth_pairs [of 255 256 "CHR 0xC3" "CHR 0xA9"] by simp
  finally have "192 \<le> byte (last (take 512 ?t))" by (simp add: byte_def)
  then have "\<not> valid_utf8 (truncate_text ?t 512)"
    unfolding truncate_text_def len using cut_after_lead_byte [of "take 512 ?t"] by simp
  then have "\<not> storable (audit_values 60 (sample_entry ?t) i)" for i
    by (simp add: storable_def fits_def audit_values_def sample_entry_def)
  moreover have "ad_faults sample_audit = []" by code_simp
  ultimately show ?thesis
    by (simp add: record_batch_def audit_statement_def insert_audit_def upt_rec)
qed

lemma escape_placeholders: "holes (audit_where f) = length (audit_args f)"
  by (simp add: audit_where_def audit_args_def Let_def)

end
