(* ===== verification/Urls.thy ===== *)
theory Urls
  imports Json "HOL-Library.AList"
begin

text \<open>
  Queries of URLs as \<^verbatim>\<open>net/url\<close> writes and reads them. The code builds two of them: the request for
  Graphite (\<^verbatim>\<open>internal/metrics/graphite/graphite.go\<close>) and the address of the worker's event stream
  (\<^verbatim>\<open>internal/events/worker.go\<close>), whose query as configured is read first. The library's map is an
  association list without repeated keys; where its order would show, in \<open>Encode\<close>, it is sorted.
\<close>

section \<open>Escapes\<close>

definition upper_hex :: "nat \<Rightarrow> char" where
  "upper_hex d = (if d < 10 then char_of (48 + d) else char_of (55 + d))"

definition unreserved :: "char \<Rightarrow> bool" where
  "unreserved c \<longleftrightarrow>
     (let n = byte c
      in 97 \<le> n \<and> n \<le> 122 \<or> 65 \<le> n \<and> n \<le> 90 \<or> 48 \<le> n \<and> n \<le> 57 \<or> n \<in> {45, 95, 46, 126})"

definition query_byte :: "char \<Rightarrow> string" where
  "query_byte c =
     (if unreserved c then [c]
      else if c = CHR '' '' then ''+''
      else [CHR ''%'', upper_hex (byte c div 16), upper_hex (byte c mod 16)])"

definition query_escape :: "string \<Rightarrow> string" where
  "query_escape s = concat (map query_byte s)"

definition hex_value :: "char \<Rightarrow> nat option" where
  "hex_value c =
     (let n = byte c in
      if 48 \<le> n \<and> n \<le> 57 then Some (n - 48)
      else if 97 \<le> n \<and> n \<le> 102 then Some (n - 87)
      else if 65 \<le> n \<and> n \<le> 70 then Some (n - 55)
      else None)"

fun query_unescape :: "string \<Rightarrow> string option" where
  "query_unescape [] = Some []"
| "query_unescape (c # s) =
     (if c = CHR ''%'' then
        (case s of
           a # b # rest \<Rightarrow>
             (case (hex_value a, hex_value b) of
                (Some x, Some y) \<Rightarrow> map_option ((#) (char_of (16 * x + y))) (query_unescape rest)
              | _ \<Rightarrow> None)
         | _ \<Rightarrow> None)
      else map_option ((#) (if c = CHR ''+'' then CHR '' '' else c)) (query_unescape s))"

lemma reserved [simp]:
  "\<not> unreserved CHR ''%''" "\<not> unreserved CHR ''+''" "\<not> unreserved CHR ''&''" "\<not> unreserved CHR ''=''"
  "\<not> unreserved CHR '';''" "\<not> unreserved CHR '' ''"
  by code_simp+

lemma unreserved_plain: "unreserved c \<Longrightarrow> c \<notin> {CHR ''%'', CHR ''+'', CHR ''&'', CHR ''='', CHR '';''}"
  by auto

lemma hex_digits: "d < 16 \<Longrightarrow> hex_value (upper_hex d) = Some d \<and> unreserved (upper_hex d)"
proof -
  have "list_all (\<lambda>d. hex_value (upper_hex d) = Some d \<and> unreserved (upper_hex d)) [0..<16]" by code_simp
  then show "d < 16 \<Longrightarrow> ?thesis" by (simp add: list_all_iff)
qed

lemma byte_halves: "char_of (16 * (byte c div 16) + byte c mod 16) = c"
  by (simp add: byte_def)

lemma byte_high: "byte c div 16 < 16"
  using byte_less [of c] by linarith

lemma unescape_byte: "query_unescape (query_byte c @ s) = map_option ((#) c) (query_unescape s)"
  using hex_digits [OF byte_high [of c]] hex_digits [of "byte c mod 16"] unreserved_plain [of c] byte_halves [of c]
  by (auto simp: query_byte_def)

text \<open>What was escaped reads back, and contains nothing a query is divided at.\<close>

lemma unescape_escape [simp]: "query_unescape (query_escape s) = Some s"
  by (induction s) (simp_all add: query_escape_def unescape_byte)

lemma escaped_bytes: "c \<in> set (query_escape s) \<Longrightarrow> unreserved c \<or> c = CHR ''+'' \<or> c = CHR ''%''"
proof -
  have "c \<in> set (query_byte b) \<Longrightarrow> unreserved c \<or> c = CHR ''+'' \<or> c = CHR ''%''" for b
    using hex_digits [OF byte_high [of b]] hex_digits [of "byte b mod 16"]
    by (auto simp: query_byte_def split: if_splits)
  then show "c \<in> set (query_escape s) \<Longrightarrow> ?thesis" by (auto simp: query_escape_def)
qed

lemma escaped_apart: "set (query_escape s) \<inter> {CHR ''&'', CHR ''='', CHR '';''} = {}"
  using escaped_bytes [of _ s] unreserved_plain by fastforce

section \<open>Values\<close>

type_synonym url_values = "(string \<times> string list) list"

fun add_value :: "string \<Rightarrow> string \<Rightarrow> url_values \<Rightarrow> url_values" where
  "add_value k v [] = [(k, [v])]"
| "add_value k v ((k', vs) # m) = (if k' = k then (k', vs @ [v]) # m else (k', vs) # add_value k v m)"

definition set_value :: "string \<Rightarrow> string \<Rightarrow> url_values \<Rightarrow> url_values" where
  "set_value k v m = AList.update k [v] m"

definition pairs_of :: "url_values \<Rightarrow> (string \<times> string) list" where
  "pairs_of m = concat (map (\<lambda>(k, vs). map (Pair k) vs) m)"

definition encode_values :: "url_values \<Rightarrow> string" where
  "encode_values m =
     join ''&'' (map (\<lambda>(k, v). query_escape k @ ''='' @ query_escape v) (pairs_of (sort_key fst m)))"

text \<open>\<open>url.ParseQuery\<close>, of which \<open>Query\<close> keeps what it could read: a part that is malformed is left out.\<close>

definition read_part :: "string \<Rightarrow> url_values \<Rightarrow> url_values" where
  "read_part part m =
     (if CHR '';'' \<in> set part \<or> part = [] then m
      else case cut (CHR ''='') part of (k, v, _) \<Rightarrow>
        (case (query_unescape k, query_unescape v) of
           (Some k, Some v) \<Rightarrow> add_value k v m
         | _ \<Rightarrow> m))"

definition parse_query :: "string \<Rightarrow> url_values" where
  "parse_query s = fold read_part (split_on (CHR ''&'') s) []"

text \<open>The values are those of a map whose keys have at least one value each.\<close>

definition values_inv :: "url_values \<Rightarrow> bool" where
  "values_inv m \<longleftrightarrow> distinct (map fst m) \<and> list_all (\<lambda>(_, vs). vs \<noteq> []) m"

lemma fst_add_value: "fst ` set (add_value k v m) = insert k (fst ` set m)"
  by (induction k v m rule: add_value.induct) auto

lemma values_inv_add: "values_inv m \<Longrightarrow> values_inv (add_value k v m)"
proof (induction k v m rule: add_value.induct)
  case (2 k v k' vs m)
  then show ?case using fst_add_value [of k v m] by (auto simp: values_inv_def)
qed (simp add: values_inv_def)

lemma values_inv_read: "values_inv m \<Longrightarrow> values_inv (read_part part m)"
  by (auto simp: read_part_def values_inv_add split: prod.splits option.splits)

lemma values_inv_parse: "values_inv (parse_query s)"
proof -
  have "values_inv m \<Longrightarrow> values_inv (fold read_part parts m)" for parts m
    by (induction parts arbitrary: m) (simp_all add: values_inv_read)
  then show ?thesis unfolding parse_query_def by (simp add: values_inv_def)
qed

lemma values_inv_set: "values_inv m \<Longrightarrow> values_inv (set_value k v m)"
proof -
  have "list_all (\<lambda>(_, vs). vs \<noteq> []) m \<Longrightarrow> list_all (\<lambda>(_, vs). vs \<noteq> []) (AList.update k [v] m)"
    by (induction m) auto
  then show "values_inv m \<Longrightarrow> ?thesis" by (simp add: values_inv_def set_value_def distinct_update)
qed

section \<open>A query reads back\<close>

lemma cut_apart: "d \<notin> set w \<Longrightarrow> cut d (w @ d # s) = (w, s, True)"
  by (induction w) auto

lemma read_part_escaped: "read_part (query_escape k @ ''='' @ query_escape v) m = add_value k v m"
  using escaped_apart [of k] escaped_apart [of v] by (auto simp: read_part_def cut_apart)

lemma parse_encode:
  "parse_query (encode_values m) = fold (\<lambda>(k, v). add_value k v) (pairs_of (sort_key fst m)) []"
proof -
  let ?part = "\<lambda>(k, v). query_escape k @ ''='' @ query_escape v" and ?ps = "pairs_of (sort_key fst m)"
  have read: "fold read_part (map ?part ps) n = fold (\<lambda>(k, v). add_value k v) ps n" for ps n
    by (induction ps arbitrary: n) (auto simp: read_part_escaped simp del: append_Cons)
  show ?thesis
  proof (cases "?ps = []")
    case True
    then show ?thesis by (simp add: parse_query_def encode_values_def read_part_def)
  next
    case False
    then have "split_on (CHR ''&'') (encode_values m) = map ?part ?ps"
      unfolding encode_values_def
      by (intro split_on_join) (use escaped_apart in \<open>force+\<close>)
    then show ?thesis by (simp only: parse_query_def read)
  qed
qed

lemma map_of_add_value:
  "map_of (add_value k v m) = (map_of m)(k \<mapsto> (case map_of m k of None \<Rightarrow> [v] | Some vs \<Rightarrow> vs @ [v]))"
  by (induction k v m rule: add_value.induct) (auto simp: fun_eq_iff)

lemma map_of_adds:
  "map_of (fold (\<lambda>(k, v). add_value k v) ps m) k =
     (let vs = map snd (filter (\<lambda>p. fst p = k) ps) in
      case map_of m k of None \<Rightarrow> if vs = [] then None else Some vs | Some ws \<Rightarrow> Some (ws @ vs))"
  by (induction ps arbitrary: m) (auto simp: map_of_add_value Let_def split: option.splits if_splits)

lemma pairs_of_key:
  "distinct (map fst m) \<Longrightarrow>
     map snd (filter (\<lambda>p. fst p = k) (pairs_of m)) = (case map_of m k of None \<Rightarrow> [] | Some vs \<Rightarrow> vs)"
proof (induction m)
  case (Cons x m)
  have "map snd (filter (\<lambda>p. fst p = k) (map (Pair a) vs)) = (if a = k then vs else [])" for a and vs :: "string list"
    by (induction vs) auto
  moreover have "k = fst x \<Longrightarrow> map_of m k = None" using Cons.prems by (simp add: map_of_eq_None_iff)
  ultimately show ?case using Cons by (cases x) (auto simp: pairs_of_def)
qed (simp add: pairs_of_def)

text \<open>Of every key exactly its values, in their order.\<close>

lemma query_reads_back:
  assumes "values_inv m"
  shows "map_of (parse_query (encode_values m)) = map_of m"
proof
  fix k
  have d: "distinct (map fst m)" "distinct (map fst (sort_key fst m))"
    using assms by (simp_all add: values_inv_def distinct_map)
  then have "map_of (sort_key fst m) = map_of m" by (subst map_of_inject_set) simp_all
  moreover have "map_of m k \<noteq> Some []"
    using assms by (auto simp: values_inv_def list_all_iff dest: map_of_SomeD)
  ultimately show "map_of (parse_query (encode_values m)) k = map_of m k"
    by (simp add: parse_encode map_of_adds pairs_of_key [OF d(2)] split: option.splits)
qed

lemma encode_values_text: "set (encode_values m) \<subseteq> Collect unreserved \<union> set ''&=%+''"
  using escaped_bytes by (fastforce simp: encode_values_def dest: set_join_subset)

end
