(* ===== verification/Metrics.thy ===== *)
theory Metrics
  imports Listing Urls
begin

text \<open>
  Performance data (\<^verbatim>\<open>internal/metrics\<close>): the resolution a chart gets, the provider that reads the
  worker's table (\<^verbatim>\<open>mysqlprov/mysql.go\<close>) and the one for Graphite, which is not wired up yet
  (\<^verbatim>\<open>graphite/graphite.go\<close>). The aggregates over floating point values are MySQL's and a parameter.
\<close>

section \<open>The resolution\<close>

definition buckets :: "int64 list" where
  "buckets = [10, 30, 60, 300, 900, 1800, 3600, 6 * 3600, 12 * 3600, 86400, 7 * 86400]"

definition bucket_for :: "int64 \<Rightarrow> int64 \<Rightarrow> int \<Rightarrow> int64" where
  "bucket_for start finish points =
     (let points = (if points < 1 then 500 else points);
          span = wrap64 (finish - start)
      in if span \<le> 0 then hd buckets
         else case find (\<lambda>b. go_div span b \<le> points) buckets of
           Some b \<Rightarrow> b
         | None \<Rightarrow> let n = go_div span points in if n > 0 then n else last buckets)"

datatype metrics_error =
    InvalidQuery string
  | QueryingFailed
  | ListingMetricsFailed
  | NotImplementedYet

definition validate_query :: "metric_query \<Rightarrow> metrics_error option" where
  "validate_query q =
     (if mq_hostname q = [] then Some (InvalidQuery ''metrics: hostname is required'')
      else if mq_description q = [] then Some (InvalidQuery ''metrics: service_description is required'')
      else if mq_to q < mq_from q then Some (InvalidQuery ''metrics: to is before from'')
      else None)"

section \<open>The worker's table\<close>

text \<open>The text of the statement and the values it binds.\<close>

definition metric_text :: "string list \<Rightarrow> string" where
  "metric_text labels =
     ''SELECT label, COALESCE(unit, '' @ [CHR 0x27, CHR 0x27] @ ''), (timestamp_unix DIV ?) * ? AS bucket,''
     @ '' AVG(value), MIN(value), MAX(value) FROM statusengine_perfdata''
     @ '' WHERE hostname = ? AND service_description = ?''
     @ (if labels \<noteq> [] then
          '' AND label IN ('' @ trim_suffix (concat (map (\<lambda>l. ''?,'') labels)) '','' @ '')'' else [])
     @ '' AND timestamp_unix BETWEEN ? AND ? GROUP BY label, unit, bucket ORDER BY label, bucket''"

definition metric_args :: "int64 \<Rightarrow> metric_query \<Rightarrow> sql_value list" where
  "metric_args b q =
     [VInt b, VInt b, VStr (mq_hostname q), VStr (mq_description q)]
     @ (if mq_labels q \<noteq> [] then map VStr (mq_labels q) else [])
     @ [VInt (mq_from q), VInt (mq_to q)]"

text \<open>Its condition.\<close>

definition object_conditions :: "string \<Rightarrow> string \<Rightarrow> conditions" where
  "object_conditions host svc =
     [Bound ''hostname'' Eq (VStr host), Bound ''service_description'' Eq (VStr svc)]"

definition metric_conditions :: "metric_query \<Rightarrow> conditions" where
  "metric_conditions q =
     object_conditions (mq_hostname q) (mq_description q)
     @ (if mq_labels q \<noteq> [] then [AnyOf (map (\<lambda>l. Bound ''label'' Eq (VStr l)) (mq_labels q))] else [])
     @ [Bound ''timestamp_unix'' Ge (VInt (mq_from q)), Bound ''timestamp_unix'' Le (VInt (mq_to q))]"

definition time_of :: "sql_row \<Rightarrow> int64" where
  "time_of r = (case r ''timestamp_unix'' of VInt n \<Rightarrow> n | _ \<Rightarrow> 0)"

definition bucket_of :: "int64 \<Rightarrow> sql_row \<Rightarrow> int64" where
  "bucket_of b r = go_div (time_of r) b * b"

text \<open>\<open>GROUP BY\<close> tells strings apart by their collation key; \<open>NULL\<close> is a group of its own.\<close>

definition group_key :: "collation \<Rightarrow> sql_value \<Rightarrow> string option" where
  "group_key cl v = (case v of VStr s \<Rightarrow> Some (fst cl s) | _ \<Rightarrow> None)"

definition text_value :: "sql_value \<Rightarrow> string" where
  "text_value v = (case v of VStr s \<Rightarrow> s | _ \<Rightarrow> [])"

record aggregates =
  ag_avg :: "sql_value list \<Rightarrow> float64"
  ag_min :: "sql_value list \<Rightarrow> float64"
  ag_max :: "sql_value list \<Rightarrow> float64"

record metric_row =
  mw_label :: sql_value
  mw_unit :: string
  mw_bucket :: int64
  mw_avg :: float64
  mw_min :: float64
  mw_max :: float64

definition metric_key :: "collation \<Rightarrow> int64 \<Rightarrow> sql_row \<Rightarrow> string option \<times> string option \<times> int64" where
  "metric_key cl b r = (group_key cl (r ''label''), group_key cl (r ''unit''), bucket_of b r)"

definition metric_groups :: "collation \<Rightarrow> aggregates \<Rightarrow> int64 \<Rightarrow> sql_row list \<Rightarrow> metric_row list" where
  "metric_groups cl ag b rows =
     map (\<lambda>k. let mine = filter (\<lambda>r. metric_key cl b r = k) rows;
                  vs = map (\<lambda>r. r ''value'') mine
              in \<lparr>mw_label = hd mine ''label'', mw_unit = text_value (hd mine ''unit''),
                  mw_bucket = snd (snd k), mw_avg = ag_avg ag vs, mw_min = ag_min ag vs,
                  mw_max = ag_max ag vs\<rparr>)
       (remdups (map (metric_key cl b) rows))"

text \<open>
  One pass over the rows: a row with another label than the current series opens a new one, with
  the unit of that row. \<open>done\<close> are the finished series, the current one last.
\<close>

definition point_of :: "metric_row \<Rightarrow> point" where
  "point_of r = \<lparr>pt_time = mw_bucket r, pt_avg = mw_avg r, pt_min = mw_min r, pt_max = mw_max r\<rparr>"

definition add_point :: "series list \<Rightarrow> metric_row \<Rightarrow> series list" where
  "add_point sers r =
     (let label = text_value (mw_label r) in
      if sers = [] \<or> sr_label (last sers) \<noteq> label
      then sers @ [\<lparr>sr_label = label, sr_unit = mw_unit r, sr_points = [point_of r]\<rparr>]
      else butlast sers @ [(last sers)\<lparr>sr_points := sr_points (last sers) @ [point_of r]\<rparr>])"

definition build_series :: "metric_row list \<Rightarrow> series list" where
  "build_series rows = foldl add_point [] rows"

text \<open>\<open>ord\<close> is what the server does with the \<open>ORDER BY\<close>, \<open>fault\<close> that the statement fails.\<close>

definition metrics_query ::
  "collation \<Rightarrow> aggregates \<Rightarrow> (metric_row list \<Rightarrow> metric_row list) \<Rightarrow> database \<Rightarrow> bool \<Rightarrow> metric_query
     \<Rightarrow> metrics_error + metric_result" where
  "metrics_query cl ag ord db fault q =
     guard_err (validate_query q) (
       let b = bucket_for (mq_from q) (mq_to q) (mq_max_points q)
       in fail_if fault QueryingFailed (
            let rows = filter (matches cl (metric_conditions q)) (db ''statusengine_perfdata'')
            in Inr \<lparr>mr_series = build_series (ord (metric_groups cl ag b rows)), mr_bucket_seconds = b,
                 mr_from = mq_from q, mr_to = mq_to q, mr_source = ''mysql''\<rparr>))"

definition fold1 :: "('a \<Rightarrow> 'a \<Rightarrow> 'a) \<Rightarrow> 'a list \<Rightarrow> 'a" where
  "fold1 f xs = fold f (tl xs) (hd xs)"

definition metrics_labels ::
  "collation \<Rightarrow> (metric_meta list \<Rightarrow> metric_meta list) \<Rightarrow> database \<Rightarrow> bool \<Rightarrow> string \<Rightarrow> string
     \<Rightarrow> metrics_error + metric_meta list" where
  "metrics_labels cl ord db fault host svc =
     fail_if fault ListingMetricsFailed (
       let rows = filter (matches cl (object_conditions host svc)) (db ''statusengine_perfdata'');
           key = (\<lambda>r. (group_key cl (r ''label''), group_key cl (r ''unit'')))
       in Inr (ord (map (\<lambda>k. let mine = filter (\<lambda>r. key r = k) rows
                 in \<lparr>mm_hostname = host, mm_description = svc,
                     mm_label = text_value (hd mine ''label''), mm_unit = text_value (hd mine ''unit''),
                     mm_first_seen = fold1 min (map time_of mine),
                     mm_last_seen = fold1 max (map time_of mine)\<rparr>)
            (remdups (map key rows)))))"

section \<open>Graphite\<close>

definition graphite_rune :: "nat \<Rightarrow> char" where
  "graphite_rune r =
     (if 97 \<le> r \<and> r \<le> 122 \<or> 65 \<le> r \<and> r \<le> 90 \<or> 48 \<le> r \<and> r \<le> 57 \<or> r = 45 then char_of r
      else CHR ''_'')"

definition sanitise :: "string \<Rightarrow> string" where
  "sanitise s = map graphite_rune (runes s)"

record graphite =
  gr_base_url :: string
  gr_prefix :: string

definition new_graphite :: "string \<Rightarrow> string \<Rightarrow> graphite" where
  "new_graphite base_url pre =
     \<lparr>gr_base_url = rev (dropWhile (\<lambda>c. c = CHR ''/'') (rev base_url)), gr_prefix = pre\<rparr>"

definition metric_path :: "graphite \<Rightarrow> string \<Rightarrow> string \<Rightarrow> string \<Rightarrow> string" where
  "metric_path p host svc label =
     join ''.'' (filter (\<lambda>w. w \<noteq> [])
       [gr_prefix p, sanitise host, sanitise svc, sanitise label])"

definition graphite_labels :: "graphite \<Rightarrow> string \<Rightarrow> string \<Rightarrow> metrics_error + metric_meta list" where
  "graphite_labels p host svc = Inl NotImplementedYet"

definition graphite_query :: "graphite \<Rightarrow> metric_query \<Rightarrow> metrics_error + metric_result" where
  "graphite_query p q = Inl NotImplementedYet"

definition err_not_implemented :: string where
  "err_not_implemented =
     ''the graphite metrics provider is not implemented yet; set metrics_provider to mysql''"

text \<open>The request the finished client will make, its values as they were added.\<close>

definition render_url :: "graphite \<Rightarrow> string list \<Rightarrow> int64 \<Rightarrow> int64 \<Rightarrow> int \<Rightarrow> string" where
  "render_url p targets start finish points =
     gr_base_url p @ ''/render?'' @ encode_values
       [(''target'', targets), (''from'', [fmt_int start]), (''until'', [fmt_int finish]),
        (''maxDataPoints'', [fmt_int points]), (''format'', [''json''])]"

text \<open>A path has one level per part, whatever the names hold.\<close>

lemma char_of_dot: "r < 256 \<Longrightarrow> char_of r = CHR ''.'' \<longleftrightarrow> r = 46" for r :: nat
  by (simp add: char_of_eq_iff take_bit_eq_mod)

lemma graphite_rune_no_dot: "graphite_rune r \<noteq> CHR ''.''"
proof (cases "97 \<le> r \<and> r \<le> 122 \<or> 65 \<le> r \<and> r \<le> 90 \<or> 48 \<le> r \<and> r \<le> 57 \<or> r = 45")
  case True
  then have "r < 256" "r \<noteq> 46" by linarith+
  with True char_of_dot [of r] show ?thesis by (simp add: graphite_rune_def)
next
  case False
  then have "graphite_rune r = CHR ''_''" unfolding graphite_rune_def by (rule if_not_P)
  then show ?thesis by simp
qed

lemma sanitise_no_dot: "CHR ''.'' \<notin> set (sanitise s)"
  by (auto simp: sanitise_def graphite_rune_no_dot [symmetric] dest: sym [of "CHR ''.''"])

lemma metric_path_levels:
  assumes "gr_prefix p \<noteq> []" "CHR ''.'' \<notin> set (gr_prefix p)"
  shows "split_on (CHR ''.'') (metric_path p host svc label)
    = filter (\<lambda>w. w \<noteq> []) [gr_prefix p, sanitise host, sanitise svc, sanitise label]"
  unfolding metric_path_def
  by (rule split_on_join) (use assms sanitise_no_dot in \<open>auto split: if_splits\<close>)

text \<open>A rendered address asks for the targets in order, between the other values in the order of their keys.\<close>

lemma render_url_order:
  "render_url p targets start finish points = gr_base_url p @ ''/render?'' @ join ''&''
     ([''format=json'', ''from='' @ query_escape (fmt_int start),
       ''maxDataPoints='' @ query_escape (fmt_int points)]
      @ map (\<lambda>t. ''target='' @ query_escape t) targets @ [''until='' @ query_escape (fmt_int finish)])"
proof -
  have sorted: "sort_key fst [(''target'', targets), (''from'', [fmt_int start]), (''until'', [fmt_int finish]),
      (''maxDataPoints'', [fmt_int points]), (''format'', [''json''])]
    = [(''format'', [''json'']), (''from'', [fmt_int start]), (''maxDataPoints'', [fmt_int points]),
       (''target'', targets), (''until'', [fmt_int finish])]"
    by (simp add: sort_key_def)
  have keys: "query_escape ''target'' = ''target''" "query_escape ''from'' = ''from''" "query_escape ''until'' = ''until''"
    "query_escape ''maxDataPoints'' = ''maxDataPoints''" "query_escape ''format'' = ''format''"
    "query_escape ''json'' = ''json''"
    by code_simp+
  show ?thesis
    unfolding render_url_def encode_values_def sorted by (simp add: keys comp_def pairs_of_def)
qed

section \<open>The interface\<close>

text \<open>
  \<open>Provider\<close>: what the endpoint may rely on whichever backend answers. A result is for a query that
  is valid, and says which window and resolution it is for.
\<close>

locale metrics_provider =
  fixes query :: "metric_query \<Rightarrow> metrics_error + metric_result"
    and name :: string
  assumes answers_valid: "query q = Inr res \<Longrightarrow> validate_query q = None"
    and answers_window: "query q = Inr res \<Longrightarrow>
      mr_from res = mq_from q \<and> mr_to res = mq_to q \<and> 0 < mr_bucket_seconds res \<and> mr_source res = name"
begin

lemma answered_object:
  assumes "query q = Inr res"
  shows "mq_hostname q \<noteq> [] \<and> mq_description q \<noteq> [] \<and> mr_from res \<le> mr_to res"
  using answers_valid [OF assms] answers_window [OF assms] by (auto simp: validate_query_def split: if_splits)

lemma refuses_reversed: "mq_to q < mq_from q \<Longrightarrow> query q \<noteq> Inr res"
  using answered_object [of q res] answers_window [of q res] by auto

end

section \<open>The budget\<close>

lemma find_SomeD: "find P xs = Some x \<Longrightarrow> x \<in> set xs \<and> P x"
  by (induction xs) (auto split: if_splits)

lemma buckets_positive: "b \<in> set buckets \<Longrightarrow> 0 < b"
  by (auto simp: buckets_def)

lemma bucket_for_positive: "0 < bucket_for s f n"
proof -
  have "0 < hd buckets" "0 < last buckets" by (simp_all add: buckets_def)
  then show ?thesis
    by (auto simp: bucket_for_def Let_def dest: find_SomeD buckets_positive split: option.splits)
qed

interpretation mysql: metrics_provider "metrics_query cl ag ord db fault" "''mysql''" for cl ag ord db fault
  by unfold_locales (auto simp: metrics_query_def guard_simps Let_def bucket_for_positive)

interpretation graphite: metrics_provider "graphite_query p" "''graphite''" for p
  by unfold_locales (simp_all add: graphite_query_def)

text \<open>
  The chosen resolution keeps the window within the budget; beyond a week per point it is the
  window divided by the budget, which is exact enough for any budget below the length of a week.
\<close>

lemma bucket_for_budget:
  assumes "0 \<le> s" "s \<le> f" "f < 2 ^ 63" "1 \<le> n" "n \<le> 604800"
  shows "(f - s) div bucket_for s f n \<le> n"
proof (cases "f = s")
  case True
  with assms show ?thesis by simp
next
  case False
  have span: "wrap64 (f - s) = f - s" "0 < f - s"
    using assms False by (simp_all add: wrap64_id int64_range_def)
  show ?thesis
  proof (cases "find (\<lambda>b. go_div (f - s) b \<le> n) buckets")
    case (Some b)
    then have "go_div (f - s) b \<le> n" "0 < b" by (auto dest: find_SomeD buckets_positive)
    with Some span assms show ?thesis
      by (simp add: bucket_for_def Let_def go_div_nonneg)
  next
    case None
    then have "\<not> go_div (f - s) (7 * 86400) \<le> n"
      unfolding find_None_iff by (auto simp: buckets_def)
    then have big: "n < (f - s) div 604800" using span by (simp add: go_div_nonneg)
    define m where "m = (f - s) div n"
    have "604800 * (n + 1) \<le> f - s" using big by simp
    then have "604800 * n \<le> f - s" by simp
    then have m: "604800 \<le> m" unfolding m_def using assms(4) zdiv_mono1 [of "604800 * n" "f - s" n] by simp
    have r: "f - s = m * n + (f - s) mod n" unfolding m_def by simp
    have "(f - s) mod n < m" using m assms(4,5) by (smt (verit) pos_mod_bound)
    moreover have "0 \<le> (f - s) mod n" using assms(4) by simp
    ultimately have "(f - s) div m = n"
      using r by (smt (verit) div_pos_pos_trivial div_mult_self3 mult.commute)
    moreover have "bucket_for s f n = m"
      using None span assms(4) m unfolding m_def bucket_for_def Let_def
      by (simp add: go_div_nonneg)
    ultimately show ?thesis by simp
  qed
qed

section \<open>The series\<close>

text \<open>No row is lost, doubled or moved to another label: the series side by side are the rows.\<close>

lemma add_point_labelled:
  "concat (map (\<lambda>s. map (Pair (sr_label s)) (sr_points s)) (add_point sers r))
     = concat (map (\<lambda>s. map (Pair (sr_label s)) (sr_points s)) sers) @ [(text_value (mw_label r), point_of r)]"
  by (cases sers rule: rev_cases) (simp_all add: add_point_def Let_def)

lemma build_series_rows:
  "concat (map (\<lambda>s. map (Pair (sr_label s)) (sr_points s)) (build_series rows))
     = map (\<lambda>r. (text_value (mw_label r), point_of r)) rows"
proof -
  have "concat (map (\<lambda>s. map (Pair (sr_label s)) (sr_points s)) (foldl add_point sers rows))
      = concat (map (\<lambda>s. map (Pair (sr_label s)) (sr_points s)) sers)
        @ map (\<lambda>r. (text_value (mw_label r), point_of r)) rows" for sers
    by (induction rows arbitrary: sers) (simp_all add: add_point_labelled)
  then show ?thesis by (simp add: build_series_def)
qed

lemma build_series_point:
  assumes "s \<in> set (build_series rows)" "p \<in> set (sr_points s)"
  obtains r where "r \<in> set rows" "p = point_of r" "sr_label s = text_value (mw_label r)"
proof -
  have "(sr_label s, p) \<in> set (concat (map (\<lambda>s. map (Pair (sr_label s)) (sr_points s)) (build_series rows)))"
    using assms by auto
  then show ?thesis unfolding build_series_rows using that by auto
qed

lemma div_two_parts: "0 < b \<Longrightarrow> x < b \<Longrightarrow> y < b \<Longrightarrow> (x + y) div b \<le> 1" for b :: int
proof (rule ccontr)
  assume a: "0 < b" "x < b" "y < b" "\<not> (x + y) div b \<le> 1"
  then have "2 * b \<le> (x + y) div b * b" by (intro mult_right_mono) simp_all
  also have "\<dots> \<le> x + y" using a(1) by (metis div_mult_mod_eq le_add_same_cancel1 pos_mod_sign)
  finally show False using a by simp
qed

lemma metric_group_row:
  "g \<in> set (metric_groups cl ag b rows) \<Longrightarrow> \<exists>r \<in> set rows. mw_bucket g = bucket_of b r"
  by (auto simp: metric_groups_def metric_key_def Let_def)

lemma metric_row_in_window:
  assumes "r \<in> set (filter (matches cl (metric_conditions q)) rows)"
  shows "mq_from q \<le> time_of r \<and> time_of r \<le> mq_to q"
proof -
  have "eval cl r (Bound ''timestamp_unix'' Ge (VInt (mq_from q))) = Some True"
    "eval cl r (Bound ''timestamp_unix'' Le (VInt (mq_to q))) = Some True"
    using assms by (auto simp: matches_def metric_conditions_def)
  then show ?thesis by (cases "r ''timestamp_unix''") (auto simp: time_of_def)
qed

text \<open>
  A chart stays within its window and its budget: every point is the start of a bucket that
  overlaps the window, and no series has points at more than two instants above the number asked
  for, the two buckets the window only touches.
\<close>
theorem charts_stay_within_budget:
  assumes "metrics_query cl ag ord db fault q = Inr res"
    and "\<And>rows. set (ord rows) = set rows"
    and "0 \<le> mq_from q" "mq_to q < 2 ^ 63" "1 \<le> mq_max_points q" "mq_max_points q \<le> 604800"
    and "s \<in> set (mr_series res)"
  shows "(\<forall>p \<in> set (sr_points s). mr_bucket_seconds res dvd pt_time p
        \<and> mq_from q - mr_bucket_seconds res < pt_time p \<and> pt_time p \<le> mq_to q)
    \<and> card (pt_time ` set (sr_points s)) \<le> nat (mq_max_points q) + 2"
proof -
  let ?b = "mr_bucket_seconds res" and ?f = "mq_from q" and ?t = "mq_to q"
  have le: "?f \<le> ?t" using mysql.answered_object [OF assms(1)] mysql.answers_window [OF assms(1)] by simp
  from assms(1) obtain rows where b: "?b = bucket_for ?f ?t (mq_max_points q)"
    and series: "mr_series res = build_series (ord (metric_groups cl ag ?b
      (filter (matches cl (metric_conditions q)) rows)))"
    by (auto simp: metrics_query_def guard_simps Let_def)
  have pos: "0 < ?b" unfolding b by (rule bucket_for_positive)
  have point: "\<exists>n. ?f \<le> n \<and> n \<le> ?t \<and> pt_time p = n div ?b * ?b" if sp: "p \<in> set (sr_points s)" for p
  proof -
    obtain g where "g \<in> set (ord (metric_groups cl ag ?b (filter (matches cl (metric_conditions q)) rows)))"
      "p = point_of g"
      using build_series_point [OF assms(7) [unfolded series] sp] by (metis (no_types, lifting))
    then have "g \<in> set (metric_groups cl ag ?b (filter (matches cl (metric_conditions q)) rows))"
      and "pt_time p = mw_bucket g"
      by (simp_all only: assms(2) point_of_def point.simps)
    then obtain r where r: "r \<in> set (filter (matches cl (metric_conditions q)) rows)"
      "pt_time p = bucket_of ?b r"
      using metric_group_row by metis
    from metric_row_in_window [OF r(1)] assms(3) pos r(2) show ?thesis
      by (intro exI [of _ "time_of r"]) (simp add: bucket_of_def go_div_nonneg)
  qed
  have "?b dvd pt_time p \<and> ?f - ?b < pt_time p \<and> pt_time p \<le> ?t" if sp: "p \<in> set (sr_points s)" for p
  proof -
    obtain n where n: "?f \<le> n" "n \<le> ?t" "pt_time p = n div ?b * ?b" using point [OF sp] by blast
    have "n - ?b < n div ?b * ?b" "n div ?b * ?b \<le> n"
      using pos pos_mod_bound [OF pos, of n] pos_mod_sign [OF pos, of n]
        div_mult_mod_eq [of n ?b] by linarith+
    with n show ?thesis by simp
  qed
  moreover have "card (pt_time ` set (sr_points s)) \<le> nat (mq_max_points q) + 2"
  proof -
    have "pt_time ` set (sr_points s) \<subseteq> (\<lambda>k. k * ?b) ` {?f div ?b .. ?t div ?b}"
    proof
      fix x assume "x \<in> pt_time ` set (sr_points s)"
      then obtain n where "?f \<le> n" "n \<le> ?t" "x = n div ?b * ?b" using point by auto
      then show "x \<in> (\<lambda>k. k * ?b) ` {?f div ?b .. ?t div ?b}"
        using pos by (intro image_eqI [of _ _ "n div ?b"]) (simp_all add: zdiv_mono1)
    qed
    then have "card (pt_time ` set (sr_points s)) \<le> card {?f div ?b .. ?t div ?b}"
      by (meson card_image_le card_mono finite_atLeastAtMost_int finite_imageI le_trans)
    also have "\<dots> = nat (?t div ?b - ?f div ?b + 1)" by simp
    finally have "card (pt_time ` set (sr_points s)) \<le> nat (?t div ?b - ?f div ?b + 1)" .
    moreover have "?t div ?b = (?t - ?f) div ?b + ?f div ?b + ((?t - ?f) mod ?b + ?f mod ?b) div ?b"
      using div_add1_eq [of "?t - ?f" ?f ?b] by simp
    moreover have "((?t - ?f) mod ?b + ?f mod ?b) div ?b \<le> 1"
      using pos_mod_bound [OF pos, of "?t - ?f"] pos_mod_bound [OF pos, of ?f] div_two_parts [OF pos]
      by simp
    moreover have "(?t - ?f) div ?b \<le> mq_max_points q"
      using bucket_for_budget [OF assms(3) le assms(4,5,6)] b by simp
    ultimately show ?thesis using assms(5) by linarith
  qed
  ultimately show ?thesis by blast
qed

definition sample_perfdata :: database where
  "sample_perfdata t =
     (if t = ''statusengine_perfdata'' then
        map (\<lambda>n. (\<lambda>_. VNull)(''hostname'' := VStr ''web'', ''service_description'' := VStr ''load'',
            ''label'' := VStr ''load1'', ''timestamp_unix'' := VInt n, ''value'' := VFloat 0))
          [100, 104, 130, 900]
      else [])"

definition sample_metric_query :: metric_query where
  "sample_metric_query = \<lparr>mq_hostname = ''web'', mq_description = ''load'', mq_labels = [],
     mq_from = 100, mq_to = 200, mq_max_points = 20\<rparr>"

lemma charts_stay_within_budget_witness:
  "\<exists>res. metrics_query (id, (=)) \<lparr>ag_avg = \<lambda>_. 0, ag_min = \<lambda>_. 0, ag_max = \<lambda>_. 0\<rparr> id sample_perfdata
      False sample_metric_query = Inr res
    \<and> map (\<lambda>s. map pt_time (sr_points s)) (mr_series res) = [[100, 130]]
    \<and> (\<forall>s \<in> set (mr_series res). card (pt_time ` set (sr_points s)) \<le> 22)"
proof -
  let ?run = "metrics_query (id, (=)) \<lparr>ag_avg = \<lambda>_. 0, ag_min = \<lambda>_. 0, ag_max = \<lambda>_. 0\<rparr> id
    sample_perfdata False sample_metric_query"
  have "(case ?run of Inr res \<Rightarrow> map (\<lambda>s. map pt_time (sr_points s)) (mr_series res) = [[100, 130]]
      | Inl e \<Rightarrow> False)"
    by code_simp
  then obtain res where res: "?run = Inr res"
    "map (\<lambda>s. map pt_time (sr_points s)) (mr_series res) = [[100, 130]]"
    by (auto split: sum.splits)
  have "card (pt_time ` set (sr_points s)) \<le> 22" if "s \<in> set (mr_series res)" for s
    using charts_stay_within_budget [OF res(1) _ _ _ _ _ that]
    by (simp add: sample_metric_query_def)
  then show ?thesis by (intro exI [of _ res] conjI ballI res)
qed

end
