(* ===== verification/StatusLists.thy ===== *)
theory StatusLists
  imports Listing
begin

text \<open>
  The host and the service list (\<^verbatim>\<open>hosts.go\<close> and \<^verbatim>\<open>services.go\<close> of
  \<^verbatim>\<open>internal/repository/mysql\<close>): the statement, the scan, the fields computed after it. The
  lists are shown to hold the objects that satisfy the filter as the caller reads it.
\<close>

section \<open>Hosts\<close>

definition host_sort_columns :: "string \<rightharpoonup> proj" where
  "host_sort_columns = map_of
     [(''hostname'', Col ''hostname''),
      (''severity'', CaseOf ''current_state'' [(1, 2), (2, 1)]),
      (''state'', Col ''current_state''),
      (''last_check'', Col ''last_check''),
      (''next_check'', Col ''next_check''),
      (''last_state_change'', Col ''last_state_change''),
      (''current_check_attempt'', Col ''current_check_attempt''),
      (''latency'', Col ''latency''),
      (''execution_time'', Col ''execution_time''),
      (''output'', Col ''output'')]"

definition host_list_columns :: "field list" where
  "host_list_columns =
    [(Col ''hostname'', ''''), (Coal ''current_state'' (VInt 0), ''''),
     (Coal ''is_hardstate'' (VInt 0), ''''), (Coal ''output'' (VStr ''''), ''''),
     (Coal ''perfdata'' (VStr ''''), ''''), (Coal ''current_check_attempt'' (VInt 0), ''''),
     (Coal ''max_check_attempts'' (VInt 0), ''''), (Col ''last_check'', ''''),
     (Col ''next_check'', ''''), (Col ''last_state_change'', ''''),
     (Col ''last_hard_state_change'', ''''), (Col ''status_update_time'', ''''),
     (Coal ''problem_has_been_acknowledged'' (VInt 0), ''''),
     (Coal ''acknowledgement_type'' (VInt 0), ''''),
     (Coal ''scheduled_downtime_depth'' (VInt 0), ''''), (Coal ''is_flapping'' (VInt 0), ''''),
     (Coal ''notifications_enabled'' (VInt 0), ''''),
     (Coal ''active_checks_enabled'' (VInt 0), ''''),
     (Coal ''passive_checks_enabled'' (VInt 0), ''''),
     (Coal ''is_passive_check'' (VInt 0), ''''), (Coal ''event_handler_enabled'' (VInt 0), ''''),
     (Coal ''flap_detection_enabled'' (VInt 0), ''''), (Coal ''latency'' (VFloat 0), ''''),
     (Coal ''execution_time'' (VFloat 0), '''')]"

definition host_detail_columns :: "field list" where
  "host_detail_columns = host_list_columns @
    [(Coal ''long_output'' (VStr ''''), ''''), (Coal ''check_command'' (VStr ''''), ''''),
     (Coal ''event_handler'' (VStr ''''), ''''), (Coal ''check_timeperiod'' (VStr ''''), ''''),
     (Coal ''node_name'' (VStr ''''), ''''), (Coal ''normal_check_interval'' (VInt 0), ''''),
     (Coal ''retry_check_interval'' (VInt 0), ''''),
     (Coal ''percent_state_change'' (VFloat 0), ''''), (Col ''last_time_up'', ''''),
     (Col ''last_time_down'', ''''), (Col ''last_time_unreachable'', ''''),
     (Col ''last_notification'', ''''), (Col ''next_notification'', ''''),
     (Coal ''current_notification_number'' (VInt 0), '''')]"

text \<open>\<open>k\<close> stands for the destinations the caller appends, and for what follows the scan.\<close>

definition host_targets :: "(host_status \<Rightarrow> 'r scanner) \<Rightarrow> 'r scanner" where
  "host_targets k =
     dest scan_string (\<lambda>v_hostname. dest scan_int (\<lambda>v_state.
     dest scan_bool (\<lambda>v_is_hard. dest scan_string (\<lambda>v_output.
     dest scan_string (\<lambda>v_perfdata. dest scan_int (\<lambda>v_current_attempt.
     dest scan_int (\<lambda>v_max_attempts. dest scan_int (\<lambda>v_last_check.
     dest scan_int (\<lambda>v_next_check. dest scan_int (\<lambda>v_last_state_change.
     dest scan_int (\<lambda>v_last_hard_change. dest scan_int (\<lambda>v_status_updated.
     dest scan_bool (\<lambda>v_acknowledged. dest scan_int (\<lambda>v_ack_type.
     dest scan_int (\<lambda>v_downtime_depth. dest scan_bool (\<lambda>v_is_flapping.
     dest scan_bool (\<lambda>v_notifications_on. dest scan_bool (\<lambda>v_active_checks_on.
     dest scan_bool (\<lambda>v_passive_checks_on. dest scan_bool (\<lambda>v_is_passive_check.
     dest scan_bool (\<lambda>v_event_handler_on. dest scan_bool (\<lambda>v_flap_detection_on.
     dest scan_float (\<lambda>v_latency. dest scan_float (\<lambda>v_execution_time.
     k \<lparr>hs_hostname = v_hostname, hs_state = v_state, hs_state_text = '''',
       hs_is_hard = v_is_hard, hs_output = v_output, hs_perfdata = v_perfdata,
       hs_current_attempt = v_current_attempt, hs_max_attempts = v_max_attempts,
       hs_last_check = v_last_check, hs_next_check = v_next_check,
       hs_last_state_change = v_last_state_change, hs_last_hard_change = v_last_hard_change,
       hs_status_updated = v_status_updated, hs_acknowledged = v_acknowledged,
       hs_ack_type = v_ack_type, hs_in_downtime = False, hs_downtime_depth = v_downtime_depth,
       hs_is_flapping = v_is_flapping, hs_notifications_on = v_notifications_on,
       hs_active_checks_on = v_active_checks_on, hs_passive_checks_on = v_passive_checks_on,
       hs_is_passive_check = v_is_passive_check, hs_event_handler_on = v_event_handler_on,
       hs_flap_detection_on = v_flap_detection_on, hs_latency = v_latency,
       hs_execution_time = v_execution_time, hs_detail = no_host_detail\<rparr>))))))))))))))))))))))))"

definition host_detail_targets :: "host_status \<Rightarrow> host_status scanner" where
  "host_detail_targets h =
     dest scan_string (\<lambda>d_long_output. dest scan_string (\<lambda>d_check_command.
     dest scan_string (\<lambda>d_event_handler. dest scan_string (\<lambda>d_check_timeperiod.
     dest scan_string (\<lambda>d_node_name. dest scan_int (\<lambda>d_check_interval.
     dest scan_int (\<lambda>d_retry_interval. dest scan_float (\<lambda>d_percent_change.
     dest scan_int (\<lambda>d_last_time_up. dest scan_int (\<lambda>d_last_time_down.
     dest scan_int (\<lambda>d_last_time_unreach. dest scan_int (\<lambda>d_last_notified.
     dest scan_int (\<lambda>d_next_notify. dest scan_int (\<lambda>d_notify_number.
     scanned (h\<lparr>hs_detail := \<lparr>hd_long_output = d_long_output, hd_check_command = d_check_command,
       hd_event_handler = d_event_handler, hd_check_timeperiod = d_check_timeperiod,
       hd_node_name = d_node_name, hd_check_interval = d_check_interval,
       hd_retry_interval = d_retry_interval, hd_percent_change = d_percent_change,
       hd_last_time_up = d_last_time_up, hd_last_time_down = d_last_time_down,
       hd_last_time_unreach = d_last_time_unreach, hd_last_notified = d_last_notified,
       hd_next_notify = d_next_notify, hd_notify_number = d_notify_number\<rparr>\<rparr>)))))))))))))))"

definition finish_host :: "host_status \<Rightarrow> host_status" where
  "finish_host h = h\<lparr>
     hs_state_text := (if host_pending h then ''pending'' else host_state_string (hs_state h)),
     hs_in_downtime := 0 < hs_downtime_depth h\<rparr>"

definition scan_host_list :: "host_status scanner" where
  "scan_host_list = host_targets (\<lambda>h. scanned (finish_host h))"

definition hosts_select :: "status_filter \<Rightarrow> select" where
  "hosts_select f = \<lparr>sl_fields = host_list_columns, sl_from = Table ''statusengine_hoststatus'',
     sl_where = apply_status f [''hostname''] HostUp\<rparr>"

definition hosts_list :: "server \<Rightarrow> status_filter \<Rightarrow> page \<Rightarrow> list_error + host_status list \<times> int" where
  "hosts_list sv f p =
     plain_page sv (hosts_select f) (order_of (pg_sort p) (pg_desc p) host_sort_columns ''hostname'')
       scan_host_list p"

datatype get_error = NotFound | GetFailed

text \<open>The first row of a statement: \<open>QueryRow\<close>.\<close>

definition query_row :: "bool \<Rightarrow> sql_value list list \<Rightarrow> 'r scanner \<Rightarrow> get_error + 'r" where
  "query_row fault rows sc =
     (if fault then Inl GetFailed
      else case rows of
          [] \<Rightarrow> Inl NotFound
        | row # _ \<Rightarrow> (case sc row of None \<Rightarrow> Inl GetFailed | Some x \<Rightarrow> Inr x))"

definition host_get :: "collation \<Rightarrow> database \<Rightarrow> bool \<Rightarrow> string \<Rightarrow> get_error + host_status" where
  "host_get cl db fault hostname =
     bind_err
       (query_row fault
         (map (project host_detail_columns)
           (filter (matches cl [Bound ''hostname'' Eq (VStr hostname)]) (db ''statusengine_hoststatus'')))
         (host_targets host_detail_targets))
       (\<lambda>h. Inr (finish_host h))"

definition host_names ::
  "arrange \<Rightarrow> database \<Rightarrow> bool \<Rightarrow> int \<Rightarrow> list_error + string list" where
  "host_names arr db fault limit =
     fail_if (fault \<or> limit < 0) ListFailed
       (map_err (scan_row (dest scan_string scanned))
         (take (nat limit) (arr (Col ''hostname'', False, Col ''hostname'')
           (map (\<lambda>r. (r, [r ''hostname''])) (db ''statusengine_hoststatus'')))))"

section \<open>Services\<close>

definition service_sort_columns :: "string \<rightharpoonup> proj" where
  "service_sort_columns = map_of
     [(''hostname'', Col ''hostname''),
      (''service_description'', Col ''service_description''),
      (''severity'', CaseOf ''current_state'' [(2, 3), (1, 2), (3, 1)]),
      (''state'', Col ''current_state''),
      (''last_check'', Col ''last_check''),
      (''next_check'', Col ''next_check''),
      (''last_state_change'', Col ''last_state_change''),
      (''current_check_attempt'', Col ''current_check_attempt''),
      (''latency'', Col ''latency''),
      (''execution_time'', Col ''execution_time''),
      (''output'', Col ''output'')]"

definition service_list_columns :: "field list" where
  "service_list_columns =
    [(Col ''hostname'', ''''), (Col ''service_description'', ''''),
     (Coal ''current_state'' (VInt 0), ''''), (Coal ''is_hardstate'' (VInt 0), ''''),
     (Coal ''output'' (VStr ''''), ''''), (Coal ''perfdata'' (VStr ''''), ''''),
     (Coal ''current_check_attempt'' (VInt 0), ''''),
     (Coal ''max_check_attempts'' (VInt 0), ''''), (Col ''last_check'', ''''),
     (Col ''next_check'', ''''), (Col ''last_state_change'', ''''),
     (Col ''last_hard_state_change'', ''''), (Col ''status_update_time'', ''''),
     (Coal ''problem_has_been_acknowledged'' (VInt 0), ''''),
     (Coal ''acknowledgement_type'' (VInt 0), ''''),
     (Coal ''scheduled_downtime_depth'' (VInt 0), ''''), (Coal ''is_flapping'' (VInt 0), ''''),
     (Coal ''notifications_enabled'' (VInt 0), ''''),
     (Coal ''active_checks_enabled'' (VInt 0), ''''),
     (Coal ''passive_checks_enabled'' (VInt 0), ''''),
     (Coal ''is_passive_check'' (VInt 0), ''''), (Coal ''event_handler_enabled'' (VInt 0), ''''),
     (Coal ''flap_detection_enabled'' (VInt 0), ''''), (Coal ''latency'' (VFloat 0), ''''),
     (Coal ''execution_time'' (VFloat 0), '''')]"

definition service_detail_columns :: "field list" where
  "service_detail_columns = service_list_columns @
    [(Coal ''long_output'' (VStr ''''), ''''), (Coal ''check_command'' (VStr ''''), ''''),
     (Coal ''event_handler'' (VStr ''''), ''''), (Coal ''check_timeperiod'' (VStr ''''), ''''),
     (Coal ''node_name'' (VStr ''''), ''''), (Coal ''normal_check_interval'' (VInt 0), ''''),
     (Coal ''retry_check_interval'' (VInt 0), ''''),
     (Coal ''percent_state_change'' (VFloat 0), ''''), (Col ''last_time_ok'', ''''),
     (Col ''last_time_warning'', ''''), (Col ''last_time_critical'', ''''),
     (Col ''last_time_unknown'', ''''), (Col ''last_notification'', ''''),
     (Col ''next_notification'', ''''), (Coal ''current_notification_number'' (VInt 0), '''')]"

definition service_targets :: "(service_status \<Rightarrow> 'r scanner) \<Rightarrow> 'r scanner" where
  "service_targets k =
     dest scan_string (\<lambda>v_hostname. dest scan_string (\<lambda>v_description.
     dest scan_int (\<lambda>v_state. dest scan_bool (\<lambda>v_is_hard.
     dest scan_string (\<lambda>v_output. dest scan_string (\<lambda>v_perfdata.
     dest scan_int (\<lambda>v_current_attempt. dest scan_int (\<lambda>v_max_attempts.
     dest scan_int (\<lambda>v_last_check. dest scan_int (\<lambda>v_next_check.
     dest scan_int (\<lambda>v_last_state_change. dest scan_int (\<lambda>v_last_hard_change.
     dest scan_int (\<lambda>v_status_updated. dest scan_bool (\<lambda>v_acknowledged.
     dest scan_int (\<lambda>v_ack_type. dest scan_int (\<lambda>v_downtime_depth.
     dest scan_bool (\<lambda>v_is_flapping. dest scan_bool (\<lambda>v_notifications_on.
     dest scan_bool (\<lambda>v_active_checks_on. dest scan_bool (\<lambda>v_passive_checks_on.
     dest scan_bool (\<lambda>v_is_passive_check. dest scan_bool (\<lambda>v_event_handler_on.
     dest scan_bool (\<lambda>v_flap_detection_on. dest scan_float (\<lambda>v_latency.
     dest scan_float (\<lambda>v_execution_time.
     k \<lparr>ss_hostname = v_hostname, ss_description = v_description, ss_state = v_state,
       ss_state_text = '''', ss_is_hard = v_is_hard, ss_output = v_output,
       ss_perfdata = v_perfdata, ss_current_attempt = v_current_attempt,
       ss_max_attempts = v_max_attempts, ss_last_check = v_last_check,
       ss_next_check = v_next_check, ss_last_state_change = v_last_state_change,
       ss_last_hard_change = v_last_hard_change, ss_status_updated = v_status_updated,
       ss_acknowledged = v_acknowledged, ss_ack_type = v_ack_type, ss_in_downtime = False,
       ss_downtime_depth = v_downtime_depth, ss_is_flapping = v_is_flapping,
       ss_notifications_on = v_notifications_on, ss_active_checks_on = v_active_checks_on,
       ss_passive_checks_on = v_passive_checks_on, ss_is_passive_check = v_is_passive_check,
       ss_event_handler_on = v_event_handler_on, ss_flap_detection_on = v_flap_detection_on,
       ss_latency = v_latency, ss_execution_time = v_execution_time, ss_detail = no_service_detail\<rparr>)))))))))))))))))))))))))"

definition service_detail_targets :: "service_status \<Rightarrow> service_status scanner" where
  "service_detail_targets s =
     dest scan_string (\<lambda>d_long_output. dest scan_string (\<lambda>d_check_command.
     dest scan_string (\<lambda>d_event_handler. dest scan_string (\<lambda>d_check_timeperiod.
     dest scan_string (\<lambda>d_node_name. dest scan_int (\<lambda>d_check_interval.
     dest scan_int (\<lambda>d_retry_interval. dest scan_float (\<lambda>d_percent_change.
     dest scan_int (\<lambda>d_last_time_ok. dest scan_int (\<lambda>d_last_time_warning.
     dest scan_int (\<lambda>d_last_time_crit. dest scan_int (\<lambda>d_last_time_unknown.
     dest scan_int (\<lambda>d_last_notified. dest scan_int (\<lambda>d_next_notify.
     dest scan_int (\<lambda>d_notify_number.
     scanned (s\<lparr>ss_detail := \<lparr>sd_long_output = d_long_output, sd_check_command = d_check_command,
       sd_event_handler = d_event_handler, sd_check_timeperiod = d_check_timeperiod,
       sd_node_name = d_node_name, sd_check_interval = d_check_interval,
       sd_retry_interval = d_retry_interval, sd_percent_change = d_percent_change,
       sd_last_time_ok = d_last_time_ok, sd_last_time_warning = d_last_time_warning,
       sd_last_time_crit = d_last_time_crit, sd_last_time_unknown = d_last_time_unknown,
       sd_last_notified = d_last_notified, sd_next_notify = d_next_notify,
       sd_notify_number = d_notify_number\<rparr>\<rparr>))))))))))))))))"

definition finish_service :: "service_status \<Rightarrow> service_status" where
  "finish_service s = s\<lparr>
     ss_state_text := (if service_pending s then ''pending'' else service_state_string (ss_state s)),
     ss_in_downtime := 0 < ss_downtime_depth s\<rparr>"

definition scan_service_list :: "service_status scanner" where
  "scan_service_list = service_targets (\<lambda>s. scanned (finish_service s))"

definition services_select :: "status_filter \<Rightarrow> select" where
  "services_select f = \<lparr>sl_fields = service_list_columns, sl_from = Table ''statusengine_servicestatus'',
     sl_where = apply_status f [''hostname'', ''service_description''] ServiceOK\<rparr>"

definition services_list ::
  "server \<Rightarrow> status_filter \<Rightarrow> page \<Rightarrow> list_error + service_status list \<times> int" where
  "services_list sv f p =
     plain_page sv (services_select f)
       (order_of (pg_sort p) (pg_desc p) service_sort_columns ''hostname'') scan_service_list p"

definition service_get ::
  "collation \<Rightarrow> database \<Rightarrow> bool \<Rightarrow> string \<Rightarrow> string \<Rightarrow> get_error + service_status" where
  "service_get cl db fault hostname description =
     bind_err
       (query_row fault
         (map (project service_detail_columns)
           (filter (matches cl [Bound ''hostname'' Eq (VStr hostname),
                                Bound ''service_description'' Eq (VStr description)])
             (db ''statusengine_servicestatus'')))
         (service_targets service_detail_targets))
       (\<lambda>s. Inr (finish_service s))"

section \<open>What the lists hold\<close>

lemma literal_columns [simp]: "plain ''hostname''" "plain ''service_description''"
  by (simp_all add: plain_def)

lemma well_named_apply_status:
  "list_all plain cols \<Longrightarrow> well_named (apply_status f cols ok)"
  by (simp add: apply_status_def plain_def)

lemma host_columns_plain: "list_all plain_field host_list_columns"
  by (simp add: host_list_columns_def plain_field_def render_field_def)

lemma service_columns_plain: "list_all plain_field service_list_columns"
  by (simp add: service_list_columns_def plain_field_def render_field_def)

interpretation host_statement: list_statement host_list_columns "\<lambda>f. [hosts_select f]"
  using host_columns_plain
  by unfold_locales (auto simp: hosts_select_def plain_source_def well_named_apply_status)

interpretation service_statement: list_statement service_list_columns "\<lambda>f. [services_select f]"
  using service_columns_plain
  by unfold_locales (auto simp: services_select_def plain_source_def well_named_apply_status)

text \<open>
  The filter as the caller reads it, on what the caller sees: every question that was asked is
  answered the way it was asked.
\<close>

definition asked :: "bool option \<Rightarrow> bool \<Rightarrow> bool" where
  "asked want b \<longleftrightarrow> want = None \<or> want = Some b"

definition status_selected ::
  "collation \<Rightarrow> status_filter \<Rightarrow> string list \<Rightarrow> int \<Rightarrow> bool \<Rightarrow> bool \<Rightarrow> bool \<Rightarrow> bool \<Rightarrow> bool
     \<Rightarrow> bool \<Rightarrow> bool \<Rightarrow> bool" where
  "status_selected cl f texts state acknowledged flapping notifications active hard passive downtime
     \<longleftrightarrow> (sf_host f = [] \<or> fst cl (hd texts) = fst cl (sf_host f))
       \<and> (sf_search f = [] \<or> (\<exists>t \<in> set texts. contains (snd cl) (sf_search f) t))
       \<and> (sf_states f = [] \<or> state \<in> set (sf_states f))
       \<and> (sf_problems_only f \<longrightarrow> state \<noteq> 0)
       \<and> asked (sf_acknowledged f) acknowledged
       \<and> asked (sf_flapping f) flapping
       \<and> asked (sf_notifications_enabled f) notifications
       \<and> asked (sf_active_checks_enabled f) active
       \<and> asked (sf_hard_state f) hard
       \<and> asked (sf_passive f) passive
       \<and> asked (sf_in_downtime f) downtime
       \<and> asked (sf_handled f) (acknowledged \<or> downtime)"

definition host_selected :: "collation \<Rightarrow> status_filter \<Rightarrow> host_status \<Rightarrow> bool" where
  "host_selected cl f h =
     status_selected cl f [hs_hostname h] (hs_state h) (hs_acknowledged h) (hs_is_flapping h)
       (hs_notifications_on h) (hs_active_checks_on h) (hs_is_hard h) (hs_is_passive_check h)
       (hs_in_downtime h)"

definition service_selected :: "collation \<Rightarrow> status_filter \<Rightarrow> service_status \<Rightarrow> bool" where
  "service_selected cl f s =
     status_selected cl f [ss_hostname s, ss_description s] (ss_state s) (ss_acknowledged s)
       (ss_is_flapping s) (ss_notifications_on s) (ss_active_checks_on s) (ss_is_hard s)
       (ss_is_passive_check s) (ss_in_downtime s)"

text \<open>
  A complete row: the columns the filter looks at hold a value. The worker declares nearly all of
  them \<open>NULL\<close>-able.
\<close>

definition status_flags :: "string list" where
  "status_flags = [''problem_has_been_acknowledged'', ''is_flapping'', ''notifications_enabled'',
     ''active_checks_enabled'', ''is_hardstate'', ''is_passive_check'']"

definition complete_row :: "string list \<Rightarrow> sql_row \<Rightarrow> bool" where
  "complete_row texts r \<longleftrightarrow>
     list_all (\<lambda>c. \<exists>t. r c = VStr t) texts
     \<and> numeric r ''current_state''
     \<and> (numeric r ''scheduled_downtime_depth'' \<and> 0 \<le> num r ''scheduled_downtime_depth'')
     \<and> list_all (\<lambda>c. r c = VInt 0 \<or> r c = VInt 1) status_flags"

definition text_of :: "sql_row \<Rightarrow> string \<Rightarrow> string" where
  "text_of r col = (case r col of VStr t \<Rightarrow> t | _ \<Rightarrow> [])"

lemma flag_numeric: "r c = VInt 0 \<or> r c = VInt 1 \<Longrightarrow> numeric r c"
  by (auto simp: numeric_def)

lemma matches_flag:
  assumes "r c = VInt 0 \<or> r c = VInt 1"
  shows "matches cl (add_bool c want) r \<longleftrightarrow> asked want (num r c = 1)"
  using assms by (auto simp: matches_add_bool asked_def num_def split: option.splits)

lemma matches_apply_status:
  assumes "complete_row texts r" "texts = ''hostname'' # rest"
  shows "matches cl (apply_status f texts 0) r \<longleftrightarrow>
    status_selected cl f (map (text_of r) texts) (num r ''current_state'')
      (num r ''problem_has_been_acknowledged'' = 1) (num r ''is_flapping'' = 1)
      (num r ''notifications_enabled'' = 1) (num r ''active_checks_enabled'' = 1)
      (num r ''is_hardstate'' = 1) (num r ''is_passive_check'' = 1)
      (0 < num r ''scheduled_downtime_depth'')"
proof -
  have t: "r c = VStr (text_of r c)" if "c \<in> set texts" for c
    using assms(1) that by (auto simp: complete_row_def list_all_iff text_of_def)
  have s: "r ''current_state'' = VInt (num r ''current_state'')"
    using assms(1) by (intro numericD) (simp add: complete_row_def)
  have d: "numeric r ''scheduled_downtime_depth''" "0 \<le> num r ''scheduled_downtime_depth''"
    using assms(1) by (simp_all add: complete_row_def)
  have f: "r c = VInt 0 \<or> r c = VInt 1" if "c \<in> set status_flags" for c
    using assms(1) that by (auto simp: complete_row_def list_all_iff)
  have ack: "num r ''problem_has_been_acknowledged'' = 0 \<or> num r ''problem_has_been_acknowledged'' = 1"
    using f [of "''problem_has_been_acknowledged''"] by (auto simp: status_flags_def num_def)
  have fl: "matches cl (add_bool c want) r \<longleftrightarrow> asked want (num r c = 1)"
    if "c \<in> set status_flags" for c want
    using f [OF that] by (rule matches_flag)
  have host: "matches cl (add_eq ''hostname'' v) r \<longleftrightarrow> v = [] \<or> fst cl (text_of r ''hostname'') = fst cl v"
    for v using t [of "''hostname''"] assms(2) by (simp add: matches_add_eq)
  have search: "matches cl (add_search v texts) r \<longleftrightarrow>
      v = [] \<or> (\<exists>x \<in> set (map (text_of r) texts). contains (snd cl) v x)" for v
    using t by (auto simp: matches_add_search)
  have depth: "matches cl (add_depth ''scheduled_downtime_depth'' w) r
      \<longleftrightarrow> asked w (0 < num r ''scheduled_downtime_depth'')" for w
    using d by (auto simp: matches_add_depth asked_def split: option.splits)
  have handled: "matches cl (add_handled ''problem_has_been_acknowledged'' ''scheduled_downtime_depth'' w) r
      \<longleftrightarrow> asked w (num r ''problem_has_been_acknowledged'' = 1 \<or> 0 < num r ''scheduled_downtime_depth'')" for w
    using d ack f [of "''problem_has_been_acknowledged''"]
    by (auto simp: matches_add_handled asked_def flag_numeric status_flags_def split: option.splits)
  have states: "matches cl (add_in ''current_state'' vs) r \<longleftrightarrow> vs = [] \<or> num r ''current_state'' \<in> set vs" for vs
    by (auto simp: matches_add_in s)
  have only: "matches cl (if b then [Bound ''current_state'' Ne (VInt 0)] else []) r
      \<longleftrightarrow> (b \<longrightarrow> num r ''current_state'' \<noteq> 0)" for b
    by (simp add: matches_simps s)
  show ?thesis
    unfolding apply_status_def status_selected_def
    by (simp add: matches_simps(2) host search [unfolded assms(2)] states only depth handled fl status_flags_def assms(2))
qed

lemma complete_rowD:
  assumes "complete_row texts r"
  shows "c \<in> set texts \<Longrightarrow> r c = VStr (text_of r c)"
    and "r ''current_state'' = VInt (num r ''current_state'')"
    and "r ''scheduled_downtime_depth'' = VInt (num r ''scheduled_downtime_depth'')"
    and "c \<in> set status_flags \<Longrightarrow> r c = VInt (num r c)"
  using assms
  by (auto simp: complete_row_def list_all_iff text_of_def flag_numeric intro!: numericD)

lemma dest_SomeE:
  assumes "dest f k (v # vs) = Some x"
  obtains a where "f v = Some a" "k a vs = Some x"
  using assms by (auto split: option.splits)

lemma scannedE:
  assumes "scanned x vs = Some y" obtains "y = x"
  using assms by (simp add: scanned_def split: if_splits)

lemma scan_bool_Some: "scan_bool v = Some b \<longleftrightarrow> v = VInt (if b then 1 else 0)"
  by (cases v) auto

lemma coalesced: "r c = VInt n \<Longrightarrow> value_of (Coal c (VInt 0)) r = VInt n"
  by simp

text \<open>The cells behind the fields of a scanned host.\<close>

lemma scan_host_cells:
  assumes h: "scan_host_list (project host_list_columns r) = Some h"
  shows "scan_string (r ''hostname'') = Some (hs_hostname h)"
    "scan_int (value_of (Coal ''current_state'' (VInt 0)) r) = Some (hs_state h)"
    "scan_bool (value_of (Coal ''is_hardstate'' (VInt 0)) r) = Some (hs_is_hard h)"
    "scan_bool (value_of (Coal ''problem_has_been_acknowledged'' (VInt 0)) r) = Some (hs_acknowledged h)"
    "scan_bool (value_of (Coal ''is_flapping'' (VInt 0)) r) = Some (hs_is_flapping h)"
    "scan_bool (value_of (Coal ''notifications_enabled'' (VInt 0)) r) = Some (hs_notifications_on h)"
    "scan_bool (value_of (Coal ''active_checks_enabled'' (VInt 0)) r) = Some (hs_active_checks_on h)"
    "scan_bool (value_of (Coal ''is_passive_check'' (VInt 0)) r) = Some (hs_is_passive_check h)"
    "scan_int (value_of (Coal ''scheduled_downtime_depth'' (VInt 0)) r) = Some (hs_downtime_depth h)"
    "hs_in_downtime h = (0 < hs_downtime_depth h)"
  using h unfolding project_def host_list_columns_def scan_host_list_def host_targets_def
    list.map fst_conv
  by - (elim dest_SomeE scannedE; simp add: finish_host_def)+

lemma scan_service_cells:
  assumes s: "scan_service_list (project service_list_columns r) = Some s"
  shows "scan_string (r ''hostname'') = Some (ss_hostname s)"
    "scan_string (r ''service_description'') = Some (ss_description s)"
    "scan_int (value_of (Coal ''current_state'' (VInt 0)) r) = Some (ss_state s)"
    "scan_bool (value_of (Coal ''is_hardstate'' (VInt 0)) r) = Some (ss_is_hard s)"
    "scan_bool (value_of (Coal ''problem_has_been_acknowledged'' (VInt 0)) r) = Some (ss_acknowledged s)"
    "scan_bool (value_of (Coal ''is_flapping'' (VInt 0)) r) = Some (ss_is_flapping s)"
    "scan_bool (value_of (Coal ''notifications_enabled'' (VInt 0)) r) = Some (ss_notifications_on s)"
    "scan_bool (value_of (Coal ''active_checks_enabled'' (VInt 0)) r) = Some (ss_active_checks_on s)"
    "scan_bool (value_of (Coal ''is_passive_check'' (VInt 0)) r) = Some (ss_is_passive_check s)"
    "scan_int (value_of (Coal ''scheduled_downtime_depth'' (VInt 0)) r) = Some (ss_downtime_depth s)"
    "ss_in_downtime s = (0 < ss_downtime_depth s)"
  using s unfolding project_def service_list_columns_def scan_service_list_def service_targets_def
    list.map fst_conv
  by - (elim dest_SomeE scannedE; simp add: finish_service_def)+

lemma complete_cells:
  assumes "complete_row texts r"
  shows "c \<in> set texts \<Longrightarrow> scan_string (r c) = Some t \<Longrightarrow> text_of r c = t"
    and "c \<in> set [''current_state'', ''scheduled_downtime_depth''] \<Longrightarrow>
      scan_int (value_of (Coal c (VInt 0)) r) = Some n \<Longrightarrow> num r c = n"
    and "c \<in> set status_flags \<Longrightarrow> scan_bool (value_of (Coal c (VInt 0)) r) = Some b \<Longrightarrow> (num r c = 1) = b"
proof -
  note row = complete_rowD [OF assms]
  show "text_of r c = t" if "c \<in> set texts" "scan_string (r c) = Some t"
    using that(2) by (subst (asm) row(1) [OF that(1)]) simp
  have v: "value_of (Coal c (VInt 0)) r = VInt (num r c)" if "r c = VInt (num r c)" for c
    by (simp only: value_of.simps that) simp
  show "num r c = n" if "c \<in> set [''current_state'', ''scheduled_downtime_depth'']"
    "scan_int (value_of (Coal c (VInt 0)) r) = Some n"
  proof -
    have "r c = VInt (num r c)" using that(1) row(2,3) by auto
    then show ?thesis using that(2) v [of c] by (simp split: if_splits del: value_of.simps)
  qed
  show "(num r c = 1) = b" if "c \<in> set status_flags"
    "scan_bool (value_of (Coal c (VInt 0)) r) = Some b"
    using that(2) v [OF row(4) [OF that(1)]]
    by (simp add: scan_bool_Some split: if_splits del: value_of.simps)
qed

lemma host_row_selected:
  assumes c: "complete_row [''hostname''] r"
    and h: "scan_host_list (project host_list_columns r) = Some h"
  shows "matches cl (sl_where (hosts_select f)) r \<longleftrightarrow> host_selected cl f h"
proof -
  note cells = scan_host_cells [OF h]
  show ?thesis
    using complete_cells(1) [OF c _ cells(1)] complete_cells(2) [OF c _ cells(2)]
      complete_cells(2) [OF c _ cells(9)] cells(10)
      complete_cells(3) [OF c _ cells(3)] complete_cells(3) [OF c _ cells(4)]
      complete_cells(3) [OF c _ cells(5)] complete_cells(3) [OF c _ cells(6)]
      complete_cells(3) [OF c _ cells(7)] complete_cells(3) [OF c _ cells(8)]
    by (simp add: hosts_select_def host_selected_def HostUp_def matches_apply_status [OF c refl]
        status_flags_def)
qed

lemma service_row_selected:
  assumes c: "complete_row [''hostname'', ''service_description''] r"
    and s: "scan_service_list (project service_list_columns r) = Some s"
  shows "matches cl (sl_where (services_select f)) r \<longleftrightarrow> service_selected cl f s"
proof -
  note cells = scan_service_cells [OF s]
  show ?thesis
    using complete_cells(1) [OF c _ cells(1)] complete_cells(1) [OF c _ cells(2)]
      complete_cells(2) [OF c _ cells(3)] complete_cells(2) [OF c _ cells(10)] cells(11)
      complete_cells(3) [OF c _ cells(4)] complete_cells(3) [OF c _ cells(5)]
      complete_cells(3) [OF c _ cells(6)] complete_cells(3) [OF c _ cells(7)]
      complete_cells(3) [OF c _ cells(8)] complete_cells(3) [OF c _ cells(9)]
    by (simp add: services_select_def service_selected_def ServiceOK_def
        matches_apply_status [OF c refl] status_flags_def)
qed

text \<open>
  C28. For every filter and every page: the total is the number of hosts that satisfy the filter as
  the caller reads it, the page holds only such hosts and none twice, and it is as long as the limit
  and the offset allow. Hosts are what the caller sees (the scanned records); their rows hold no
  \<open>NULL\<close> in the columns the filter looks at, and the table is the same at the count and the listing.
\<close>
theorem hosts_list_exact:
  assumes "hosts_list sv f p = Inr (out, tot)"
    and "sorts (sv_collation sv) (sv_arrange sv)"
    and "sv_counted sv = sv_listed sv"
    and "map (\<lambda>r. scan_host_list (project host_list_columns r))
        (sv_listed sv ''statusengine_hoststatus'') = map Some hosts"
    and "list_all (complete_row [''hostname'']) (sv_listed sv ''statusengine_hoststatus'')"
  defines "wanted \<equiv> filter (host_selected (sv_collation sv) f) hosts"
  shows "tot = int (length wanted) \<and> mset out \<subseteq># mset wanted
    \<and> length out = min (nat (pg_limit p)) (length wanted - nat (pg_offset p))"
proof -
  have rows: "map (\<lambda>r. scan_host_list (project (sl_fields (hosts_select f)) r))
      (source_rows (sv_collation sv) (sv_listed sv) (sl_from (hosts_select f))) = map Some hosts"
    using assms(4) by (simp add: hosts_select_def)
  have sel: "matches (sv_collation sv) (sl_where (hosts_select f)) r
      \<longleftrightarrow> host_selected (sv_collation sv) f h"
    if "r \<in> set (source_rows (sv_collation sv) (sv_listed sv) (sl_from (hosts_select f)))"
      "scan_host_list (project (sl_fields (hosts_select f)) r) = Some h" for r h
    using that assms(5) by (intro host_row_selected) (auto simp: hosts_select_def list_all_iff)
  show ?thesis
    unfolding wanted_def
    by (intro conjI plain_page_holds [OF assms(1) [unfolded hosts_list_def] assms(2,3) rows])
      (rule sel; assumption)+
qed

text \<open>A small installation: one host up, one down and acknowledged.\<close>

definition status_row :: "string \<Rightarrow> int \<Rightarrow> int \<Rightarrow> sql_row" where
  "status_row name state ack col =
     (if col = ''hostname'' then VStr name
      else if col = ''service_description'' then VStr ''ping''
      else if col = ''current_state'' then VInt state
      else if col = ''problem_has_been_acknowledged'' then VInt ack
      else if col = ''output'' then VStr ''x''
      else if col \<in> {''perfdata'', ''latency'', ''execution_time''} then VNull
      else if col = ''scheduled_downtime_depth'' then VInt 0
      else VInt 1)"

definition plain_collation :: collation where
  "plain_collation = (id, (=))"

definition sample_status :: database where
  "sample_status t =
     (if t \<in> {''statusengine_hoststatus'', ''statusengine_servicestatus''}
      then [status_row ''web'' 0 0, status_row ''db'' 1 1] else [])"

definition sample_server :: server where
  "sample_server = \<lparr>sv_collation = plain_collation, sv_arrange = insertion plain_collation,
     sv_counted = sample_status, sv_listed = sample_status, sv_faults = (False, False)\<rparr>"

definition no_filter :: status_filter where
  "no_filter = \<lparr>sf_search = [], sf_host = [], sf_states = [], sf_acknowledged = None,
     sf_in_downtime = None, sf_flapping = None, sf_notifications_enabled = None,
     sf_active_checks_enabled = None, sf_hard_state = None, sf_passive = None,
     sf_problems_only = False, sf_handled = None\<rparr>"

definition first_page :: page where
  "first_page = \<lparr>pg_limit = 50, pg_offset = 0, pg_sort = ''hostname'', pg_desc = False\<rparr>"

lemma sample_server_sorts: "sorts (sv_collation sample_server) (sv_arrange sample_server)"
  by (simp add: sample_server_def insertion_sorts)

lemma sample_server_stable: "sv_counted sample_server = sv_listed sample_server"
  by (simp add: sample_server_def)

theorem hosts_list_exact_witness:
  "\<exists>out. hosts_list sample_server (no_filter\<lparr>sf_handled := Some True\<rparr>) first_page = Inr (out, 1)
     \<and> map hs_hostname out = [''db'']"
proof -
  let ?f = "no_filter\<lparr>sf_handled := Some True\<rparr>"
  let ?rows = "sv_listed sample_server ''statusengine_hoststatus''"
  let ?hosts = "map (\<lambda>r. the (scan_host_list (project host_list_columns r))) ?rows"
  have "case hosts_list sample_server ?f first_page of
      Inl _ \<Rightarrow> False | Inr (out, n) \<Rightarrow> map hs_hostname out = [''db'']"
    by code_simp
  then obtain out n where run: "hosts_list sample_server ?f first_page = Inr (out, n)"
    and out: "map hs_hostname out = [''db'']"
    by (auto split: sum.splits)
  have "map (\<lambda>r. scan_host_list (project host_list_columns r)) ?rows = map Some ?hosts"
    by code_simp
  moreover have "list_all (complete_row [''hostname'']) ?rows"
    by (simp add: sample_server_def sample_status_def complete_row_def status_row_def numeric_def
        num_def status_flags_def)
  ultimately have "n = int (length (filter (host_selected (sv_collation sample_server) ?f) ?hosts))"
    using hosts_list_exact [OF run sample_server_sorts sample_server_stable] by blast
  also have "\<dots> = 1" by code_simp
  finally have "n = 1" .
  then show ?thesis using run out by (intro exI [of _ out]) simp
qed

text \<open>
  The service list, likewise: the total and the page are the services that satisfy the filter
  as the caller reads it, on the host name, the description and the flags of the records.
\<close>
theorem services_list_exact:
  assumes "services_list sv f p = Inr (out, tot)"
    and "sorts (sv_collation sv) (sv_arrange sv)"
    and "sv_counted sv = sv_listed sv"
    and "map (\<lambda>r. scan_service_list (project service_list_columns r))
        (sv_listed sv ''statusengine_servicestatus'') = map Some svcs"
    and "list_all (complete_row [''hostname'', ''service_description''])
        (sv_listed sv ''statusengine_servicestatus'')"
  defines "wanted \<equiv> filter (service_selected (sv_collation sv) f) svcs"
  shows "tot = int (length wanted) \<and> mset out \<subseteq># mset wanted
    \<and> length out = min (nat (pg_limit p)) (length wanted - nat (pg_offset p))"
proof -
  have rows: "map (\<lambda>r. scan_service_list (project (sl_fields (services_select f)) r))
      (source_rows (sv_collation sv) (sv_listed sv) (sl_from (services_select f))) = map Some svcs"
    using assms(4) by (simp add: services_select_def)
  have sel: "matches (sv_collation sv) (sl_where (services_select f)) r
      \<longleftrightarrow> service_selected (sv_collation sv) f s"
    if "r \<in> set (source_rows (sv_collation sv) (sv_listed sv) (sl_from (services_select f)))"
      "scan_service_list (project (sl_fields (services_select f)) r) = Some s" for r s
    using that assms(5) by (intro service_row_selected) (auto simp: services_select_def list_all_iff)
  show ?thesis
    unfolding wanted_def
    by (intro conjI plain_page_holds [OF assms(1) [unfolded services_list_def] assms(2,3) rows])
      (rule sel; assumption)+
qed

theorem services_list_exact_witness:
  "\<exists>out. services_list sample_server (no_filter\<lparr>sf_search := ''e''\<rparr>) first_page = Inr (out, 1)
     \<and> map ss_hostname out = [''web'']"
proof -
  let ?f = "no_filter\<lparr>sf_search := ''e''\<rparr>"
  let ?rows = "sv_listed sample_server ''statusengine_servicestatus''"
  let ?svcs = "map (\<lambda>r. the (scan_service_list (project service_list_columns r))) ?rows"
  have "case services_list sample_server ?f first_page of
      Inl _ \<Rightarrow> False | Inr (out, n) \<Rightarrow> map ss_hostname out = [''web'']"
    by code_simp
  then obtain out n where run: "services_list sample_server ?f first_page = Inr (out, n)"
    and out: "map ss_hostname out = [''web'']"
    by (auto split: sum.splits)
  have svcs: "map (\<lambda>r. scan_service_list (project service_list_columns r)) ?rows = map Some ?svcs"
    by code_simp
  have "list_all (complete_row [''hostname'', ''service_description'']) ?rows"
    by (simp add: sample_server_def sample_status_def complete_row_def status_row_def numeric_def
        num_def status_flags_def)
  from services_list_exact [OF run sample_server_sorts sample_server_stable svcs this]
  have "length out = min 50 (nat n)" by (simp add: first_page_def)
  moreover have "length (map ss_hostname out) = 1" by (simp add: out)
  ultimately have "n = 1" by simp
  then show ?thesis using run out by (intro exI [of _ out]) simp
qed

text \<open>
  A flag column that is \<open>NULL\<close> reads as false in the list and in the summary, but the host is in
  neither half of the filter on it.
\<close>

lemma null_flag_in_neither_half:
  assumes "r ''problem_has_been_acknowledged'' = VNull"
    and "scan_host_list (project host_list_columns r) = Some h"
  shows "\<not> hs_acknowledged h"
    and "\<not> matches cl (sl_where (hosts_select (f\<lparr>sf_acknowledged := Some b\<rparr>))) r"
proof -
  show "\<not> hs_acknowledged h" using scan_host_cells(4) [OF assms(2)] assms(1) by simp
  have "\<not> matches cl (add_bool ''problem_has_been_acknowledged'' (Some b)) r"
    using assms(1) by (simp add: matches_add_bool)
  then show "\<not> matches cl (sl_where (hosts_select (f\<lparr>sf_acknowledged := Some b\<rparr>))) r"
    by (simp add: hosts_select_def apply_status_def matches_simps(2))
qed

end
