(* ===== verification/Summary.thy ===== *)
theory Summary
  imports StatusLists
begin

text \<open>
  The dashboard's figures (\<^verbatim>\<open>internal/repository/mysql/summary.go\<close>). \<open>Get\<close> is eleven statements,
  one after the other, each on the tables as they are at that moment, any of which may fail.
\<close>

section \<open>Sums over a status table\<close>

text \<open>\<open>SUM\<close> of a condition: the rows where it holds; \<open>NULL\<close> when it is unknown on every row.\<close>

definition sum_of :: "collation \<Rightarrow> sexpr \<Rightarrow> sql_row list \<Rightarrow> sql_value" where
  "sum_of cl e rows =
     (if list_all (\<lambda>r. eval cl r e = None) rows then VNull
      else VInt (int (length (filter (\<lambda>r. eval cl r e = Some True) rows))))"

text \<open>\<open>sql.NullInt64\<close>: its \<open>Int64\<close> is 0 when the value is \<open>NULL\<close>.\<close>

definition null_int :: "sql_value \<Rightarrow> int64" where
  "null_int v = (case v of VInt n \<Rightarrow> n | _ \<Rightarrow> 0)"

definition max_of :: "string \<Rightarrow> sql_row list \<Rightarrow> int64" where
  "max_of col rows =
     (case concat (map (\<lambda>r. case r col of VInt n \<Rightarrow> [n] | _ \<Rightarrow> []) rows) of
        [] \<Rightarrow> 0
      | n # ns \<Rightarrow> fold max ns n)"

definition checked :: sexpr where "checked = Lit ''last_check'' Gt 0"
definition failing :: sexpr where "failing = Both checked (CoalesceLit ''current_state'' Ne 0)"

definition unhandled :: sexpr where
  "unhandled = Both failing (Both (CoalesceLit ''problem_has_been_acknowledged'' Eq 0)
     (CoalesceLit ''scheduled_downtime_depth'' Eq 0))"

definition moved :: "int64 \<Rightarrow> sexpr" where
  "moved since = Both (Bound ''last_state_change'' Ge (VInt since)) (Lit ''last_state_change'' Gt 0)"

type_synonym state_names = "(int \<times> string) list"

definition host_state_names :: state_names where
  "host_state_names = [(0, ''up''), (1, ''down''), (2, ''unreachable'')]"

definition service_state_names :: state_names where
  "service_state_names = [(0, ''ok''), (1, ''warning''), (2, ''critical''), (3, ''unknown'')]"

record table_counts =
  tc_counts :: state_counts
  tc_newest :: int64
  tc_changed :: int64

section \<open>By state\<close>

definition state_of :: "sql_row \<Rightarrow> int" where
  "state_of r = (case coalesce0 (r ''current_state'') of VInt n \<Rightarrow> n | _ \<Rightarrow> 0)"

definition state_groups :: "collation \<Rightarrow> sql_row list \<Rightarrow> (int \<times> int64) list" where
  "state_groups cl rows =
     (let states = map state_of (filter (matches cl [checked]) rows)
      in map (\<lambda>s. (s, int (count_list states s))) (remdups states))"

definition state_name :: "state_names \<Rightarrow> int \<Rightarrow> string" where
  "state_name names s = (case map_of names s of Some name \<Rightarrow> name | None \<Rightarrow> ''state_'' @ fmt_int s)"

definition add_count :: "(string \<rightharpoonup> int64) \<Rightarrow> string \<times> int64 \<Rightarrow> (string \<rightharpoonup> int64)" where
  "add_count m e = m(fst e \<mapsto> (case m (fst e) of None \<Rightarrow> 0 | Some k \<Rightarrow> k) + snd e)"

definition by_state :: "collation \<Rightarrow> state_names \<Rightarrow> sql_row list \<Rightarrow> (string \<rightharpoonup> int64)" where
  "by_state cl names rows =
     foldl add_count Map.empty (map (\<lambda>(s, n). (state_name names s, n)) (state_groups cl rows))"

definition zero_counts :: "state_names \<Rightarrow> (string \<rightharpoonup> int64)" where
  "zero_counts names = map_of (map (\<lambda>e. (snd e, 0)) names)"

text \<open>The counts are one statement over \<open>rows\<close>, the breakdown a second one over \<open>later\<close>.\<close>

definition counts ::
  "collation \<Rightarrow> state_names \<Rightarrow> int64 \<Rightarrow> sql_row list \<Rightarrow> sql_row list \<Rightarrow> table_counts" where
  "counts cl names since rows later =
     (let total = (\<lambda>e. null_int (sum_of cl e rows))
      in \<lparr>tc_counts = \<lparr>
            sc_total = int (length rows),
            sc_pending = total (Lit ''last_check'' Eq 0),
            sc_by_state = zero_counts names ++ by_state cl names later,
            sc_problems = total failing,
            sc_unhandled = total unhandled,
            sc_acknowledged = total (CoalesceLit ''problem_has_been_acknowledged'' Eq 1),
            sc_in_downtime = total (CoalesceLit ''scheduled_downtime_depth'' Gt 0),
            sc_flapping = total (CoalesceLit ''is_flapping'' Eq 1),
            sc_notifications_disabled = total (CoalesceLit ''notifications_enabled'' Eq 0),
            sc_active_checks_disabled = total (CoalesceLit ''active_checks_enabled'' Eq 0)\<rparr>,
          tc_newest = max_of ''status_update_time'' rows,
          tc_changed = total (moved since)\<rparr>)"

section \<open>Notifications\<close>

definition hour_seconds :: int64 where "hour_seconds = 3600"

definition start_times :: "sql_row list \<Rightarrow> int64 list" where
  "start_times rows = concat (map (\<lambda>r. case r ''start_time'' of VInt n \<Rightarrow> [n] | _ \<Rightarrow> []) rows)"

text \<open>One table's rows of the trend: the start of each hour with notifications and their number.\<close>

definition hour_groups :: "int64 \<Rightarrow> sql_row list \<Rightarrow> (int64 \<times> int64) list" where
  "hour_groups since rows =
     (let hours = map (\<lambda>t. go_div t hour_seconds * hour_seconds)
            (filter (\<lambda>t. since \<le> t) (start_times rows))
      in map (\<lambda>h. (h, int (count_list hours h))) (remdups hours))"

definition add_bucket :: "(int64 \<rightharpoonup> int64) \<Rightarrow> int64 \<times> int64 \<Rightarrow> (int64 \<rightharpoonup> int64)" where
  "add_bucket m e = m(fst e \<mapsto> (case m (fst e) of None \<Rightarrow> 0 | Some k \<Rightarrow> k) + snd e)"

function hours_from :: "(int64 \<rightharpoonup> int64) \<Rightarrow> int64 \<Rightarrow> int64 \<Rightarrow> hour_bucket list" where
  "hours_from buckets t stop =
     (if stop < t then []
      else \<lparr>hb_t = t, hb_count = (case buckets t of None \<Rightarrow> 0 | Some k \<Rightarrow> k)\<rparr>
        # hours_from buckets (t + hour_seconds) stop)"
  by pat_completeness auto

termination by (relation "measure (\<lambda>(buckets, t, stop). nat (stop + 1 - t))") (auto simp: hour_seconds_def)

declare hours_from.simps [simp del]

definition notification_trend ::
  "int64 \<Rightarrow> int64 \<Rightarrow> sql_row list \<Rightarrow> sql_row list \<Rightarrow> int64 \<times> hour_bucket list" where
  "notification_trend now since host_rows service_rows =
     (let groups = hour_groups since host_rows @ hour_groups since service_rows;
          buckets = foldl add_bucket Map.empty groups
      in (sum_list (map snd groups),
          hours_from buckets (go_div since hour_seconds * hour_seconds)
            (go_div now hour_seconds * hour_seconds)))"

definition notifications_between :: "int64 \<Rightarrow> int64 \<Rightarrow> sql_row list \<Rightarrow> int64" where
  "notifications_between from to rows =
     int (length (filter (\<lambda>t. from \<le> t \<and> t < to) (start_times rows)))"

section \<open>The oldest unhandled problem\<close>

definition oldest_condition :: conditions where
  "oldest_condition = [checked, CoalesceLit ''current_state'' Ne 0,
     CoalesceLit ''problem_has_been_acknowledged'' Eq 0,
     CoalesceLit ''scheduled_downtime_depth'' Eq 0, Lit ''last_state_change'' Gt 0]"

definition oldest_fields :: "kind \<Rightarrow> field list" where
  "oldest_fields k =
     [(Col ''hostname'', []),
      if k = KindService then (Col ''service_description'', [])
      else (Const (VStr []), ''service_description''),
      (Coal ''current_state'' (VInt 0), []), (Col ''last_state_change'', [])]"

definition scan_oldest :: "kind \<Rightarrow> state_names \<Rightarrow> oldest_problem scanner" where
  "scan_oldest k names =
     dest scan_string (\<lambda>host. dest scan_string (\<lambda>desc. dest scan_int (\<lambda>state. dest scan_int (\<lambda>since.
       scanned \<lparr>op_kind = k, op_hostname = host, op_description = desc, op_state = state,
         op_state_text = (case map_of names state of Some n \<Rightarrow> n | None \<Rightarrow> ''unknown''),
         op_since = since\<rparr>))))"

text \<open>\<open>ORDER BY last_state_change ASC LIMIT 1\<close>, then the scan of that row.\<close>

definition oldest_in ::
  "collation \<Rightarrow> arrange \<Rightarrow> kind \<Rightarrow> state_names \<Rightarrow> sql_row list \<Rightarrow> get_error + oldest_problem" where
  "oldest_in cl arr k names rows =
     query_row False
       (map snd (take 1 (arr (Col ''last_state_change'', False, Col ''last_state_change'')
         (map (\<lambda>r. (r, project (oldest_fields k) r)) (filter (matches cl oldest_condition) rows)))))
       (scan_oldest k names)"

definition older :: "oldest_problem option \<Rightarrow> oldest_problem \<Rightarrow> oldest_problem option" where
  "older best p =
     (case best of
        None \<Rightarrow> Some p
      | Some b \<Rightarrow> if op_since p < op_since b then Some p else best)"

definition oldest_step ::
  "nat \<Rightarrow> get_error + oldest_problem \<Rightarrow> oldest_problem option \<Rightarrow> nat + oldest_problem option" where
  "oldest_step i found best =
     (case found of
        Inl NotFound \<Rightarrow> Inr best
      | Inl GetFailed \<Rightarrow> Inl i
      | Inr p \<Rightarrow> Inr (older best p))"

text \<open>
  Both tables in turn, as \<open>oldestUnhandled\<close> walks them. \<open>q i\<close> is the database at the \<open>i\<close>-th
  statement of the summary, \<open>None\<close> when that statement fails; the error is its number.
\<close>

definition at :: "(nat \<Rightarrow> database option) \<Rightarrow> nat \<Rightarrow> nat + database" where
  "at q i = (case q i of None \<Rightarrow> Inl i | Some db \<Rightarrow> Inr db)"

definition oldest_unhandled ::
  "collation \<Rightarrow> arrange \<Rightarrow> (nat \<Rightarrow> database option) \<Rightarrow> nat + oldest_problem option" where
  "oldest_unhandled cl arr q =
     bind_err (at q 9) (\<lambda>d9. bind_err (oldest_step 9
       (oldest_in cl arr KindHost host_state_names (d9 ''statusengine_hoststatus'')) None) (\<lambda>best.
     bind_err (at q 10) (\<lambda>d10. oldest_step 10
       (oldest_in cl arr KindService service_state_names (d10 ''statusengine_servicestatus'')) best)))"

section \<open>Nodes\<close>

definition node_name_of :: "sql_row \<Rightarrow> string" where
  "node_name_of r = (case r ''node_name'' of VStr s \<Rightarrow> s | _ \<Rightarrow> [])"

text \<open>The inner statement: a row per node name, as the collation tells names apart.\<close>

definition node_groups :: "collation \<Rightarrow> sql_row list \<Rightarrow> (string \<times> int64 \<times> int64) list" where
  "node_groups cl rows =
     map (\<lambda>k. let mine = filter (\<lambda>r. fst cl (node_name_of r) = k) rows
              in (node_name_of (hd mine), int (length mine), max_of ''status_update_time'' mine))
       (remdups (map (\<lambda>r. fst cl (node_name_of r)) rows))"

definition nodes :: "collation \<Rightarrow> sql_row list \<Rightarrow> sql_row list \<Rightarrow> node list" where
  "nodes cl hosts svcs =
     (let all = map (\<lambda>(n, c, u). \<lparr>nd_name = n, nd_hosts = c, nd_services = 0, nd_last_update = u\<rparr>)
              (node_groups cl hosts)
            @ map (\<lambda>(n, c, u). \<lparr>nd_name = n, nd_hosts = 0, nd_services = c, nd_last_update = u\<rparr>)
              (node_groups cl svcs);
          keys = remdups (map (\<lambda>n. fst cl (nd_name n)) all)
      in map (\<lambda>k. let mine = filter (\<lambda>n. fst cl (nd_name n) = k) all
                  in \<lparr>nd_name = nd_name (hd mine),
                      nd_hosts = sum_list (map nd_hosts mine),
                      nd_services = sum_list (map nd_services mine),
                      nd_last_update = fold max (map nd_last_update (tl mine)) (nd_last_update (hd mine))\<rparr>)
           (sort keys))"

section \<open>The whole summary\<close>

text \<open>The clock is read at the end of the trend (\<open>now\<close>) and again for the window before (\<open>now'\<close>).\<close>

definition summary_get ::
  "collation \<Rightarrow> arrange \<Rightarrow> (nat \<Rightarrow> database option) \<Rightarrow> int64 \<Rightarrow> int64 \<Rightarrow> int64 \<Rightarrow> nat + summary" where
  "summary_get cl arr q now now' since =
     bind_err (at q 0) (\<lambda>d0. bind_err (at q 1) (\<lambda>d1.
     bind_err (at q 2) (\<lambda>d2. bind_err (at q 3) (\<lambda>d3.
     bind_err (at q 4) (\<lambda>d4. bind_err (at q 5) (\<lambda>d5. bind_err (at q 6) (\<lambda>d6.
     bind_err (at q 7) (\<lambda>d7. bind_err (at q 8) (\<lambda>d8.
     bind_err (oldest_unhandled cl arr q) (\<lambda>oldest.
       let hosts = counts cl host_state_names since
             (d0 ''statusengine_hoststatus'') (d1 ''statusengine_hoststatus'');
           svcs = counts cl service_state_names since
             (d2 ''statusengine_servicestatus'') (d3 ''statusengine_servicestatus'');
           trend = notification_trend now since
             (d5 ''statusengine_host_notifications'') (d6 ''statusengine_service_notifications'');
           before = since - (now' - since)
       in Inr \<lparr>sm_hosts = tc_counts hosts, sm_services = tc_counts svcs,
            sm_last_update = (if tc_newest svcs < tc_newest hosts then tc_newest hosts else tc_newest svcs),
            sm_nodes = nodes cl (d4 ''statusengine_hoststatus'') (d4 ''statusengine_servicestatus''),
            sm_window = \<lparr>ws_hours = 0, ws_since = since,
              ws_hosts_changed = tc_changed hosts, ws_services_changed = tc_changed svcs,
              ws_notifications = fst trend, ws_notifications_by_hour = snd trend,
              ws_notifications_previous =
                notifications_between before since (d7 ''statusengine_host_notifications'')
                + notifications_between before since (d8 ''statusengine_service_notifications''),
              ws_oldest = oldest\<rparr>\<rparr>))))))))))"

section \<open>Sums of maps\<close>

definition total_of :: "('k \<rightharpoonup> int64) \<Rightarrow> int64" where
  "total_of m = (\<Sum>k \<in> dom m. the (m k))"

lemma total_of_empty [simp]: "total_of Map.empty = 0"
  by (simp add: total_of_def)

lemma total_of_update:
  "finite (dom m) \<Longrightarrow> total_of (m(k \<mapsto> (case m k of None \<Rightarrow> 0 | Some c \<Rightarrow> c) + n)) = total_of m + n"
proof (cases "m k")
  case (Some c)
  assume fin: "finite (dom m)"
  have "total_of m = c + (\<Sum>i \<in> dom m - {k}. the (m i))"
    using fin Some by (simp add: total_of_def sum.remove [of _ k] domI)
  then show ?thesis
    using fin Some by (simp add: total_of_def sum.remove [of _ k] insert_absorb domI)
next
  case None
  assume fin: "finite (dom m)"
  have "(\<Sum>i \<in> dom m. the ((m(k \<mapsto> n)) i)) = (\<Sum>i \<in> dom m. the (m i))"
    using None by (intro sum.cong) auto
  then show ?thesis using fin None by (simp add: total_of_def domIff del: fun_upd_apply) simp
qed

lemma total_of_foldl:
  assumes "\<And>m e. add m e = m(fst e \<mapsto> (case m (fst e) of None \<Rightarrow> 0 | Some c \<Rightarrow> c) + snd e)"
    and "finite (dom m)"
  shows "finite (dom (foldl add m es)) \<and> total_of (foldl add m es) = total_of m + sum_list (map snd es)"
  using assms(2)
proof (induction es arbitrary: m)
  case (Cons e es)
  have "finite (dom (add m e))" using Cons.prems by (simp add: assms(1))
  moreover have "total_of (add m e) = total_of m + snd e"
    unfolding assms(1) by (rule total_of_update [OF Cons.prems])
  ultimately show ?case using Cons.IH [of "add m e"] by simp
qed simp

lemma total_of_zeros:
  assumes "finite (dom m)" and "\<And>k v. z k = Some v \<Longrightarrow> v = 0" and "finite (dom z)"
  shows "total_of (z ++ m) = total_of m"
proof -
  have "total_of (z ++ m) = (\<Sum>k \<in> dom m. the ((z ++ m) k)) + (\<Sum>k \<in> dom z - dom m. the ((z ++ m) k))"
    unfolding total_of_def dom_map_add using assms(1,3)
    by (subst sum.union_disjoint [symmetric]) (auto intro!: sum.cong)
  moreover have "the ((z ++ m) k) = 0" if "k \<in> dom z - dom m" for k
    using that assms(2) by (auto simp: map_add_def domIff)
  moreover have "the ((z ++ m) k) = the (m k)" if "k \<in> dom m" for k
    using that by auto
  ultimately show ?thesis by (simp add: total_of_def)
qed

lemma sum_groups:
  "sum_list (map (\<lambda>s. int (count_list xs s)) (remdups xs)) = int (length xs)"
proof -
  have "sum_list (map (\<lambda>s. int (count_list xs s)) (remdups xs)) = int (sum (count_list xs) (set xs))"
    by (simp add: sum_list_distinct_conv_sum_set)
  also have "sum (count_list xs) (set xs) = length xs" by (simp add: sum_count_set)
  finally show ?thesis .
qed

section \<open>The figures add up\<close>

text \<open>The rows of a status table: the time of the last check is a number, never negative.\<close>

definition status_table :: "sql_row list \<Rightarrow> bool" where
  "status_table rows \<longleftrightarrow> list_all (\<lambda>r. numeric r ''last_check'' \<and> 0 \<le> num r ''last_check'') rows"

lemma null_int_sum_of:
  "null_int (sum_of cl e rows) = int (length (filter (\<lambda>r. eval cl r e = Some True) rows))"
proof -
  have "filter (\<lambda>r. eval cl r e = Some True) rows = []" if "list_all (\<lambda>r. eval cl r e = None) rows"
    using that by (auto simp: filter_empty_conv list_all_iff)
  then show ?thesis by (simp add: sum_of_def null_int_def)
qed

lemma total_by_state:
  "finite (dom (by_state cl names rows))"
  "total_of (by_state cl names rows) = int (length (filter (matches cl [checked]) rows))"
proof -
  let ?states = "map state_of (filter (matches cl [checked]) rows)"
  have "map snd (map (\<lambda>(s, n). (state_name names s, n)) (state_groups cl rows))
      = map (\<lambda>s. int (count_list ?states s)) (remdups ?states)"
    by (simp add: state_groups_def Let_def comp_def)
  then show "finite (dom (by_state cl names rows))"
    "total_of (by_state cl names rows) = int (length (filter (matches cl [checked]) rows))"
    using total_of_foldl [of add_count Map.empty "map (\<lambda>(s, n). (state_name names s, n)) (state_groups cl rows)",
        OF add_count_def] sum_groups [of ?states]
    unfolding by_state_def by simp_all
qed

lemma zero_counts_zero: "zero_counts names k = Some v \<Longrightarrow> v = 0"
  by (auto simp: zero_counts_def dest: map_of_SomeD)

lemma finite_zero_counts: "finite (dom (zero_counts names))"
  by (simp add: zero_counts_def finite_dom_map_of)

lemma pending_or_checked:
  assumes "status_table rows"
  shows "length (filter (\<lambda>r. eval cl r (Lit ''last_check'' Eq 0) = Some True) rows)
    + length (filter (matches cl [checked]) rows) = length rows"
  using assms
proof (induction rows)
  case (Cons r rows)
  then obtain n where "r ''last_check'' = VInt n" "0 \<le> n"
    by (auto simp: status_table_def numeric_def num_def)
  then show ?case using Cons by (auto simp: status_table_def checked_def matches_def)
qed simp

lemma unhandled_failing: "eval cl r unhandled = Some True \<Longrightarrow> eval cl r failing = Some True"
  by (simp add: unhandled_def and3_True)

lemma failing_checked: "eval cl r failing = Some True \<Longrightarrow> matches cl [checked] r"
  by (simp add: failing_def and3_True matches_def)

lemma filter_length_mono:
  "(\<And>x. x \<in> set xs \<Longrightarrow> P x \<Longrightarrow> Q x) \<Longrightarrow> length (filter P xs) \<le> length (filter Q xs)"
  by (induction xs) auto

text \<open>
  C34. The dashboard's tiles add up: pending objects and the per-state counts together are the total,
  the unhandled problems are among the problems, and those among the checked objects. A state this
  build does not know is counted under its number.
\<close>
theorem summary_counts_add_up:
  assumes "status_table rows"
  shows "let c = tc_counts (counts cl names since rows rows)
    in sc_total c = sc_pending c + total_of (sc_by_state c)
      \<and> 0 \<le> sc_unhandled c \<and> sc_unhandled c \<le> sc_problems c
      \<and> sc_problems c \<le> total_of (sc_by_state c)"
proof -
  have states: "total_of (zero_counts names ++ by_state cl names rows)
      = int (length (filter (matches cl [checked]) rows))"
    using total_of_zeros [OF total_by_state(1) zero_counts_zero finite_zero_counts] total_by_state(2)
    by simp
  have "length (filter (\<lambda>r. eval cl r unhandled = Some True) rows)
      \<le> length (filter (\<lambda>r. eval cl r failing = Some True) rows)"
    by (intro filter_length_mono unhandled_failing)
  moreover have "length (filter (\<lambda>r. eval cl r failing = Some True) rows)
      \<le> length (filter (matches cl [checked]) rows)"
    by (intro filter_length_mono failing_checked)
  ultimately show ?thesis
    using pending_or_checked [OF assms, of cl]
    by (simp add: counts_def Let_def states null_int_sum_of)
qed

theorem summary_counts_add_up_witness:
  "let c = tc_counts (counts plain_collation host_state_names 0
        [status_row ''web'' 0 0, status_row ''db'' 1 1, status_row ''x'' 9 0]
        [status_row ''web'' 0 0, status_row ''db'' 1 1, status_row ''x'' 9 0])
    in sc_total c = 3 \<and> sc_total c = sc_pending c + total_of (sc_by_state c) \<and> sc_by_state c ''state_9'' = Some 1"
proof -
  have "status_table [status_row ''web'' 0 0, status_row ''db'' 1 1, status_row ''x'' 9 0]"
    by (simp add: status_table_def status_row_def numeric_def num_def)
  from summary_counts_add_up [OF this, of plain_collation host_state_names 0]
  have "let c = tc_counts (counts plain_collation host_state_names 0
        [status_row ''web'' 0 0, status_row ''db'' 1 1, status_row ''x'' 9 0]
        [status_row ''web'' 0 0, status_row ''db'' 1 1, status_row ''x'' 9 0])
    in sc_total c = sc_pending c + total_of (sc_by_state c)"
    by (simp only: Let_def)
  moreover have "let c = tc_counts (counts plain_collation host_state_names 0
        [status_row ''web'' 0 0, status_row ''db'' 1 1, status_row ''x'' 9 0]
        [status_row ''web'' 0 0, status_row ''db'' 1 1, status_row ''x'' 9 0])
    in sc_total c = 3 \<and> sc_by_state c ''state_9'' = Some 1"
    by code_simp
  ultimately show ?thesis unfolding Let_def by blast
qed

section \<open>The trend\<close>

definition count_at :: "(int64 \<rightharpoonup> int64) \<Rightarrow> int64 \<Rightarrow> int64" where
  "count_at m t = (case m t of None \<Rightarrow> 0 | Some k \<Rightarrow> k)"

lemma hours_from_times:
  "set (map hb_t (hours_from m t stop)) = {u. t \<le> u \<and> u \<le> stop \<and> hour_seconds dvd u - t}
    \<and> sorted_wrt (<) (map hb_t (hours_from m t stop))
    \<and> map hb_count (hours_from m t stop) = map (count_at m) (map hb_t (hours_from m t stop))"
proof (induction m t stop rule: hours_from.induct)
  case (1 m t stop)
  show ?case
  proof (cases "stop < t")
    case False
    have split: "{u. t \<le> u \<and> u \<le> stop \<and> hour_seconds dvd u - t}
        = insert t {u. t + hour_seconds \<le> u \<and> u \<le> stop \<and> hour_seconds dvd u - (t + hour_seconds)}"
      (is "?l = insert t ?r")
    proof (intro set_eqI iffI)
      fix u assume u: "u \<in> ?l"
      show "u \<in> insert t ?r"
      proof (cases "u = t")
        case False
        then have "0 < u - t" "hour_seconds dvd u - t" using u by auto
        then have "hour_seconds \<le> u - t" by (rule zdvd_imp_le [rotated])
        moreover have "hour_seconds dvd u - t - hour_seconds" using u by (simp add: dvd_diff)
        ultimately show ?thesis using u by (simp add: algebra_simps)
      qed simp
    next
      fix u assume u: "u \<in> insert t ?r"
      have "hour_seconds dvd u - t" if "hour_seconds dvd u - (t + hour_seconds)"
        using dvd_add [OF that dvd_refl] by simp
      then show "u \<in> ?l" using u False by (auto simp: hour_seconds_def)
    qed
    note IH = "1.IH" [OF False]
    have eq: "hours_from m t stop = \<lparr>hb_t = t, hb_count = count_at m t\<rparr> # hours_from m (t + hour_seconds) stop"
      using False by (subst hours_from.simps) (simp add: count_at_def)
    have "\<forall>u \<in> set (map hb_t (hours_from m (t + hour_seconds) stop)). t < u"
      using IH by (auto simp: hour_seconds_def)
    then show ?thesis unfolding eq split using IH by simp (auto simp: hour_seconds_def)
  next
    case True
    then have "hours_from m t stop = []" by (subst hours_from.simps) simp
    then show ?thesis using True by auto
  qed
qed

lemma dom_foldl_bucket: "dom (foldl add_bucket m es) = dom m \<union> fst ` set es"
  by (induction es arbitrary: m) (auto simp: add_bucket_def)

lemma sum_over_hours:
  assumes "finite (dom m)" "dom m \<subseteq> {u. t \<le> u \<and> u \<le> stop \<and> hour_seconds dvd u - t}"
  shows "sum_list (map hb_count (hours_from m t stop)) = total_of m"
proof -
  let ?ts = "map hb_t (hours_from m t stop)"
  have ts: "distinct ?ts" "dom m \<subseteq> set ?ts" "map hb_count (hours_from m t stop) = map (count_at m) ?ts"
    using hours_from_times [of m t stop] assms(2) by (simp_all add: strict_sorted_iff)
  have "sum_list (map (count_at m) ?ts) = sum (count_at m) (set ?ts)"
    by (rule sum_list_distinct_conv_sum_set [OF ts(1)])
  also have "\<dots> = sum (count_at m) (dom m)"
    using ts(2) by (intro sum.mono_neutral_right) (auto simp: count_at_def domIff)
  also have "\<dots> = total_of m"
    unfolding total_of_def by (intro sum.cong) (auto simp: count_at_def)
  finally show ?thesis by (simp add: ts(3))
qed

lemma hour_keys:
  assumes "e \<in> set (hour_groups since rows)" "0 \<le> since" "\<And>t. t \<in> set (start_times rows) \<Longrightarrow> t \<le> now"
  shows "fst e \<in> {u. since div hour_seconds * hour_seconds \<le> u \<and> u \<le> now div hour_seconds * hour_seconds
    \<and> hour_seconds dvd u - since div hour_seconds * hour_seconds}"
proof -
  obtain t where t: "t \<in> set (start_times rows)" "since \<le> t" "fst e = go_div t hour_seconds * hour_seconds"
    using assms(1) by (auto simp: hour_groups_def Let_def)
  have "0 < hour_seconds" by (simp add: hour_seconds_def)
  moreover have "0 \<le> t" using t(2) assms(2) by linarith
  ultimately have "fst e = t div hour_seconds * hour_seconds"
    using t(3) by (simp add: go_div_nonneg)
  moreover have "since div hour_seconds \<le> t div hour_seconds" "t div hour_seconds \<le> now div hour_seconds"
    using t(2) assms(3) [OF t(1)] \<open>0 < hour_seconds\<close> by (simp_all add: zdiv_mono1)
  ultimately show ?thesis
    using \<open>0 < hour_seconds\<close> by (simp add: left_diff_distrib [symmetric])
qed

text \<open>The last full hour before a time is the last multiple of 3600 up to it.\<close>
lemma multiple_le_floor:
  fixes u m now :: int
  assumes "0 < m" "m dvd u"
  shows "u \<le> now div m * m \<longleftrightarrow> u \<le> now"
proof -
  obtain k where u: "u = k * m" using assms(2) by (metis dvdE mult.commute)
  have "k \<le> now div m" if "k * m \<le> now"
    using zdiv_mono1 [OF that assms(1)] assms(1) by simp
  moreover have "now div m * m \<le> now"
    using pos_mod_sign [OF assms(1), of now] div_mult_mod_eq [of now m] by linarith
  ultimately show ?thesis unfolding u using mult_le_cancel_right_pos [OF assms(1)] by fastforce
qed

lemma hours_of_window:
  "{u. since div hour_seconds * hour_seconds \<le> u \<and> u \<le> now div hour_seconds * hour_seconds
      \<and> hour_seconds dvd u - since div hour_seconds * hour_seconds}
    = {u. since div 3600 * 3600 \<le> u \<and> u \<le> now \<and> 3600 dvd u}"
proof -
  have "hour_seconds dvd u - since div hour_seconds * hour_seconds \<longleftrightarrow> 3600 dvd u" for u
    unfolding hour_seconds_def by (metis dvd_diff_left_iff dvd_triv_right)
  moreover have "u \<le> now div 3600 * 3600 \<longleftrightarrow> u \<le> now" if "3600 dvd u" for u
    using multiple_le_floor [OF _ that] by simp
  ultimately show ?thesis by (auto simp: hour_seconds_def)
qed

text \<open>
  C33. The notification trend accounts for every notification of the window: the hours run from the
  one the window starts in to the current one, every hour once and the empty ones too, and their
  counts add up to the number of notifications sent.
\<close>
theorem trend_accounts_for_window:
  assumes "0 \<le> since" and "since \<le> now"
    and "\<forall>t \<in> set (start_times hosts) \<union> set (start_times svcs). t \<le> now"
    and "notification_trend now since hosts svcs = (sent, hours)"
  shows "sum_list (map hb_count hours) = sent
    \<and> sent = int (length (filter (\<lambda>t. since \<le> t) (start_times hosts @ start_times svcs)))
    \<and> sorted_wrt (<) (map hb_t hours)
    \<and> set (map hb_t hours) = {u. since div 3600 * 3600 \<le> u \<and> u \<le> now \<and> 3600 dvd u}"
proof -
  let ?groups = "hour_groups since hosts @ hour_groups since svcs"
  let ?m = "foldl add_bucket Map.empty ?groups"
  let ?start = "since div hour_seconds * hour_seconds" and ?stop = "now div hour_seconds * hour_seconds"
  have divs: "go_div since hour_seconds = since div hour_seconds" "go_div now hour_seconds = now div hour_seconds"
    using assms(1,2) by (simp_all add: go_div_nonneg hour_seconds_def)
  have trend: "sent = sum_list (map snd ?groups)" "hours = hours_from ?m ?start ?stop"
    using assms(4) by (auto simp: notification_trend_def Let_def divs)
  have fold: "finite (dom ?m) \<and> total_of ?m = sum_list (map snd ?groups)"
    using total_of_foldl [of add_bucket Map.empty ?groups, OF add_bucket_def] by simp
  have "dom ?m \<subseteq> {u. ?start \<le> u \<and> u \<le> ?stop \<and> hour_seconds dvd u - ?start}"
    (is "_ \<subseteq> ?hours")
  proof
    fix u assume "u \<in> dom ?m"
    then obtain e where u: "u = fst e" and "e \<in> set (hour_groups since hosts) \<or> e \<in> set (hour_groups since svcs)"
      unfolding dom_foldl_bucket by auto
    moreover have "t \<le> now" if "t \<in> set (start_times hosts)" for t using that assms(3) by blast
    moreover have "t \<le> now" if "t \<in> set (start_times svcs)" for t using that assms(3) by blast
    ultimately show "u \<in> ?hours" using hour_keys [OF _ assms(1)] unfolding u by metis
  qed
  then have sum: "sum_list (map hb_count hours) = sent"
    unfolding trend using fold by (simp add: sum_over_hours)
  have groups: "sum_list (map snd (hour_groups since rows))
      = int (length (filter (\<lambda>t. since \<le> t) (start_times rows)))" for rows
    using sum_groups [of "map (\<lambda>t. go_div t hour_seconds * hour_seconds)
        (filter (\<lambda>t. since \<le> t) (start_times rows))"]
    by (simp add: hour_groups_def Let_def comp_def)
  show ?thesis
    using sum hours_from_times [of ?m ?start ?stop] groups trend(1) hours_of_window [of since now]
    unfolding trend(2) by simp
qed

definition notified_row :: "int \<Rightarrow> sql_row" where
  "notified_row t col = (if col = ''start_time'' then VInt t else VNull)"

theorem trend_accounts_for_window_witness:
  "\<exists>hours. notification_trend 10900 3500 [notified_row 3599, notified_row 3600] [notified_row 7300] = (3, hours)
    \<and> map hb_count hours = [1, 1, 1, 0] \<and> sum_list (map hb_count hours) = 3"
proof -
  let ?h = "[notified_row 3599, notified_row 3600]" and ?s = "[notified_row 7300]"
  have "fst (notification_trend 10900 3500 ?h ?s) = 3
      \<and> map hb_count (snd (notification_trend 10900 3500 ?h ?s)) = [1, 1, 1, 0]"
    by code_simp
  then obtain hours where run: "notification_trend 10900 3500 ?h ?s = (3, hours)"
    and hours: "map hb_count hours = [1, 1, 1, 0]"
    by (metis prod.collapse)
  have "(0::int) \<le> 3500" "(3500::int) \<le> 10900"
    "\<forall>t \<in> set (start_times ?h) \<union> set (start_times ?s). t \<le> 10900"
    by (simp_all add: start_times_def notified_row_def)
  note total = conjunct1 [OF trend_accounts_for_window [OF this run]]
  show ?thesis by (intro exI [of _ hours] conjI run hours total)
qed

section \<open>The oldest problem\<close>

lemma scan_oldest_cells:
  assumes "scan_oldest k names (project (oldest_fields k) r) = Some p"
  shows "scan_int (r ''last_state_change'') = Some (op_since p)" "op_kind p = k"
  using assms unfolding scan_oldest_def project_def oldest_fields_def list.map fst_conv
  by - (elim dest_SomeE scannedE; simp)+

lemma oldest_matches:
  "matches cl oldest_condition r \<longleftrightarrow> eval cl r unhandled = Some True
     \<and> (\<exists>n. r ''last_state_change'' = VInt n \<and> 0 < n)"
  by (cases "r ''last_state_change''")
    (auto simp: oldest_condition_def matches_def unhandled_def failing_def and3_True)

lemma oldest_in_cases:
  assumes "sorts cl arr"
  shows "oldest_in cl arr k names rows = Inl NotFound \<longleftrightarrow> filter (matches cl oldest_condition) rows = []"
    and "oldest_in cl arr k names rows = Inr p \<Longrightarrow>
      \<forall>r \<in> set rows. matches cl oldest_condition r \<longrightarrow> op_since p \<le> num r ''last_state_change''"
    and "oldest_in cl arr k names rows = Inr p \<Longrightarrow>
      \<exists>r \<in> set rows. matches cl oldest_condition r \<and> num r ''last_state_change'' = op_since p
        \<and> scan_oldest k names (project (oldest_fields k) r) = Some p"
proof -
  let ?ord = "(Col ''last_state_change'', False, Col ''last_state_change'')"
  let ?in = "map (\<lambda>r. (r, project (oldest_fields k) r)) (filter (matches cl oldest_condition) rows)"
  show "oldest_in cl arr k names rows = Inl NotFound \<longleftrightarrow> filter (matches cl oldest_condition) rows = []"
    using sortsD(3) [OF assms, of ?ord ?in]
    by (cases "arr ?ord ?in") (auto simp: oldest_in_def query_row_def split: option.splits)
  assume p: "oldest_in cl arr k names rows = Inr p"
  then obtain r0 rest where all: "arr ?ord ?in = r0 # rest"
    and scan: "scan_oldest k names (snd r0) = Some p"
    by (cases "arr ?ord ?in") (auto simp: oldest_in_def query_row_def split: option.splits)
  have members: "set ?in = insert r0 (set rest)" using sortsD(4) [OF assms, of ?ord ?in] all by simp
  then have "r0 \<in> set ?in" by blast
  then obtain r where r: "r0 = (r, project (oldest_fields k) r)" "r \<in> set rows" "matches cl oldest_condition r"
    by auto
  have change: "r' ''last_state_change'' = VInt (num r' ''last_state_change'')"
    if "matches cl oldest_condition r'" for r' using that by (auto simp: oldest_matches num_def)
  have since: "num r ''last_state_change'' = op_since p"
    using scan_oldest_cells(1) [of k names r p] scan change [OF r(3)] r(1) by (simp split: if_splits)
  show "\<exists>r \<in> set rows. matches cl oldest_condition r \<and> num r ''last_state_change'' = op_since p
        \<and> scan_oldest k names (project (oldest_fields k) r) = Some p"
    using r since scan by auto
  show "\<forall>r \<in> set rows. matches cl oldest_condition r \<longrightarrow> op_since p \<le> num r ''last_state_change''"
  proof (intro ballI impI)
    fix r' assume r': "r' \<in> set rows" "matches cl oldest_condition r'"
    then have "(r', project (oldest_fields k) r') \<in> insert r0 (set rest)"
      unfolding members [symmetric] by simp
    then have "r' = r \<or> in_order cl ?ord r0 (r', project (oldest_fields k) r')"
      using sortsD(2) [OF assms, of ?ord ?in] r(1) by (auto simp: all)
    then show "op_since p \<le> num r' ''last_state_change''"
      using since change [OF r(3)] change [OF r'(2)] by (auto simp: in_order_def dir_le_def r(1))
  qed
qed

text \<open>
  The oldest problem on the dashboard is the oldest: it is an unhandled problem of one of the two
  tables, no unhandled problem of either has been in its state longer, and it is missing only when
  there is none.
\<close>
theorem oldest_is_oldest:
  assumes "oldest_unhandled cl arr q = Inr best" and "sorts cl arr"
    and "q 9 = Some db" and "q 10 = Some db"
    and "hosts = db ''statusengine_hoststatus''" and "svcs = db ''statusengine_servicestatus''"
  defines "waiting \<equiv> filter (\<lambda>r. eval cl r unhandled = Some True
      \<and> (\<exists>n. r ''last_state_change'' = VInt n \<and> 0 < n)) (hosts @ svcs)"
  shows "case best of
      None \<Rightarrow> waiting = []
    | Some p \<Rightarrow> (\<exists>r \<in> set waiting. num r ''last_state_change'' = op_since p)
        \<and> (\<forall>r \<in> set waiting. op_since p \<le> num r ''last_state_change'')"
proof -
  let ?h = "oldest_in cl arr KindHost host_state_names hosts"
  let ?s = "oldest_in cl arr KindService service_state_names svcs"
  note run = assms(1) [unfolded oldest_unhandled_def, simplified at_def assms(3,4) option.case guard_eval,
      folded assms(5,6)]
  have waiting: "waiting = filter (matches cl oldest_condition) hosts @ filter (matches cl oldest_condition) svcs"
    unfolding waiting_def filter_append by (simp add: oldest_matches [abs_def])
  have cases: "(x = Inl NotFound \<or> (\<exists>p. x = Inr p)) \<or> x = Inl GetFailed" for x :: "get_error + oldest_problem"
    by (cases x) (auto intro: get_error.exhaust)
  have ok: "?h \<noteq> Inl GetFailed" using run by (auto simp: oldest_step_def)
  have ok': "?s \<noteq> Inl GetFailed" using run by (auto simp: oldest_step_def guard_simps)
  note h = oldest_in_cases [OF assms(2), where k = KindHost and names = host_state_names and rows = hosts]
  note s = oldest_in_cases [OF assms(2), where k = KindService and names = service_state_names and rows = svcs]
  consider "?h = Inl NotFound" "?s = Inl NotFound" | p where "?h = Inr p" "?s = Inl NotFound"
    | p where "?h = Inl NotFound" "?s = Inr p" | p p' where "?h = Inr p" "?s = Inr p'"
    using cases [of ?h] cases [of ?s] ok ok' by blast
  then show ?thesis
  proof cases
    case 1
    then show ?thesis using run h(1) s(1) by (simp add: oldest_step_def waiting)
  next
    case (2 p)
    then have "best = Some p" using run by (simp add: oldest_step_def older_def)
    then show ?thesis using h(2,3) [OF 2(1)] s(1) 2(2) unfolding waiting by auto
  next
    case (3 p)
    then have "best = Some p" using run by (simp add: oldest_step_def older_def)
    then show ?thesis using s(2,3) [OF 3(2)] h(1) 3(1) unfolding waiting by auto
  next
    case (4 p p')
    then have "best = Some (if op_since p' < op_since p then p' else p)"
      using run by (simp add: oldest_step_def older_def split: if_splits)
    then show ?thesis using h(2,3) [OF 4(1)] s(2,3) [OF 4(2)] unfolding waiting by (auto 4 3)
  qed
qed

definition oldest_db :: database where
  "oldest_db t =
     (if t = ''statusengine_hoststatus'' then [status_row ''web'' 1 0, status_row ''db'' 1 1]
      else if t = ''statusengine_servicestatus'' then [status_row ''web'' 2 0] else [])"

theorem oldest_is_oldest_witness:
  "\<exists>p. oldest_unhandled plain_collation (insertion plain_collation) (\<lambda>i. Some oldest_db) = Inr (Some p)
    \<and> op_since p \<le> 1"
proof -
  have "case oldest_unhandled plain_collation (insertion plain_collation) (\<lambda>i. Some oldest_db) of
      Inr (Some p) \<Rightarrow> True | _ \<Rightarrow> False"
    by code_simp
  then obtain p where run: "oldest_unhandled plain_collation (insertion plain_collation) (\<lambda>i. Some oldest_db)
      = Inr (Some p)"
    by (auto split: sum.splits option.splits)
  have "status_row ''web'' 2 0 \<in> set (filter (\<lambda>r. eval plain_collation r unhandled = Some True
      \<and> (\<exists>n. r ''last_state_change'' = VInt n \<and> 0 < n))
        (oldest_db ''statusengine_hoststatus'' @ oldest_db ''statusengine_servicestatus''))"
    by (simp add: oldest_db_def status_row_def unhandled_def failing_def checked_def coalesce0_def and3_True)
  then have "op_since p \<le> num (status_row ''web'' 2 0) ''last_state_change''"
    by (rule bspec [OF conjunct2 [OF oldest_is_oldest
            [OF run insertion_sorts refl refl refl refl, unfolded option.case]]])
  also have "\<dots> = 1" by (simp add: status_row_def num_def)
  finally show ?thesis using run by (intro exI [of _ p] conjI)
qed

end
