(* ===== verification/ProblemList.thy ===== *)
theory ProblemList
  imports StatusLists
begin

text \<open>
  The triage list (\<^verbatim>\<open>internal/repository/mysql/problems.go\<close>): hosts and services that are not in
  their good state, in one list, in the order they are worked through.
\<close>

section \<open>The statement\<close>

record problem_filter =
  pf_search :: string
  pf_kind :: kind
  pf_acknowledged :: "bool option"
  pf_in_downtime :: "bool option"
  pf_hard_state :: "bool option"
  pf_flapping :: "bool option"
  pf_handled :: "bool option"
  pf_hide_services_of_down_hosts :: bool

definition problem_sort_columns :: "string \<rightharpoonup> proj" where
  "problem_sort_columns = map_of
     [(''severity'', Col ''severity''),
      (''hostname'', Col ''hostname''),
      (''service_description'', Col ''service_description''),
      (''state'', Col ''state''),
      (''last_check'', Col ''last_check''),
      (''last_state_change'', Col ''last_state_change''),
      (''kind'', Col ''kind'')]"

definition problem_host_fields :: "field list" where
  "problem_host_fields =
    [(Const (VStr ''host''), ''kind''), (Col ''hostname'', ''''),
     (Const (VStr ''''), ''service_description''), (Coal ''current_state'' (VInt 0), ''state''),
     (Coal ''is_hardstate'' (VInt 0), ''is_hard''), (Coal ''output'' (VStr ''''), ''output''),
     (Coal ''current_check_attempt'' (VInt 0), ''current_check_attempt''),
     (Coal ''max_check_attempts'' (VInt 0), ''max_check_attempts''), (Col ''last_check'', ''''),
     (Col ''last_state_change'', ''''),
     (Coal ''problem_has_been_acknowledged'' (VInt 0), ''acknowledged''),
     (Coal ''scheduled_downtime_depth'' (VInt 0), ''downtime_depth''),
     (Coal ''is_flapping'' (VInt 0), ''is_flapping''),
     (Coal ''notifications_enabled'' (VInt 0), ''notifications_enabled''),
     (Const (VInt 0), ''host_is_down''), (CaseOf ''current_state'' [(1, 5), (2, 3)], ''severity'')]"

definition problem_service_fields :: "field list" where
  "problem_service_fields =
    [(Const (VStr ''service''), ''kind''), (Col ''s.hostname'', ''''),
     (Col ''s.service_description'', ''''), (Coal ''s.current_state'' (VInt 0), ''state''),
     (Coal ''s.is_hardstate'' (VInt 0), ''is_hard''),
     (Coal ''s.output'' (VStr ''''), ''output''),
     (Coal ''s.current_check_attempt'' (VInt 0), ''current_check_attempt''),
     (Coal ''s.max_check_attempts'' (VInt 0), ''max_check_attempts''),
     (Col ''s.last_check'', ''''), (Col ''s.last_state_change'', ''''),
     (Coal ''s.problem_has_been_acknowledged'' (VInt 0), ''acknowledged''),
     (Coal ''s.scheduled_downtime_depth'' (VInt 0), ''downtime_depth''),
     (Coal ''s.is_flapping'' (VInt 0), ''is_flapping''),
     (Coal ''s.notifications_enabled'' (VInt 0), ''notifications_enabled''),
     (NonZero ''h.current_state'', ''host_is_down''),
     (CaseOf ''s.current_state'' [(2, 4), (1, 2), (3, 1)], ''severity'')]"

definition problem_none_fields :: "field list" where
  "problem_none_fields =
    [(Const (VStr ''host''), ''kind''), (Const (VStr ''''), ''hostname''),
     (Const (VStr ''''), ''service_description''), (Const (VInt 0), ''state''),
     (Const (VInt 0), ''is_hard''), (Const (VStr ''''), ''output''),
     (Const (VInt 0), ''current_check_attempt''), (Const (VInt 0), ''max_check_attempts''),
     (Const (VInt 0), ''last_check''), (Const (VInt 0), ''last_state_change''),
     (Const (VInt 0), ''acknowledged''), (Const (VInt 0), ''downtime_depth''),
     (Const (VInt 0), ''is_flapping''), (Const (VInt 0), ''notifications_enabled''),
     (Const (VInt 0), ''host_is_down''), (Const (VInt 0), ''severity'')]"

definition problem_common :: "problem_filter \<Rightarrow> string \<Rightarrow> string list \<Rightarrow> conditions" where
  "problem_common f pre search_columns =
     add_search (pf_search f) search_columns
     @ add_bool (pre @ ''problem_has_been_acknowledged'') (pf_acknowledged f)
     @ add_bool (pre @ ''is_hardstate'') (pf_hard_state f)
     @ add_bool (pre @ ''is_flapping'') (pf_flapping f)
     @ add_depth (pre @ ''scheduled_downtime_depth'') (pf_in_downtime f)
     @ add_handled (pre @ ''problem_has_been_acknowledged'') (pre @ ''scheduled_downtime_depth'')
         (pf_handled f)"

definition problem_hosts :: "problem_filter \<Rightarrow> select" where
  "problem_hosts f = \<lparr>sl_fields = problem_host_fields, sl_from = Table ''statusengine_hoststatus'',
     sl_where = [Lit ''current_state'' Ne 0, Lit ''last_check'' Gt 0]
       @ problem_common f '''' [''hostname'']\<rparr>"

definition problem_services :: "problem_filter \<Rightarrow> select" where
  "problem_services f = \<lparr>sl_fields = problem_service_fields, sl_from = ServicesWithHosts,
     sl_where = [Lit ''s.current_state'' Ne 0, Lit ''s.last_check'' Gt 0]
       @ problem_common f ''s.'' [''s.hostname'', ''s.service_description'']
       @ (if pf_hide_services_of_down_hosts f then [CoalesceLit ''h.current_state'' Eq 0] else [])\<rparr>"

definition problem_union :: "problem_filter \<Rightarrow> select list" where
  "problem_union f =
     (if pf_kind f \<noteq> KindService then [problem_hosts f] else [])
     @ (if pf_kind f \<noteq> KindHost then [problem_services f] else [])"

definition scan_problem :: "problem scanner" where
  "scan_problem =
     dest scan_string (\<lambda>v_kind. dest scan_string (\<lambda>v_hostname.
     dest scan_string (\<lambda>v_description. dest scan_int (\<lambda>v_state.
     dest scan_bool (\<lambda>v_is_hard. dest scan_string (\<lambda>v_output.
     dest scan_int (\<lambda>v_current_attempt. dest scan_int (\<lambda>v_max_attempts.
     dest scan_int (\<lambda>v_last_check. dest scan_int (\<lambda>v_last_state_change.
     dest scan_bool (\<lambda>v_acknowledged. dest scan_int (\<lambda>v_downtime_depth.
     dest scan_bool (\<lambda>v_is_flapping. dest scan_bool (\<lambda>v_notifications_on.
     dest scan_bool (\<lambda>v_host_is_down. dest scan_int (\<lambda>v_severity.
     scanned \<lparr>pr_kind = v_kind, pr_hostname = v_hostname, pr_description = v_description,
       pr_state = v_state,
       pr_state_text = (if v_kind = KindHost then host_state_string v_state else service_state_string v_state),
       pr_is_hard = v_is_hard, pr_output = v_output, pr_current_attempt = v_current_attempt,
       pr_max_attempts = v_max_attempts, pr_last_check = v_last_check,
       pr_last_state_change = v_last_state_change, pr_acknowledged = v_acknowledged,
       pr_in_downtime = (0 < v_downtime_depth), pr_is_flapping = v_is_flapping,
       pr_notifications_on = v_notifications_on, pr_host_is_down = v_host_is_down\<rparr>))))))))))))))))"

definition problems_list :: "server \<Rightarrow> problem_filter \<Rightarrow> page \<Rightarrow> list_error + problem list \<times> int" where
  "problems_list sv f p =
     union_page sv (problem_union f) (order_of (pg_sort p) (pg_desc p) problem_sort_columns ''severity'')
       scan_problem p"

section \<open>The statement is well formed\<close>

lemma problem_fields_plain:
  "list_all plain_field problem_host_fields" "list_all plain_field problem_service_fields"
  "list_all plain_field problem_none_fields"
  by (simp_all add: problem_host_fields_def problem_service_fields_def problem_none_fields_def
      plain_field_def render_field_def)

lemma problem_fields_named:
  "map out_name problem_host_fields = map out_name problem_none_fields"
  "map out_name problem_service_fields = map out_name problem_none_fields"
  by (simp_all add: problem_host_fields_def problem_service_fields_def problem_none_fields_def
      out_name_def)

lemma problem_union_cases:
  "s \<in> set (problem_union f) \<Longrightarrow> s = problem_hosts f \<or> s = problem_services f"
  by (auto simp: problem_union_def split: if_splits)

interpretation problem_statement:
  sorted_statement problem_none_fields problem_union problem_sort_columns "''severity''"
proof unfold_locales
  fix s :: select and f :: problem_filter
  assume s: "s \<in> set (problem_union f)"
  show "list_all plain_field (sl_fields s) \<and> plain_source (sl_from s) \<and> well_named (sl_where s)"
    "map out_name (sl_fields s) = map out_name problem_none_fields"
    using problem_union_cases [OF s] problem_fields_plain problem_fields_named
    by (auto simp: problem_hosts_def problem_services_def problem_common_def plain_source_def
        plain_def)
next
  fix name :: string and e :: proj
  assume "problem_sort_columns name = Some e"
  then show "\<exists>c \<in> out_name ` set problem_none_fields. e = Col c \<and> plain c"
    by (auto simp: problem_sort_columns_def problem_none_fields_def out_name_def plain_def
        split: if_splits)
qed (simp_all add: problem_fields_plain problem_sort_columns_def)

section \<open>The order of triage\<close>

text \<open>The scale across both kinds: how urgent a problem is, from its kind and its state.\<close>

definition problem_rank :: "problem \<Rightarrow> int" where
  "problem_rank p =
     (if pr_kind p = KindHost then
        (if pr_state p = HostDown then 5 else if pr_state p = HostUnreachable then 3 else 0)
      else
        (if pr_state p = ServiceCritical then 4
         else if pr_state p = ServiceWarning then 2
         else if pr_state p = ServiceUnknown then 1 else 0))"

lemma scan_problem_cells:
  assumes "scan_problem [k, h, d, st, hard, o1, ca, ma, lc, lsc, ack, dep, fl, no, down, sev] = Some x"
  shows "scan_string k = Some (pr_kind x)" "scan_int st = Some (pr_state x)"
    "scan_int lc = Some (pr_last_check x)" "scan_bool down = Some (pr_host_is_down x)"
  using assms unfolding scan_problem_def by - (elim dest_SomeE scannedE; simp)+

lemma problem_host_row:
  assumes "matches cl (sl_where (problem_hosts f)) r"
    and "scan_problem (project problem_host_fields r) = Some x"
    and "vs = project problem_host_fields r"
  shows "named problem_none_fields vs ''severity'' = VInt (problem_rank x)
    \<and> pr_state x \<noteq> 0 \<and> 0 < pr_last_check x \<and> pr_kind x = KindHost"
proof -
  have "eval cl r (Lit ''current_state'' Ne 0) = Some True" "eval cl r (Lit ''last_check'' Gt 0) = Some True"
    using assms(1) by (simp_all add: problem_hosts_def matches_def)
  then obtain n m where n: "r ''current_state'' = VInt n" "n \<noteq> 0" and m: "r ''last_check'' = VInt m" "0 < m"
    by (cases "r ''current_state''"; cases "r ''last_check''") auto
  have "scan_problem [VStr ''host'', r ''hostname'', VStr [], VInt n,
      value_of (Coal ''is_hardstate'' (VInt 0)) r, value_of (Coal ''output'' (VStr [])) r,
      value_of (Coal ''current_check_attempt'' (VInt 0)) r,
      value_of (Coal ''max_check_attempts'' (VInt 0)) r, VInt m, r ''last_state_change'',
      value_of (Coal ''problem_has_been_acknowledged'' (VInt 0)) r,
      value_of (Coal ''scheduled_downtime_depth'' (VInt 0)) r,
      value_of (Coal ''is_flapping'' (VInt 0)) r, value_of (Coal ''notifications_enabled'' (VInt 0)) r,
      VInt 0, value_of (CaseOf ''current_state'' [(1, 5), (2, 3)]) r] = Some x"
    using assms(2) by (simp add: project_def problem_host_fields_def n m)
  note cells = scan_problem_cells [OF this]
  have "named problem_none_fields vs ''severity'' = VInt (if n = 1 then 5 else if n = 2 then 3 else 0)"
    by (simp add: assms(3) named_def problem_none_fields_def out_name_def project_def
        problem_host_fields_def n)
  moreover have "pr_kind x = ''host''" "pr_state x = n" "pr_last_check x = m"
    using cells by (auto split: if_splits)
  ultimately show ?thesis
    using n m by (auto simp: problem_rank_def KindHost_def HostDown_def HostUnreachable_def)
qed

lemma problem_service_row:
  assumes "matches cl (sl_where (problem_services f)) r"
    and "scan_problem (project problem_service_fields r) = Some x"
    and "vs = project problem_service_fields r"
  shows "named problem_none_fields vs ''severity'' = VInt (problem_rank x)
    \<and> pr_state x \<noteq> 0 \<and> 0 < pr_last_check x
    \<and> (pf_hide_services_of_down_hosts f \<longrightarrow> \<not> pr_host_is_down x)"
proof -
  have "eval cl r (Lit ''s.current_state'' Ne 0) = Some True"
    "eval cl r (Lit ''s.last_check'' Gt 0) = Some True"
    using assms(1) by (simp_all add: problem_services_def matches_def)
  then obtain n m where n: "r ''s.current_state'' = VInt n" "n \<noteq> 0"
    and m: "r ''s.last_check'' = VInt m" "0 < m"
    by (cases "r ''s.current_state''"; cases "r ''s.last_check''") auto
  have hidden: "coalesce0 (r ''h.current_state'') = VInt 0" if "pf_hide_services_of_down_hosts f"
  proof -
    have "eval cl r (CoalesceLit ''h.current_state'' Eq 0) = Some True"
      using assms(1) that by (simp add: problem_services_def matches_def)
    then show ?thesis by (cases "coalesce0 (r ''h.current_state'')") auto
  qed
  have "scan_problem [VStr ''service'', r ''s.hostname'', r ''s.service_description'', VInt n,
      value_of (Coal ''s.is_hardstate'' (VInt 0)) r, value_of (Coal ''s.output'' (VStr [])) r,
      value_of (Coal ''s.current_check_attempt'' (VInt 0)) r,
      value_of (Coal ''s.max_check_attempts'' (VInt 0)) r, VInt m, r ''s.last_state_change'',
      value_of (Coal ''s.problem_has_been_acknowledged'' (VInt 0)) r,
      value_of (Coal ''s.scheduled_downtime_depth'' (VInt 0)) r,
      value_of (Coal ''s.is_flapping'' (VInt 0)) r, value_of (Coal ''s.notifications_enabled'' (VInt 0)) r,
      value_of (NonZero ''h.current_state'') r,
      value_of (CaseOf ''s.current_state'' [(2, 4), (1, 2), (3, 1)]) r] = Some x"
    using assms(2) by (simp add: project_def problem_service_fields_def n m)
  note cells = scan_problem_cells [OF this]
  have "named problem_none_fields vs ''severity''
      = VInt (if n = 2 then 4 else if n = 1 then 2 else if n = 3 then 1 else 0)"
    by (simp add: assms(3) named_def problem_none_fields_def out_name_def project_def
        problem_service_fields_def n)
  moreover have "pr_kind x = ''service''" "pr_state x = n" "pr_last_check x = m"
    using cells by (auto split: if_splits)
  moreover have "pf_hide_services_of_down_hosts f \<Longrightarrow> \<not> pr_host_is_down x"
    using cells(4) hidden by simp
  ultimately show ?thesis
    using n m by (auto simp: problem_rank_def KindHost_def ServiceCritical_def ServiceWarning_def
        ServiceUnknown_def)
qed

lemma problem_row:
  assumes "row \<in> set (union_rows cl db (problem_union f))" "scan_problem (snd row) = Some x"
  shows "fst row ''severity'' = VInt (problem_rank x)" "pr_state x \<noteq> 0" "0 < pr_last_check x"
    "pf_hide_services_of_down_hosts f \<Longrightarrow> pr_kind x = KindHost \<or> \<not> pr_host_is_down x"
proof -
  obtain s r where s: "s \<in> set (problem_union f)" "matches cl (sl_where s) r"
    "row = (named problem_none_fields (project (sl_fields s) r), project (sl_fields s) r)"
    using assms(1) unfolding problem_statement.in_union_rows by blast
  have fields: "sl_fields (problem_hosts f) = problem_host_fields"
    "sl_fields (problem_services f) = problem_service_fields"
    by (simp_all add: problem_hosts_def problem_services_def)
  have "fst row ''severity'' = VInt (problem_rank x) \<and> pr_state x \<noteq> 0 \<and> 0 < pr_last_check x
    \<and> (pf_hide_services_of_down_hosts f \<longrightarrow> pr_kind x = KindHost \<or> \<not> pr_host_is_down x)"
    using problem_union_cases [OF s(1)]
  proof
    assume h: "s = problem_hosts f"
    show ?thesis
      using problem_host_row [OF s(2) [unfolded h], of x] assms(2) by (simp add: s(3) h fields)
  next
    assume h: "s = problem_services f"
    show ?thesis
      using problem_service_row [OF s(2) [unfolded h], of x] assms(2) by (simp add: s(3) h fields)
  qed
  then show "fst row ''severity'' = VInt (problem_rank x)" "pr_state x \<noteq> 0" "0 < pr_last_check x"
    "pf_hide_services_of_down_hosts f \<Longrightarrow> pr_kind x = KindHost \<or> \<not> pr_host_is_down x" by blast+
qed

lemma sorted_scan:
  assumes "map (\<lambda>row. sc (snd row)) rows = map Some out" and "sorted_wrt R rows"
    and "\<And>a b x y. a \<in> set rows \<Longrightarrow> b \<in> set rows \<Longrightarrow> R a b \<Longrightarrow> sc (snd a) = Some x \<Longrightarrow>
        sc (snd b) = Some y \<Longrightarrow> Q x y"
  shows "sorted_wrt Q out"
  using assms
proof (induction rows arbitrary: out)
  case (Cons a rows)
  then obtain x xs where out: "out = x # xs" "sc (snd a) = Some x"
    and tl: "map (\<lambda>row. sc (snd row)) rows = map Some xs" by (cases out) auto
  have "Q x y" if y: "y \<in> set xs" for y
  proof -
    obtain b where "b \<in> set rows" "sc (snd b) = Some y" using map_eq_SomeD [OF tl, of y] y by blast
    then show ?thesis using Cons.prems(2) out(2) by (intro Cons.prems(3) [of a b]) auto
  qed
  moreover have "sorted_wrt Q xs"
  proof (rule Cons.IH [OF tl])
    show "sorted_wrt R rows" using Cons.prems(2) by simp
    show "Q u v" if "b \<in> set rows" "c \<in> set rows" "R b c" "sc (snd b) = Some u" "sc (snd c) = Some v"
      for b c u v using Cons.prems(3) [of b c u v] that by simp
  qed
  ultimately show ?case using out by simp
qed simp

text \<open>
  C29. The triage list in its default order is worked from the top: no problem stands above a more
  urgent one, on one scale over hosts and services (host down, service critical, host unreachable,
  warning, unknown), and every row is a checked object outside its good state. When services of down
  hosts are hidden, none of them is left.
\<close>
theorem problems_in_triage_order:
  assumes "problems_list sv f p = Inr (out, tot)"
    and "sorts (sv_collation sv) (sv_arrange sv)"
    and "pg_sort p = ''severity''" and "pg_desc p"
  shows "sorted_wrt (\<lambda>a b. problem_rank b \<le> problem_rank a) out
    \<and> (\<forall>x \<in> set out. pr_state x \<noteq> 0 \<and> 0 < pr_last_check x
        \<and> (pf_hide_services_of_down_hosts f \<longrightarrow> pr_kind x = KindHost \<or> \<not> pr_host_is_down x))"
proof (cases "out = []")
  case False
  let ?cl = "sv_collation sv"
  let ?ord = "(Col ''severity'', True, Col ''severity'')"
  let ?rows = "union_rows ?cl (sv_listed sv) (problem_union f)"
  let ?page = "slice p (sv_arrange sv ?ord ?rows)"
  have "order_of (pg_sort p) (pg_desc p) problem_sort_columns ''severity'' = ?ord"
    by (simp add: order_of_def problem_sort_columns_def assms(3,4))
  then have out: "map (\<lambda>row. scan_problem (snd row)) ?page = map Some out"
    using assms(1) False by (simp add: problems_list_def union_page_def list_page_Inr split: if_splits)
  have page: "row \<in> set ?rows" if "row \<in> set ?page" for row
    using subsetD [OF set_slice that] unfolding sortsD(4) [OF assms(2)] .
  have "sorted_wrt (in_order ?cl ?ord) ?page" by (intro sorted_slice sortsD(2) assms(2))
  then have "sorted_wrt (\<lambda>a b. problem_rank b \<le> problem_rank a) out"
    by (rule sorted_scan [OF out])
      (auto simp: in_order_def dir_le_def dest!: page problem_row(1))
  moreover have "pr_state x \<noteq> 0 \<and> 0 < pr_last_check x
      \<and> (pf_hide_services_of_down_hosts f \<longrightarrow> pr_kind x = KindHost \<or> \<not> pr_host_is_down x)"
    if x: "x \<in> set out" for x
  proof -
    obtain row where "row \<in> set ?page" and row: "scan_problem (snd row) = Some x"
      using map_eq_SomeD [OF out, of x] x by blast
    then have "row \<in> set ?rows" by (intro page)
    then show ?thesis using problem_row(2-4) [OF _ row] by blast
  qed
  ultimately show ?thesis by blast
qed simp

definition no_problem_filter :: problem_filter where
  "no_problem_filter = \<lparr>pf_search = [], pf_kind = [], pf_acknowledged = None, pf_in_downtime = None,
     pf_hard_state = None, pf_flapping = None, pf_handled = None,
     pf_hide_services_of_down_hosts = False\<rparr>"

theorem problems_in_triage_order_witness:
  "\<exists>out. problems_list sample_server no_problem_filter (first_page\<lparr>pg_sort := ''severity'', pg_desc := True\<rparr>)
       = Inr (out, 2)
     \<and> map problem_rank out = [5, 2] \<and> sorted_wrt (\<lambda>a b. problem_rank b \<le> problem_rank a) out"
proof -
  let ?p = "first_page\<lparr>pg_sort := ''severity'', pg_desc := True\<rparr>"
  have "case problems_list sample_server no_problem_filter ?p of
      Inl _ \<Rightarrow> False | Inr (out, n) \<Rightarrow> map problem_rank out = [5, 2] \<and> n = 2"
    by code_simp
  then obtain out where run: "problems_list sample_server no_problem_filter ?p = Inr (out, 2)"
    and out: "map problem_rank out = [5, 2]"
    by (auto split: sum.splits)
  have "pg_sort ?p = ''severity''" "pg_desc ?p" by simp_all
  from problems_in_triage_order [OF run sample_server_sorts this]
  show ?thesis using run out by (intro exI [of _ out]) simp
qed

end
