(* ===== verification/WindowLists.thy ===== *)
theory WindowLists
  imports StatusLists
begin

text \<open>
  Acknowledgements, downtimes and the core's log (\<^verbatim>\<open>acknowledgements.go\<close>, \<^verbatim>\<open>downtimes.go\<close> and
  \<^verbatim>\<open>logentries.go\<close> of \<^verbatim>\<open>internal/repository/mysql\<close>).
\<close>

text \<open>Naming the host and, where given, the service on it.\<close>

definition add_named :: "string \<Rightarrow> string \<Rightarrow> conditions" where
  "add_named host service =
     add_eq ''hostname'' host @ add_eq ''service_description'' service"

section \<open>Acknowledgements\<close>

record ack_filter =
  af_search :: string
  af_host :: string
  af_service :: string
  af_author :: string
  af_kind :: kind
  af_from :: int64
  af_to :: int64

definition ack_sort_columns :: "string \<rightharpoonup> proj" where
  "ack_sort_columns = map_of
     [(''entry_time'', Col ''entry_time''),
      (''hostname'', Col ''hostname''),
      (''service_description'', Col ''service_description''),
      (''author'', Col ''author_name''),
      (''state'', Col ''state''),
      (''kind'', Col ''kind'')]"

definition ack_common_columns :: "field list" where
  "ack_common_columns =
    [(Col ''entry_time'', ''''), (Coal ''state'' (VInt 0), ''state''),
     (Coal ''author_name'' (VStr ''''), ''author_name''),
     (Coal ''comment_data'' (VStr ''''), ''comment_data''),
     (Coal ''acknowledgement_type'' (VInt 0), ''acknowledgement_type''),
     (Coal ''is_sticky'' (VInt 0), ''is_sticky''),
     (Coal ''persistent_comment'' (VInt 0), ''persistent_comment''),
     (Coal ''notify_contacts'' (VInt 0), ''notify_contacts'')]"

definition ack_none_fields :: "field list" where
  "ack_none_fields =
    [(Const (VStr ''host''), ''kind''), (Const (VStr ''''), ''hostname''),
     (Const (VStr ''''), ''service_description''), (Const (VInt 0), ''entry_time''),
     (Const (VInt 0), ''state''), (Const (VStr ''''), ''author_name''),
     (Const (VStr ''''), ''comment_data''), (Const (VInt 0), ''acknowledgement_type''),
     (Const (VInt 0), ''is_sticky''), (Const (VInt 0), ''persistent_comment''),
     (Const (VInt 0), ''notify_contacts'')]"

definition ack_common :: "ack_filter \<Rightarrow> string list \<Rightarrow> conditions" where
  "ack_common f search_columns =
     add_named (af_host f) (af_service f)
     @ add_eq ''author_name'' (af_author f)
     @ (if 0 < af_from f then [Bound ''entry_time'' Ge (VInt (af_from f))] else [])
     @ (if 0 < af_to f then [Bound ''entry_time'' Le (VInt (af_to f))] else [])
     @ add_search (af_search f) (search_columns @ [''comment_data'', ''author_name''])"

definition ack_hosts :: "ack_filter \<Rightarrow> select" where
  "ack_hosts f = \<lparr>
     sl_fields = [(Const (VStr ''host''), ''kind''), (Col ''hostname'', ''''),
       (Const (VStr ''''), ''service_description'')] @ ack_common_columns,
     sl_from = Table ''statusengine_host_acknowledgements'',
     sl_where = ack_common f [''hostname'']\<rparr>"

definition ack_services :: "ack_filter \<Rightarrow> select" where
  "ack_services f = \<lparr>
     sl_fields = [(Const (VStr ''service''), ''kind''), (Coal ''hostname'' (VStr ''''), ''hostname''),
       (Col ''service_description'', '''')] @ ack_common_columns,
     sl_from = Table ''statusengine_service_acknowledgements'',
     sl_where = ack_common f [''hostname'', ''service_description'']\<rparr>"

definition ack_union :: "ack_filter \<Rightarrow> select list" where
  "ack_union f =
     (if af_kind f \<noteq> KindService \<and> af_service f = '''' then [ack_hosts f] else [])
     @ (if af_kind f \<noteq> KindHost then [ack_services f] else [])"

definition scan_ack :: "acknowledgement scanner" where
  "scan_ack =
     dest scan_string (\<lambda>v_kind. dest scan_string (\<lambda>v_hostname.
     dest scan_string (\<lambda>v_description. dest scan_int (\<lambda>v_entry_time.
     dest scan_int (\<lambda>v_state. dest scan_string (\<lambda>v_author.
     dest scan_string (\<lambda>v_comment. dest scan_int (\<lambda>v_ack_type.
     dest scan_bool (\<lambda>v_is_sticky. dest scan_bool (\<lambda>v_persistent.
     dest scan_bool (\<lambda>v_notify_contacts.
     scanned \<lparr>ak_kind = v_kind, ak_hostname = v_hostname, ak_description = v_description,
       ak_entry_time = v_entry_time, ak_state = v_state,
       ak_state_text = (if v_kind = KindHost then host_state_string v_state else service_state_string v_state),
       ak_author = v_author, ak_comment = v_comment, ak_is_sticky = v_is_sticky,
       ak_persistent = v_persistent, ak_notify_contacts = v_notify_contacts,
       ak_ack_type = v_ack_type\<rparr>)))))))))))"

definition acks_list ::
  "server \<Rightarrow> ack_filter \<Rightarrow> page \<Rightarrow> list_error + acknowledgement list \<times> int" where
  "acks_list sv f p =
     union_page sv (ack_union f) (order_of (pg_sort p) (pg_desc p) ack_sort_columns ''entry_time'')
       scan_ack p"

text \<open>The newest acknowledgement of one object.\<close>

definition latest_filter :: "kind \<Rightarrow> string \<Rightarrow> string \<Rightarrow> ack_filter" where
  "latest_filter kind host svc = \<lparr>af_search = '''', af_host = host,
     af_service = (if kind = KindService then svc else ''''), af_author = '''', af_kind = kind,
     af_from = 0, af_to = 0\<rparr>"

definition latest_for ::
  "server \<Rightarrow> kind \<Rightarrow> string \<Rightarrow> string \<Rightarrow> list_error + acknowledgement option" where
  "latest_for sv kind host svc =
     bind_err (acks_list sv (latest_filter kind host svc)
         \<lparr>pg_limit = 1, pg_offset = 0, pg_sort = ''entry_time'', pg_desc = True\<rparr>)
       (\<lambda>(rows, total). Inr (case rows of [] \<Rightarrow> None | a # _ \<Rightarrow> Some a))"

section \<open>Downtimes\<close>

record downtime_filter =
  df_search :: string
  df_host :: string
  df_service :: string
  df_kind :: kind
  df_running :: "bool option"
  df_now :: int64

definition downtime_sort_columns :: "string \<rightharpoonup> proj" where
  "downtime_sort_columns = map_of
     [(''scheduled_start_time'', Col ''scheduled_start_time''),
      (''scheduled_end_time'', Col ''scheduled_end_time''),
      (''entry_time'', Col ''entry_time''),
      (''hostname'', Col ''hostname''),
      (''service_description'', Col ''service_description''),
      (''author'', Col ''author_name''),
      (''kind'', Col ''kind'')]"

definition downtime_common_columns :: "field list" where
  "downtime_common_columns =
    [(Col ''internal_downtime_id'', ''''), (Col ''node_name'', ''''), (Col ''entry_time'', ''''),
     (Coal ''author_name'' (VStr ''''), ''author_name''),
     (Coal ''comment_data'' (VStr ''''), ''comment_data''),
     (Coal ''triggered_by_id'' (VInt 0), ''triggered_by_id''),
     (Coal ''is_fixed'' (VInt 0), ''is_fixed''), (Coal ''duration'' (VInt 0), ''duration''),
     (Col ''scheduled_start_time'', ''''), (Col ''scheduled_end_time'', ''''),
     (Coal ''was_started'' (VInt 0), ''was_started''), (Col ''actual_start_time'', '''')]"

definition downtime_none_fields :: "field list" where
  "downtime_none_fields =
    [(Const (VStr ''host''), ''kind''), (Const (VStr ''''), ''hostname''),
     (Const (VStr ''''), ''service_description''), (Const (VInt 0), ''internal_downtime_id''),
     (Const (VStr ''''), ''node_name''), (Const (VInt 0), ''entry_time''),
     (Const (VStr ''''), ''author_name''), (Const (VStr ''''), ''comment_data''),
     (Const (VInt 0), ''triggered_by_id''), (Const (VInt 0), ''is_fixed''),
     (Const (VInt 0), ''duration''), (Const (VInt 0), ''scheduled_start_time''),
     (Const (VInt 0), ''scheduled_end_time''), (Const (VInt 0), ''was_started''),
     (Const (VInt 0), ''actual_start_time''), (Const (VInt 0), ''actual_end_time''),
     (Const (VInt 0), ''was_cancelled'')]"

definition open_window :: "int64 \<Rightarrow> sexpr" where
  "open_window now = Both (Lit ''was_started'' Eq 1)
     (Both (Bound ''scheduled_start_time'' Le (VInt now)) (Bound ''scheduled_end_time'' Gt (VInt now)))"

definition downtime_common :: "downtime_filter \<Rightarrow> string list \<Rightarrow> conditions" where
  "downtime_common f search_columns =
     add_named (df_host f) (df_service f)
     @ add_search (df_search f) (search_columns @ [''comment_data''])
     @ (case df_running f of
          None \<Rightarrow> []
        | Some b \<Rightarrow> if b then [open_window (df_now f)] else [NotP (open_window (df_now f))])"

definition downtime_extra :: "bool \<Rightarrow> field list" where
  "downtime_extra history =
     (if history then [(Col ''actual_end_time'', ''''), (Coal ''was_cancelled'' (VInt 0), ''was_cancelled'')]
      else [(Const (VInt 0), ''actual_end_time''), (Const (VInt 0), ''was_cancelled'')])"

definition downtime_hosts :: "bool \<Rightarrow> downtime_filter \<Rightarrow> select" where
  "downtime_hosts history f = \<lparr>
     sl_fields = [(Const (VStr ''host''), ''kind''), (Col ''hostname'', ''''),
       (Const (VStr ''''), ''service_description'')] @ downtime_common_columns @ downtime_extra history,
     sl_from = Table (if history then ''statusengine_host_downtimehistory''
       else ''statusengine_host_scheduleddowntimes''),
     sl_where = downtime_common f [''hostname'']\<rparr>"

definition downtime_services :: "bool \<Rightarrow> downtime_filter \<Rightarrow> select" where
  "downtime_services history f = \<lparr>
     sl_fields = [(Const (VStr ''service''), ''kind''), (Col ''hostname'', ''''),
       (Col ''service_description'', '''')] @ downtime_common_columns @ downtime_extra history,
     sl_from = Table (if history then ''statusengine_service_downtimehistory''
       else ''statusengine_service_scheduleddowntimes''),
     sl_where = downtime_common f [''hostname'', ''service_description'']\<rparr>"

definition downtime_union :: "bool \<Rightarrow> downtime_filter \<Rightarrow> select list" where
  "downtime_union history f =
     (if df_kind f \<noteq> KindService \<and> df_service f = '''' then [downtime_hosts history f] else [])
     @ (if df_kind f \<noteq> KindHost then [downtime_services history f] else [])"

definition scan_downtime :: "downtime scanner" where
  "scan_downtime =
     dest scan_string (\<lambda>v_kind. dest scan_string (\<lambda>v_hostname.
     dest scan_string (\<lambda>v_description. dest scan_uint32 (\<lambda>v_internal_id.
     dest scan_string (\<lambda>v_node_name. dest scan_int (\<lambda>v_entry_time.
     dest scan_string (\<lambda>v_author. dest scan_string (\<lambda>v_comment.
     dest scan_uint32 (\<lambda>v_triggered_by. dest scan_bool (\<lambda>v_is_fixed.
     dest scan_int (\<lambda>v_duration. dest scan_int (\<lambda>v_start_time.
     dest scan_int (\<lambda>v_end_time. dest scan_bool (\<lambda>v_was_started.
     dest scan_int (\<lambda>v_actual_start. dest scan_int (\<lambda>v_actual_end.
     dest scan_bool (\<lambda>v_was_cancelled.
     scanned \<lparr>dt_kind = v_kind, dt_hostname = v_hostname, dt_description = v_description,
       dt_internal_id = v_internal_id, dt_node_name = v_node_name, dt_author = v_author,
       dt_comment = v_comment, dt_entry_time = v_entry_time, dt_start_time = v_start_time,
       dt_end_time = v_end_time, dt_is_fixed = v_is_fixed, dt_duration = v_duration,
       dt_was_started = v_was_started, dt_actual_start = v_actual_start,
       dt_triggered_by = v_triggered_by, dt_actual_end = v_actual_end,
       dt_was_cancelled = v_was_cancelled\<rparr>)))))))))))))))))"

definition downtimes_list ::
  "server \<Rightarrow> bool \<Rightarrow> downtime_filter \<Rightarrow> page \<Rightarrow> list_error + downtime list \<times> int" where
  "downtimes_list sv history f p =
     union_page sv (downtime_union history f)
       (order_of (pg_sort p) (pg_desc p) downtime_sort_columns ''scheduled_start_time'')
       scan_downtime p"

definition downtimes_current where "downtimes_current sv = downtimes_list sv False"
definition downtimes_history where "downtimes_history sv = downtimes_list sv True"

text \<open>What the core holds on one object, at most 25 windows, the latest start first.\<close>

definition object_filter :: "int64 \<Rightarrow> kind \<Rightarrow> string \<Rightarrow> string \<Rightarrow> downtime_filter" where
  "object_filter now kind host svc = \<lparr>df_search = '''', df_host = host,
     df_service = (if kind = KindService then svc else ''''), df_kind = kind,
     df_running = None, df_now = now\<rparr>"

definition downtimes_for_object ::
  "server \<Rightarrow> int64 \<Rightarrow> kind \<Rightarrow> string \<Rightarrow> string \<Rightarrow> list_error + downtime list" where
  "downtimes_for_object sv now kind host svc =
     bind_err (downtimes_current sv (object_filter now kind host svc)
         \<lparr>pg_limit = 25, pg_offset = 0, pg_sort = ''scheduled_start_time'', pg_desc = True\<rparr>)
       (\<lambda>(rows, total). Inr rows)"

section \<open>Log entries\<close>

record log_filter =
  lf_search :: string
  lf_from :: int64
  lf_to :: int64
  lf_types :: "int list"
  lf_node :: string

definition log_sort_columns :: "string \<rightharpoonup> proj" where
  "log_sort_columns = map_of
     [(''entry_time'', Col ''entry_time''),
      (''logentry_type'', Col ''logentry_type''),
      (''id'', Col ''id'')]"

definition log_select :: "log_filter \<Rightarrow> select" where
  "log_select f = \<lparr>
     sl_fields = [(Col ''id'', ''''), (Col ''entry_time'', ''''), (Coal ''logentry_type'' (VInt 0), ''''),
       (Coal ''logentry_data'' (VStr ''''), ''''), (Coal ''node_name'' (VStr ''''), '''')],
     sl_from = Table ''statusengine_logentries'',
     sl_where = [Bound ''entry_time'' Ge (VInt (lf_from f)), Bound ''entry_time'' Le (VInt (lf_to f))]
       @ add_in ''logentry_type'' (lf_types f)
       @ add_eq ''node_name'' (lf_node f)
       @ (if lf_search f = '''' then [] else [LikeE ''logentry_data'' (like_escape (lf_search f))])\<rparr>"

definition scan_log :: "log_entry scanner" where
  "scan_log =
     dest (scan_uint 64) (\<lambda>v_id. dest scan_int (\<lambda>v_entry_time.
     dest scan_int (\<lambda>v_type. dest scan_string (\<lambda>v_data.
     dest scan_string (\<lambda>v_node_name.
     scanned \<lparr>le_id = v_id, le_entry_time = v_entry_time, le_type = v_type, le_data = v_data,
       le_node_name = v_node_name\<rparr>)))))"

definition logs_list :: "server \<Rightarrow> log_filter \<Rightarrow> page \<Rightarrow> list_error + log_entry list \<times> int" where
  "logs_list sv f p =
     plain_page sv (log_select f) (order_of (pg_sort p) (pg_desc p) log_sort_columns ''entry_time'')
       scan_log p"

section \<open>The statements are well formed\<close>

lemma window_fields_plain:
  "list_all plain_field ack_common_columns" "list_all plain_field ack_none_fields"
  "list_all plain_field downtime_common_columns" "list_all plain_field downtime_none_fields"
  "list_all plain_field (downtime_extra h)"
  by (simp_all add: ack_common_columns_def ack_none_fields_def downtime_common_columns_def
      downtime_none_fields_def downtime_extra_def plain_field_def render_field_def)

lemma ack_fields_named:
  "map out_name (sl_fields (ack_hosts f)) = map out_name ack_none_fields"
  "map out_name (sl_fields (ack_services f)) = map out_name ack_none_fields"
  by (simp_all add: ack_hosts_def ack_services_def ack_common_columns_def ack_none_fields_def out_name_def)

lemma downtime_fields_named:
  "map out_name (sl_fields (downtime_hosts h f)) = map out_name downtime_none_fields"
  "map out_name (sl_fields (downtime_services h f)) = map out_name downtime_none_fields"
  by (simp_all add: downtime_hosts_def downtime_services_def downtime_common_columns_def
      downtime_extra_def downtime_none_fields_def out_name_def)

lemma first_fields_plain [simp]:
  "plain_field (Const (VStr ''host''), ''kind'')" "plain_field (Const (VStr ''service''), ''kind'')"
  "plain_field (Col ''hostname'', '''')" "plain_field (Col ''service_description'', '''')"
  "plain_field (Const (VStr ''''), ''service_description'')"
  "plain_field (Coal ''hostname'' (VStr ''''), ''hostname'')"
  by (simp_all add: plain_field_def render_field_def)

lemma ack_select_plain:
  "list_all plain_field (sl_fields (ack_hosts f))" "list_all plain_field (sl_fields (ack_services f))"
  "plain_source (sl_from (ack_hosts f))" "plain_source (sl_from (ack_services f))"
  "well_named (sl_where (ack_hosts f))" "well_named (sl_where (ack_services f))"
  by (simp_all add: ack_hosts_def ack_services_def window_fields_plain plain_source_def
      ack_common_def add_named_def plain_def)

lemma downtime_select_plain:
  "list_all plain_field (sl_fields (downtime_hosts h f))"
  "list_all plain_field (sl_fields (downtime_services h f))"
  "plain_source (sl_from (downtime_hosts h f))" "plain_source (sl_from (downtime_services h f))"
  "well_named (sl_where (downtime_hosts h f))" "well_named (sl_where (downtime_services h f))"
  by (simp_all add: downtime_hosts_def downtime_services_def window_fields_plain plain_source_def
      downtime_common_def add_named_def open_window_def plain_def split: option.splits)

interpretation ack_statement: sorted_statement ack_none_fields ack_union ack_sort_columns "''entry_time''"
proof unfold_locales
  fix s :: select and f :: ack_filter
  assume "s \<in> set (ack_union f)"
  then have "s = ack_hosts f \<or> s = ack_services f" by (auto simp: ack_union_def split: if_splits)
  then show "list_all plain_field (sl_fields s) \<and> plain_source (sl_from s) \<and> well_named (sl_where s)"
    "map out_name (sl_fields s) = map out_name ack_none_fields"
    using ack_select_plain ack_fields_named by blast+
next
  fix name :: string and e :: proj
  assume "ack_sort_columns name = Some e"
  then show "\<exists>c \<in> out_name ` set ack_none_fields. e = Col c \<and> plain c"
    by (auto simp: ack_sort_columns_def ack_none_fields_def out_name_def plain_def split: if_splits)
qed (simp_all add: window_fields_plain ack_sort_columns_def)

interpretation downtime_statement:
  sorted_statement downtime_none_fields "downtime_union h" downtime_sort_columns "''scheduled_start_time''"
  for h :: bool
proof unfold_locales
  fix s :: select and f :: downtime_filter
  assume "s \<in> set (downtime_union h f)"
  then have "s = downtime_hosts h f \<or> s = downtime_services h f"
    by (auto simp: downtime_union_def split: if_splits)
  then show "list_all plain_field (sl_fields s) \<and> plain_source (sl_from s) \<and> well_named (sl_where s)"
    "map out_name (sl_fields s) = map out_name downtime_none_fields"
    using downtime_select_plain downtime_fields_named by blast+
next
  fix name :: string and e :: proj
  assume "downtime_sort_columns name = Some e"
  then show "\<exists>c \<in> out_name ` set downtime_none_fields. e = Col c \<and> plain c"
    by (auto simp: downtime_sort_columns_def downtime_none_fields_def out_name_def plain_def
        split: if_splits)
qed (simp_all add: window_fields_plain downtime_sort_columns_def)

section \<open>What the downtime list holds\<close>

text \<open>A downtime's row, as far as the filter looks at it; the comment may be \<open>NULL\<close>.\<close>

definition complete_window :: "string list \<Rightarrow> sql_row \<Rightarrow> bool" where
  "complete_window texts r \<longleftrightarrow>
     list_all (\<lambda>c. \<exists>t. r c = VStr t) texts
     \<and> (r ''comment_data'' = VNull \<or> (\<exists>t. r ''comment_data'' = VStr t))
     \<and> (r ''was_started'' = VInt 0 \<or> r ''was_started'' = VInt 1)
     \<and> numeric r ''scheduled_start_time'' \<and> numeric r ''scheduled_end_time''"

text \<open>The filter as the caller reads it, with \<open>running\<close> as the record's own \<open>Running\<close>.\<close>

definition downtime_selected :: "collation \<Rightarrow> downtime_filter \<Rightarrow> downtime \<Rightarrow> bool" where
  "downtime_selected cl f d \<longleftrightarrow>
     (if dt_kind d = KindHost then df_kind f \<noteq> KindService \<and> df_service f = ''''
      else df_kind f \<noteq> KindHost)
     \<and> (df_host f = '''' \<or> fst cl (dt_hostname d) = fst cl (df_host f))
     \<and> (df_service f = '''' \<or> fst cl (dt_description d) = fst cl (df_service f))
     \<and> (df_search f = ''''
        \<or> (\<exists>t \<in> {dt_hostname d, dt_description d, dt_comment d}. contains (snd cl) (df_search f) t))
     \<and> asked (df_running f) (downtime_running d (df_now f))"

lemma scan_downtime_cells:
  assumes "scan_downtime [k, h, d, iid, node, entry, author, comment, trig, fixed, dur, start, fin,
      started, astart, aend, canc] = Some x"
  shows "scan_string k = Some (dt_kind x)" "scan_string h = Some (dt_hostname x)"
    "scan_string d = Some (dt_description x)" "scan_string comment = Some (dt_comment x)"
    "scan_int start = Some (dt_start_time x)" "scan_int fin = Some (dt_end_time x)"
    "scan_bool started = Some (dt_was_started x)"
  using assms unfolding scan_downtime_def by - (elim dest_SomeE scannedE; simp)+

lemma scan_int_num: "numeric r c \<Longrightarrow> scan_int (r c) = Some n \<Longrightarrow> r c = VInt n"
  by (auto simp: numeric_def split: if_splits)

lemma eval_open_window:
  assumes "r ''was_started'' = VInt (if started then 1 else 0)"
    and "r ''scheduled_start_time'' = VInt a" "r ''scheduled_end_time'' = VInt b"
  shows "eval cl r (open_window now) = Some (started \<and> a \<le> now \<and> now < b)"
  using assms by (simp add: open_window_def three_valued_Some)

lemma matches_running:
  assumes "r ''was_started'' = VInt (if dt_was_started d then 1 else 0)"
    and "r ''scheduled_start_time'' = VInt (dt_start_time d)"
    and "r ''scheduled_end_time'' = VInt (dt_end_time d)"
  shows "matches cl (case want of None \<Rightarrow> []
      | Some b \<Rightarrow> if b then [open_window now] else [NotP (open_window now)]) r
    \<longleftrightarrow> asked want (downtime_running d now)"
  using eval_open_window [OF assms, of cl now]
  by (auto simp: matches_simps asked_def downtime_running_def not3_simps split: option.splits)

lemma matches_comment_search:
  assumes "\<And>c. c \<in> set texts \<Longrightarrow> r c = VStr (text_of r c)"
    and "r ''comment_data'' = VNull \<and> comment = '''' \<or> r ''comment_data'' = VStr comment"
  shows "matches cl (add_search v (texts @ [''comment_data''])) r
    \<longleftrightarrow> v = '''' \<or> (\<exists>t \<in> insert comment (text_of r ` set texts). contains (snd cl) v t)"
  using assms by (auto simp: matches_add_search)

lemma window_cells:
  assumes "complete_window texts r"
    and "scan_string (value_of (Coal ''comment_data'' (VStr '''')) r) = Some c"
    and "scan_int (r ''scheduled_start_time'') = Some a" "scan_int (r ''scheduled_end_time'') = Some b"
    and "scan_bool (value_of (Coal ''was_started'' (VInt 0)) r) = Some st"
  shows "r ''comment_data'' = VNull \<and> c = '''' \<or> r ''comment_data'' = VStr c"
    and "r ''scheduled_start_time'' = VInt a" "r ''scheduled_end_time'' = VInt b"
    and "r ''was_started'' = VInt (if st then 1 else 0)"
proof -
  show "r ''comment_data'' = VNull \<and> c = '''' \<or> r ''comment_data'' = VStr c"
    using assms(1,2) by (auto simp: complete_window_def)
  show "r ''scheduled_start_time'' = VInt a" "r ''scheduled_end_time'' = VInt b"
    using assms(1,3,4) scan_int_num by (auto simp: complete_window_def)
  show "r ''was_started'' = VInt (if st then 1 else 0)"
    using assms(1,5) by (auto simp: complete_window_def split: if_splits)
qed

lemma downtime_host_row:
  assumes c: "complete_window [''hostname''] r"
    and s: "scan_downtime (project (sl_fields (downtime_hosts h f)) r) = Some d"
  shows "(df_kind f \<noteq> KindService \<and> df_service f = '''') \<and> matches cl (sl_where (downtime_hosts h f)) r
    \<longleftrightarrow> downtime_selected cl f d"
proof -
  obtain x y where "project (sl_fields (downtime_hosts h f)) r
    = [VStr ''host'', r ''hostname'', VStr '''', r ''internal_downtime_id'', r ''node_name'',
       r ''entry_time'', value_of (Coal ''author_name'' (VStr '''')) r,
       value_of (Coal ''comment_data'' (VStr '''')) r, value_of (Coal ''triggered_by_id'' (VInt 0)) r,
       value_of (Coal ''is_fixed'' (VInt 0)) r, value_of (Coal ''duration'' (VInt 0)) r,
       r ''scheduled_start_time'', r ''scheduled_end_time'', value_of (Coal ''was_started'' (VInt 0)) r,
       r ''actual_start_time'', x, y]"
    by (cases h) (simp_all add: project_def downtime_hosts_def downtime_common_columns_def downtime_extra_def)
  note cells = scan_downtime_cells [OF s [unfolded this]]
  note vals = window_cells [OF c cells(4-7)]
  have host: "r ''hostname'' = VStr (dt_hostname d)"
    using c cells(2) by (auto simp: complete_window_def)
  have search: "matches cl (add_search (df_search f) ([''hostname''] @ [''comment_data''])) r \<longleftrightarrow>
      df_search f = '''' \<or> (\<exists>t \<in> {dt_comment d, dt_hostname d}. contains (snd cl) (df_search f) t)"
    using vals(1) by (subst matches_comment_search [where comment = "dt_comment d"])
      (simp_all add: host text_of_def)
  have "dt_kind d = KindHost" "dt_description d = ''''"
    using cells(1,3) by (simp_all add: KindHost_def)
  then show ?thesis
    using vals host by (auto simp: downtime_hosts_def downtime_common_def add_named_def
        matches_simps(2) matches_add_eq matches_running search [simplified] downtime_selected_def)
qed

lemma downtime_service_row:
  assumes c: "complete_window [''hostname'', ''service_description''] r"
    and s: "scan_downtime (project (sl_fields (downtime_services h f)) r) = Some d"
  shows "(df_kind f \<noteq> KindHost) \<and> matches cl (sl_where (downtime_services h f)) r
    \<longleftrightarrow> downtime_selected cl f d"
proof -
  obtain x y where "project (sl_fields (downtime_services h f)) r
    = [VStr ''service'', r ''hostname'', r ''service_description'', r ''internal_downtime_id'',
       r ''node_name'', r ''entry_time'', value_of (Coal ''author_name'' (VStr '''')) r,
       value_of (Coal ''comment_data'' (VStr '''')) r, value_of (Coal ''triggered_by_id'' (VInt 0)) r,
       value_of (Coal ''is_fixed'' (VInt 0)) r, value_of (Coal ''duration'' (VInt 0)) r,
       r ''scheduled_start_time'', r ''scheduled_end_time'', value_of (Coal ''was_started'' (VInt 0)) r,
       r ''actual_start_time'', x, y]"
    by (cases h) (simp_all add: project_def downtime_services_def downtime_common_columns_def downtime_extra_def)
  note cells = scan_downtime_cells [OF s [unfolded this]]
  note vals = window_cells [OF c cells(4-7)]
  have texts: "r ''hostname'' = VStr (dt_hostname d)" "r ''service_description'' = VStr (dt_description d)"
    using c cells(2,3) by (auto simp: complete_window_def)
  have search: "matches cl (add_search (df_search f)
        ([''hostname'', ''service_description''] @ [''comment_data''])) r \<longleftrightarrow>
      df_search f = '''' \<or> (\<exists>t \<in> {dt_comment d, dt_hostname d, dt_description d}.
        contains (snd cl) (df_search f) t)"
    using vals(1) by (subst matches_comment_search [where comment = "dt_comment d"])
      (auto simp: texts text_of_def)
  have "dt_kind d = ''service''" using cells(1) by simp
  then have "dt_kind d \<noteq> KindHost" by (simp add: KindHost_def)
  then show ?thesis
    using vals texts by (auto simp: downtime_services_def downtime_common_def add_named_def
        matches_simps(2) matches_add_eq matches_running search [simplified] downtime_selected_def)
qed

definition downtime_table :: "bool \<Rightarrow> string" where
  "downtime_table h = (if h then ''statusengine_host_downtimehistory''
     else ''statusengine_host_scheduleddowntimes'')"

definition service_downtime_table :: "bool \<Rightarrow> string" where
  "service_downtime_table h = (if h then ''statusengine_service_downtimehistory''
     else ''statusengine_service_scheduleddowntimes'')"


text \<open>One window open since 100, one cancelled before it began.\<close>

definition window_row :: "string \<Rightarrow> int \<Rightarrow> int \<Rightarrow> sql_row" where
  "window_row name started start col =
     (if col = ''hostname'' then VStr name
      else if col \<in> {''service_description'', ''node_name''} then VStr ''n''
      else if col = ''was_started'' then VInt started
      else if col = ''scheduled_start_time'' then VInt start
      else if col = ''scheduled_end_time'' then VInt (start + 50)
      else if col = ''comment_data'' then VNull
      else if col = ''author_name'' then VStr ''ops''
      else VInt 1)"

definition window_server :: server where
  "window_server = sample_server\<lparr>
     sv_counted := (\<lambda>t. [window_row ''web'' 1 100, window_row ''db'' 0 100]),
     sv_listed := (\<lambda>t. [window_row ''web'' 1 100, window_row ''db'' 0 100])\<rparr>"

definition running_filter :: downtime_filter where
  "running_filter = \<lparr>df_search = '''', df_host = '''', df_service = '''', df_kind = '''',
     df_running = Some False, df_now = 120\<rparr>"

lemma window_server_sorts: "sorts (sv_collation window_server) (sv_arrange window_server)"
  using sample_server_sorts by (simp add: window_server_def)

lemma window_server_stable: "sv_counted window_server = sv_listed window_server"
  by (simp add: window_server_def)


section \<open>The newest acknowledgement\<close>

lemma ack_values:
  assumes "s \<in> set (ack_union f)"
  shows "\<exists>k h d x1 x2 x3 x4 x5 x6 x7. project (sl_fields s) r
    = [k, h, d, r ''entry_time'', x1, x2, x3, x4, x5, x6, x7]"
  using assms by (auto simp: ack_union_def ack_hosts_def ack_services_def project_def
      ack_common_columns_def split: if_splits)

lemma ack_row:
  assumes "row \<in> set (union_rows cl db (ack_union f))" "scan_ack (snd row) = Some a"
  shows "scan_int (fst row ''entry_time'') = Some (ak_entry_time a)"
proof -
  obtain s r where s: "s \<in> set (ack_union f)"
    "row = (named ack_none_fields (project (sl_fields s) r), project (sl_fields s) r)"
    using assms(1) unfolding ack_statement.in_union_rows by blast
  obtain k h d x1 x2 x3 x4 x5 x6 x7
    where vs: "project (sl_fields s) r = [k, h, d, r ''entry_time'', x1, x2, x3, x4, x5, x6, x7]"
    using ack_values [OF s(1)] by metis
  have "fst row ''entry_time'' = r ''entry_time''"
    by (simp add: s(2) vs named_def ack_none_fields_def out_name_def)
  moreover have "scan_ack [k, h, d, r ''entry_time'', x1, x2, x3, x4, x5, x6, x7] = Some a"
    using assms(2) by (simp add: s(2) vs)
  then have "scan_int (r ''entry_time'') = Some (ak_entry_time a)"
    unfolding scan_ack_def by - (elim dest_SomeE scannedE; simp)
  ultimately show ?thesis by simp
qed

text \<open>
  The acknowledgement shown for an object is the newest one its tables hold: no selected row has
  a later entry time, and none is shown only when there is none.
\<close>
theorem latest_ack_is_newest:
  assumes "latest_for sv kind host svc = Inr latest"
    and "sorts (sv_collation sv) (sv_arrange sv)"
    and "sv_counted sv = sv_listed sv"
    and "rows = union_rows (sv_collation sv) (sv_listed sv) (ack_union (latest_filter kind host svc))"
    and "\<forall>row \<in> set rows. numeric (fst row) ''entry_time''"
  shows "case latest of
      None \<Rightarrow> rows = []
    | Some a \<Rightarrow> (\<exists>row \<in> set rows. scan_ack (snd row) = Some a)
        \<and> (\<forall>row \<in> set rows. num (fst row) ''entry_time'' \<le> ak_entry_time a)"
proof -
  let ?p = "\<lparr>pg_limit = 1, pg_offset = 0, pg_sort = ''entry_time'', pg_desc = True\<rparr>"
  let ?ord = "(Col ''entry_time'', True, Col ''entry_time'')"
  let ?all = "sv_arrange sv ?ord rows"
  obtain out tot where run: "acks_list sv (latest_filter kind host svc) ?p = Inr (out, tot)"
    and latest: "latest = (case out of [] \<Rightarrow> None | a # _ \<Rightarrow> Some a)"
    using assms(1) by (auto simp: latest_for_def guard_simps)
  have ord: "order_of (pg_sort ?p) (pg_desc ?p) ack_sort_columns ''entry_time'' = ?ord"
    by (simp add: order_of_def ack_sort_columns_def)
  note run = run [unfolded acks_list_def union_page_def list_page_Inr ord assms(3) assms(4) [symmetric]]
  show ?thesis
  proof (cases "rows = []")
    case True
    then show ?thesis using run latest by simp
  next
    case False
    have page: "map (\<lambda>row. scan_ack (snd row)) (slice ?p ?all) = map Some out"
      using run False by (simp split: if_splits)
    obtain r0 rest where all: "?all = r0 # rest"
      using False sortsD(3) [OF assms(2), of ?ord rows] by (cases ?all) auto
    then obtain a where a: "out = [a]" "scan_ack (snd r0) = Some a"
      using page by (cases out) (auto simp: slice_def)
    have members: "set rows = insert r0 (set rest)" using sortsD(4) [OF assms(2), of ?ord rows] all by simp
    have num: "fst row ''entry_time'' = VInt (num (fst row) ''entry_time'')" if "row \<in> set rows" for row
      using assms(5) that numericD by blast
    have r0: "r0 \<in> set rows" by (simp add: members)
    have top: "num (fst r0) ''entry_time'' = ak_entry_time a"
      using ack_row [OF r0 [unfolded assms(4)] a(2)] num [OF r0] by (simp split: if_splits)
    have "num (fst row) ''entry_time'' \<le> ak_entry_time a" if "row \<in> set rows" for row
    proof (cases "row = r0")
      case False
      then have "in_order (sv_collation sv) ?ord r0 row"
        using that members sortsD(2) [OF assms(2), of ?ord rows] by (auto simp: all)
      then show ?thesis
        using top num [OF that] num [OF r0] by (simp add: in_order_def dir_le_def)
    qed (simp add: top)
    then show ?thesis using a r0 latest by auto
  qed
qed

theorem latest_ack_is_newest_witness:
  "\<exists>a. latest_for window_server KindHost ''web'' [] = Inr (Some a) \<and> 1 \<le> ak_entry_time a"
proof -
  let ?rows = "union_rows (sv_collation window_server) (sv_listed window_server)
      (ack_union (latest_filter KindHost ''web'' []))"
  have "case latest_for window_server KindHost ''web'' [] of Inr (Some a) \<Rightarrow> True | _ \<Rightarrow> False"
    by code_simp
  then obtain a where run: "latest_for window_server KindHost ''web'' [] = Inr (Some a)"
    by (auto split: sum.splits option.splits)
  have vals: "list_all (\<lambda>row. case fst row ''entry_time'' of VInt n \<Rightarrow> n = 1 | _ \<Rightarrow> False) ?rows"
    by code_simp
  have "length ?rows = 1" by code_simp
  then obtain row where row: "row \<in> set ?rows" by (cases ?rows) auto
  have rows: "numeric (fst row) ''entry_time'' \<and> num (fst row) ''entry_time'' = 1"
    if "row \<in> set ?rows" for row
    using vals that by (auto simp: list_all_iff numeric_def num_def split: sql_value.splits)
  then have "\<forall>row \<in> set ?rows. numeric (fst row) ''entry_time''" by blast
  from latest_ack_is_newest [OF run window_server_sorts window_server_stable refl this]
  have "num (fst row) ''entry_time'' \<le> ak_entry_time a" using row by simp
  then show ?thesis using run rows [OF row] by simp
qed

end
