(* ===== verification/HistoryLists.thy ===== *)
theory HistoryLists
  imports WindowLists
begin

text \<open>
  The check, state-change and notification history (\<^verbatim>\<open>internal/repository/mysql/history.go\<close>): three
  unions over the tables the worker appends to, always inside a time window.
\<close>

section \<open>The filter\<close>

record history_filter =
  hf_host :: string
  hf_description :: string
  hf_kind :: kind
  hf_search :: string
  hf_states :: "int list"
  hf_from :: int64
  hf_to :: int64
  hf_hard_only :: bool
  hf_transitions_only :: bool

definition scoped :: "history_filter \<Rightarrow> bool" where
  "scoped f \<longleftrightarrow> hf_host f \<noteq> ''''"

definition apply_time :: "history_filter \<Rightarrow> string \<Rightarrow> conditions" where
  "apply_time f column = [Bound column Ge (VInt (hf_from f)), Bound column Le (VInt (hf_to f))]"

definition apply_hard_only :: "history_filter \<Rightarrow> conditions" where
  "apply_hard_only f = (if hf_hard_only f then [Lit ''is_hardstate'' Eq 1] else [])"

definition apply_object :: "history_filter \<Rightarrow> bool \<Rightarrow> conditions" where
  "apply_object f is_svc =
     add_eq ''hostname'' (hf_host f)
     @ (if is_svc then add_eq ''service_description'' (hf_description f) else [])"

definition history_common :: "history_filter \<Rightarrow> string list \<Rightarrow> conditions" where
  "history_common f search_columns = add_in ''state'' (hf_states f) @ add_search (hf_search f) search_columns"

definition state_text :: "kind \<Rightarrow> int \<Rightarrow> string" where
  "state_text k s = (if k = KindHost then host_state_string s else service_state_string s)"

text \<open>The two halves every history has: the host table and the service table.\<close>

definition history_union :: "history_filter \<Rightarrow> select \<Rightarrow> select \<Rightarrow> select list" where
  "history_union f host_half service_half =
     (if hf_kind f \<noteq> KindService \<and> hf_description f = '''' then [host_half] else [])
     @ (if hf_kind f \<noteq> KindHost then [service_half] else [])"

section \<open>Checks\<close>

definition check_sort_columns :: "string \<rightharpoonup> proj" where
  "check_sort_columns = map_of
     [(''start_time'', Col ''start_time''),
      (''hostname'', Col ''hostname''),
      (''service_description'', Col ''service_description''),
      (''state'', Col ''state''),
      (''execution_time'', Col ''execution_time''),
      (''latency'', Col ''latency'')]"

definition host_check_columns :: "field list" where
  "host_check_columns =
    [(Const (VStr ''host''), ''kind''), (Col ''hostname'', ''''),
     (Const (VStr ''''), ''service_description''), (Col ''start_time'', ''''),
     (Col ''end_time'', ''''), (Coal ''state'' (VInt 0), ''state''),
     (Coal ''is_hardstate'' (VInt 0), ''is_hard''), (Coal ''output'' (VStr ''''), ''output''),
     (Coal ''long_output'' (VStr ''''), ''long_output''),
     (Coal ''perfdata'' (VStr ''''), ''perfdata''), (Coal ''command'' (VStr ''''), ''command''),
     (Coal ''current_check_attempt'' (VInt 0), ''current_check_attempt''),
     (Coal ''max_check_attempts'' (VInt 0), ''max_check_attempts''),
     (Coal ''latency'' (VFloat 0), ''latency''),
     (Coal ''execution_time'' (VFloat 0), ''execution_time''),
     (Coal ''timeout'' (VInt 0), ''timeout''),
     (Coal ''early_timeout'' (VInt 0), ''early_timeout'')]"

definition service_check_columns :: "field list" where
  "service_check_columns =
    [(Const (VStr ''service''), ''kind''), (Col ''hostname'', ''''),
     (Col ''service_description'', ''''), (Col ''start_time'', ''''), (Col ''end_time'', ''''),
     (Coal ''state'' (VInt 0), ''state''), (Coal ''is_hardstate'' (VInt 0), ''is_hard''),
     (Coal ''output'' (VStr ''''), ''output''),
     (Coal ''long_output'' (VStr ''''), ''long_output''),
     (Coal ''perfdata'' (VStr ''''), ''perfdata''), (Coal ''command'' (VStr ''''), ''command''),
     (Coal ''current_check_attempt'' (VInt 0), ''current_check_attempt''),
     (Coal ''max_check_attempts'' (VInt 0), ''max_check_attempts''),
     (Coal ''latency'' (VFloat 0), ''latency''),
     (Coal ''execution_time'' (VFloat 0), ''execution_time''),
     (Coal ''timeout'' (VInt 0), ''timeout''),
     (Coal ''early_timeout'' (VInt 0), ''early_timeout'')]"

definition check_none_fields :: "field list" where
  "check_none_fields =
    [(Const (VStr ''host''), ''kind''), (Const (VStr ''''), ''hostname''),
     (Const (VStr ''''), ''service_description''), (Const (VInt 0), ''start_time''),
     (Const (VInt 0), ''end_time''), (Const (VInt 0), ''state''), (Const (VInt 0), ''is_hard''),
     (Const (VStr ''''), ''output''), (Const (VStr ''''), ''long_output''),
     (Const (VStr ''''), ''perfdata''), (Const (VStr ''''), ''command''),
     (Const (VInt 0), ''current_check_attempt''), (Const (VInt 0), ''max_check_attempts''),
     (Const (VInt 0), ''latency''), (Const (VInt 0), ''execution_time''),
     (Const (VInt 0), ''timeout''), (Const (VInt 0), ''early_timeout'')]"

definition check_hosts :: "history_filter \<Rightarrow> select" where
  "check_hosts f = \<lparr>sl_fields = host_check_columns, sl_from = Table ''statusengine_hostchecks'',
     sl_where = apply_time f ''start_time'' @ apply_object f False
       @ history_common f [''hostname'', ''output''] @ apply_hard_only f\<rparr>"

definition check_services :: "history_filter \<Rightarrow> select" where
  "check_services f = \<lparr>sl_fields = service_check_columns, sl_from = Table ''statusengine_servicechecks'',
     sl_where = apply_time f ''start_time'' @ apply_object f True
       @ history_common f [''hostname'', ''service_description'', ''output''] @ apply_hard_only f\<rparr>"

definition check_union :: "history_filter \<Rightarrow> select list" where
  "check_union f = history_union f (check_hosts f) (check_services f)"

definition scan_check :: "check_result scanner" where
  "scan_check =
     dest scan_string (\<lambda>v_kind. dest scan_string (\<lambda>v_hostname.
     dest scan_string (\<lambda>v_description. dest scan_int (\<lambda>v_start_time.
     dest scan_int (\<lambda>v_end_time. dest scan_int (\<lambda>v_state.
     dest scan_bool (\<lambda>v_is_hard. dest scan_string (\<lambda>v_output.
     dest scan_string (\<lambda>v_long_output. dest scan_string (\<lambda>v_perfdata.
     dest scan_string (\<lambda>v_command. dest scan_int (\<lambda>v_current_attempt.
     dest scan_int (\<lambda>v_max_attempts. dest scan_float (\<lambda>v_latency.
     dest scan_float (\<lambda>v_execution_time. dest scan_int (\<lambda>v_timeout.
     dest scan_bool (\<lambda>v_early_timeout.
     scanned \<lparr>ck_kind = v_kind, ck_hostname = v_hostname, ck_description = v_description,
       ck_start_time = v_start_time, ck_end_time = v_end_time, ck_state = v_state,
       ck_state_text = state_text v_kind v_state, ck_is_hard = v_is_hard, ck_output = v_output,
       ck_long_output = v_long_output, ck_perfdata = v_perfdata, ck_command = v_command,
       ck_current_attempt = v_current_attempt, ck_max_attempts = v_max_attempts,
       ck_latency = v_latency, ck_execution_time = v_execution_time, ck_timeout = v_timeout,
       ck_early_timeout = v_early_timeout\<rparr>)))))))))))))))))"

definition checks_list ::
  "server \<Rightarrow> history_filter \<Rightarrow> page \<Rightarrow> list_error + check_result list \<times> int" where
  "checks_list sv f p =
     union_page sv (check_union f) (order_of (pg_sort p) (pg_desc p) check_sort_columns ''start_time'')
       scan_check p"

section \<open>State changes\<close>

definition state_change_sort_columns :: "string \<rightharpoonup> proj" where
  "state_change_sort_columns = map_of
     [(''state_time'', Col ''state_time''),
      (''hostname'', Col ''hostname''),
      (''service_description'', Col ''service_description''),
      (''state'', Col ''state'')]"

definition host_state_columns :: "field list" where
  "host_state_columns =
    [(Const (VStr ''host''), ''kind''), (Col ''hostname'', ''''),
     (Const (VStr ''''), ''service_description''), (Col ''state_time'', ''''),
     (Coal ''state'' (VInt 0), ''state''), (Coal ''last_state'' (VInt 0), ''last_state''),
     (Coal ''last_hard_state'' (VInt 0), ''last_hard_state''),
     (Coal ''is_hardstate'' (VInt 0), ''is_hard''),
     (Coal ''state_change'' (VInt 0), ''is_transition''),
     (Coal ''current_check_attempt'' (VInt 0), ''current_check_attempt''),
     (Coal ''max_check_attempts'' (VInt 0), ''max_check_attempts''),
     (Coal ''output'' (VStr ''''), ''output''),
     (Coal ''long_output'' (VStr ''''), ''long_output'')]"

definition service_state_columns :: "field list" where
  "service_state_columns =
    [(Const (VStr ''service''), ''kind''), (Col ''hostname'', ''''),
     (Col ''service_description'', ''''), (Col ''state_time'', ''''),
     (Coal ''state'' (VInt 0), ''state''), (Coal ''last_state'' (VInt 0), ''last_state''),
     (Coal ''last_hard_state'' (VInt 0), ''last_hard_state''),
     (Coal ''is_hardstate'' (VInt 0), ''is_hard''),
     (Coal ''state_change'' (VInt 0), ''is_transition''),
     (Coal ''current_check_attempt'' (VInt 0), ''current_check_attempt''),
     (Coal ''max_check_attempts'' (VInt 0), ''max_check_attempts''),
     (Coal ''output'' (VStr ''''), ''output''),
     (Coal ''long_output'' (VStr ''''), ''long_output'')]"

definition state_none_fields :: "field list" where
  "state_none_fields =
    [(Const (VStr ''host''), ''kind''), (Const (VStr ''''), ''hostname''),
     (Const (VStr ''''), ''service_description''), (Const (VInt 0), ''state_time''),
     (Const (VInt 0), ''state''), (Const (VInt 0), ''last_state''),
     (Const (VInt 0), ''last_hard_state''), (Const (VInt 0), ''is_hard''),
     (Const (VInt 0), ''is_transition''), (Const (VInt 0), ''current_check_attempt''),
     (Const (VInt 0), ''max_check_attempts''), (Const (VStr ''''), ''output''),
     (Const (VStr ''''), ''long_output'')]"

definition apply_transitions :: "history_filter \<Rightarrow> conditions" where
  "apply_transitions f = (if hf_transitions_only f then [Lit ''state_change'' Eq 1] else [])"

definition state_hosts :: "history_filter \<Rightarrow> select" where
  "state_hosts f = \<lparr>sl_fields = host_state_columns, sl_from = Table ''statusengine_host_statehistory'',
     sl_where = apply_time f ''state_time'' @ apply_object f False
       @ history_common f [''hostname'', ''output''] @ apply_hard_only f @ apply_transitions f\<rparr>"

definition state_services :: "history_filter \<Rightarrow> select" where
  "state_services f = \<lparr>sl_fields = service_state_columns,
     sl_from = Table ''statusengine_service_statehistory'',
     sl_where = apply_time f ''state_time'' @ apply_object f True
       @ history_common f [''hostname'', ''service_description'', ''output'']
       @ apply_hard_only f @ apply_transitions f\<rparr>"

definition state_union :: "history_filter \<Rightarrow> select list" where
  "state_union f = history_union f (state_hosts f) (state_services f)"

definition scan_state_change :: "state_change scanner" where
  "scan_state_change =
     dest scan_string (\<lambda>v_kind. dest scan_string (\<lambda>v_hostname.
     dest scan_string (\<lambda>v_description. dest scan_int (\<lambda>v_state_time.
     dest scan_int (\<lambda>v_state. dest scan_int (\<lambda>v_last_state.
     dest scan_int (\<lambda>v_last_hard_state. dest scan_bool (\<lambda>v_is_hard.
     dest scan_bool (\<lambda>v_is_transition. dest scan_int (\<lambda>v_current_attempt.
     dest scan_int (\<lambda>v_max_attempts. dest scan_string (\<lambda>v_output.
     dest scan_string (\<lambda>v_long_output.
     scanned \<lparr>st_kind = v_kind, st_hostname = v_hostname, st_description = v_description,
       st_state_time = v_state_time, st_state = v_state,
       st_state_text = state_text v_kind v_state, st_last_state = v_last_state,
       st_last_state_text = state_text v_kind v_last_state,
       st_last_hard_state = v_last_hard_state, st_is_hard = v_is_hard,
       st_is_transition = v_is_transition, st_current_attempt = v_current_attempt,
       st_max_attempts = v_max_attempts, st_output = v_output, st_long_output = v_long_output\<rparr>)))))))))))))"

definition state_changes_list ::
  "server \<Rightarrow> history_filter \<Rightarrow> page \<Rightarrow> list_error + state_change list \<times> int" where
  "state_changes_list sv f p =
     union_page sv (state_union f)
       (order_of (pg_sort p) (pg_desc p) state_change_sort_columns ''state_time'') scan_state_change p"

section \<open>Notifications\<close>

definition notification_sort_columns :: "string \<rightharpoonup> proj" where
  "notification_sort_columns = map_of
     [(''start_time'', Col ''start_time''),
      (''hostname'', Col ''hostname''),
      (''service_description'', Col ''service_description''),
      (''contact_name'', Col ''contact_name''),
      (''state'', Col ''state'')]"

definition host_notification_columns :: "field list" where
  "host_notification_columns =
    [(Const (VStr ''host''), ''kind''), (Col ''hostname'', ''''),
     (Const (VStr ''''), ''service_description''), (Col ''start_time'', ''''),
     (Col ''end_time'', ''''), (Coal ''contact_name'' (VStr ''''), ''contact_name''),
     (Coal ''command_name'' (VStr ''''), ''command_name''),
     (Coal ''command_args'' (VStr ''''), ''command_args''), (Coal ''state'' (VInt 0), ''state''),
     (Coal ''reason_type'' (VInt 0), ''reason_type''), (Coal ''output'' (VStr ''''), ''output''),
     (Coal ''ack_author'' (VStr ''''), ''ack_author''),
     (Coal ''ack_data'' (VStr ''''), ''ack_data'')]"

definition service_notification_columns :: "field list" where
  "service_notification_columns =
    [(Const (VStr ''service''), ''kind''), (Col ''hostname'', ''''),
     (Col ''service_description'', ''''), (Col ''start_time'', ''''), (Col ''end_time'', ''''),
     (Coal ''contact_name'' (VStr ''''), ''contact_name''),
     (Coal ''command_name'' (VStr ''''), ''command_name''),
     (Coal ''command_args'' (VStr ''''), ''command_args''), (Coal ''state'' (VInt 0), ''state''),
     (Coal ''reason_type'' (VInt 0), ''reason_type''), (Coal ''output'' (VStr ''''), ''output''),
     (Coal ''ack_author'' (VStr ''''), ''ack_author''),
     (Coal ''ack_data'' (VStr ''''), ''ack_data'')]"

definition notification_none_fields :: "field list" where
  "notification_none_fields =
    [(Const (VStr ''host''), ''kind''), (Const (VStr ''''), ''hostname''),
     (Const (VStr ''''), ''service_description''), (Const (VInt 0), ''start_time''),
     (Const (VInt 0), ''end_time''), (Const (VStr ''''), ''contact_name''),
     (Const (VStr ''''), ''command_name''), (Const (VStr ''''), ''command_args''),
     (Const (VInt 0), ''state''), (Const (VInt 0), ''reason_type''),
     (Const (VStr ''''), ''output''), (Const (VStr ''''), ''ack_author''),
     (Const (VStr ''''), ''ack_data'')]"

definition notification_hosts :: "history_filter \<Rightarrow> select" where
  "notification_hosts f = \<lparr>sl_fields = host_notification_columns,
     sl_from = Table ''statusengine_host_notifications'',
     sl_where = apply_time f ''start_time'' @ apply_object f False
       @ history_common f [''hostname'', ''contact_name'', ''output'']\<rparr>"

definition notification_services :: "history_filter \<Rightarrow> select" where
  "notification_services f = \<lparr>sl_fields = service_notification_columns,
     sl_from = Table ''statusengine_service_notifications'',
     sl_where = apply_time f ''start_time'' @ apply_object f True
       @ history_common f [''hostname'', ''service_description'', ''contact_name'', ''output'']\<rparr>"

definition notification_union :: "history_filter \<Rightarrow> select list" where
  "notification_union f = history_union f (notification_hosts f) (notification_services f)"

definition scan_notification :: "notification scanner" where
  "scan_notification =
     dest scan_string (\<lambda>v_kind. dest scan_string (\<lambda>v_hostname.
     dest scan_string (\<lambda>v_description. dest scan_int (\<lambda>v_start_time.
     dest scan_int (\<lambda>v_end_time. dest scan_string (\<lambda>v_contact.
     dest scan_string (\<lambda>v_command_name. dest scan_string (\<lambda>v_command_args.
     dest scan_int (\<lambda>v_state. dest scan_int (\<lambda>v_reason_type.
     dest scan_string (\<lambda>v_output. dest scan_string (\<lambda>v_ack_author.
     dest scan_string (\<lambda>v_ack_data.
     scanned \<lparr>nt_kind = v_kind, nt_hostname = v_hostname, nt_description = v_description,
       nt_start_time = v_start_time, nt_end_time = v_end_time, nt_contact = v_contact,
       nt_command_name = v_command_name, nt_command_args = v_command_args, nt_state = v_state,
       nt_state_text = state_text v_kind v_state, nt_reason_type = v_reason_type,
       nt_reason = notification_reason v_reason_type, nt_output = v_output,
       nt_ack_author = v_ack_author, nt_ack_data = v_ack_data\<rparr>)))))))))))))"

definition notifications_list ::
  "server \<Rightarrow> history_filter \<Rightarrow> page \<Rightarrow> list_error + notification list \<times> int" where
  "notifications_list sv f p =
     union_page sv (notification_union f)
       (order_of (pg_sort p) (pg_desc p) notification_sort_columns ''start_time'') scan_notification p"

section \<open>The statements are well formed\<close>

lemma history_fields_plain:
  "list_all plain_field host_check_columns" "list_all plain_field service_check_columns"
  "list_all plain_field check_none_fields"
  "list_all plain_field host_state_columns" "list_all plain_field service_state_columns"
  "list_all plain_field state_none_fields"
  "list_all plain_field host_notification_columns" "list_all plain_field service_notification_columns"
  "list_all plain_field notification_none_fields"
  by (simp_all add: host_check_columns_def service_check_columns_def check_none_fields_def
      host_state_columns_def service_state_columns_def state_none_fields_def
      host_notification_columns_def service_notification_columns_def notification_none_fields_def
      plain_field_def render_field_def)

lemma history_fields_named:
  "map out_name host_check_columns = map out_name check_none_fields"
  "map out_name service_check_columns = map out_name check_none_fields"
  "map out_name host_state_columns = map out_name state_none_fields"
  "map out_name service_state_columns = map out_name state_none_fields"
  "map out_name host_notification_columns = map out_name notification_none_fields"
  "map out_name service_notification_columns = map out_name notification_none_fields"
  by (simp_all add: host_check_columns_def service_check_columns_def check_none_fields_def
      host_state_columns_def service_state_columns_def state_none_fields_def
      host_notification_columns_def service_notification_columns_def notification_none_fields_def
      out_name_def)

lemma history_union_cases:
  "s \<in> set (history_union f a b) \<Longrightarrow> s = a \<or> s = b"
  by (auto simp: history_union_def split: if_splits)

lemma history_conditions_named [simp]:
  "well_named (apply_time f ''start_time'')" "well_named (apply_time f ''state_time'')"
  "well_named (apply_object f b)" "well_named (apply_hard_only f)" "well_named (apply_transitions f)"
  "list_all plain cols \<Longrightarrow> well_named (history_common f cols)"
  by (simp_all add: apply_time_def apply_object_def apply_hard_only_def apply_transitions_def
      history_common_def plain_def)

interpretation check_statement: sorted_statement check_none_fields check_union check_sort_columns "''start_time''"
proof unfold_locales
  fix s :: select and f :: history_filter
  assume "s \<in> set (check_union f)"
  then have "s = check_hosts f \<or> s = check_services f"
    unfolding check_union_def by (rule history_union_cases)
  then show "list_all plain_field (sl_fields s) \<and> plain_source (sl_from s) \<and> well_named (sl_where s)"
    "map out_name (sl_fields s) = map out_name check_none_fields"
    using history_fields_plain history_fields_named
    by (auto simp: check_hosts_def check_services_def plain_source_def plain_def)
next
  fix name :: string and e :: proj
  assume "check_sort_columns name = Some e"
  then show "\<exists>c \<in> out_name ` set check_none_fields. e = Col c \<and> plain c"
    by (auto simp: check_sort_columns_def check_none_fields_def out_name_def plain_def split: if_splits)
qed (simp_all add: history_fields_plain check_sort_columns_def)

interpretation state_statement: sorted_statement state_none_fields state_union state_change_sort_columns "''state_time''"
proof unfold_locales
  fix s :: select and f :: history_filter
  assume "s \<in> set (state_union f)"
  then have "s = state_hosts f \<or> s = state_services f"
    unfolding state_union_def by (rule history_union_cases)
  then show "list_all plain_field (sl_fields s) \<and> plain_source (sl_from s) \<and> well_named (sl_where s)"
    "map out_name (sl_fields s) = map out_name state_none_fields"
    using history_fields_plain history_fields_named
    by (auto simp: state_hosts_def state_services_def plain_source_def plain_def)
next
  fix name :: string and e :: proj
  assume "state_change_sort_columns name = Some e"
  then show "\<exists>c \<in> out_name ` set state_none_fields. e = Col c \<and> plain c"
    by (auto simp: state_change_sort_columns_def state_none_fields_def out_name_def plain_def split: if_splits)
qed (simp_all add: history_fields_plain state_change_sort_columns_def)

interpretation notification_statement: sorted_statement notification_none_fields notification_union notification_sort_columns "''start_time''"
proof unfold_locales
  fix s :: select and f :: history_filter
  assume "s \<in> set (notification_union f)"
  then have "s = notification_hosts f \<or> s = notification_services f"
    unfolding notification_union_def by (rule history_union_cases)
  then show "list_all plain_field (sl_fields s) \<and> plain_source (sl_from s) \<and> well_named (sl_where s)"
    "map out_name (sl_fields s) = map out_name notification_none_fields"
    using history_fields_plain history_fields_named
    by (auto simp: notification_hosts_def notification_services_def plain_source_def plain_def)
next
  fix name :: string and e :: proj
  assume "notification_sort_columns name = Some e"
  then show "\<exists>c \<in> out_name ` set notification_none_fields. e = Col c \<and> plain c"
    by (auto simp: notification_sort_columns_def notification_none_fields_def out_name_def plain_def split: if_splits)
qed (simp_all add: history_fields_plain notification_sort_columns_def)

section \<open>The window and the flags hold\<close>

lemma scan_state_cells:
  assumes "scan_state_change [k, h, d, t, st, ls, lh, hard, tr, ca, ma, o1, o2] = Some x"
  shows "scan_string k = Some (st_kind x)" "scan_string h = Some (st_hostname x)"
    "scan_int t = Some (st_state_time x)" "scan_bool hard = Some (st_is_hard x)"
    "scan_bool tr = Some (st_is_transition x)"
  using assms unfolding scan_state_change_def by - (elim dest_SomeE scannedE; simp)+

lemma matches_time:
  "matches cl (apply_time f c) r \<longleftrightarrow> (\<exists>n. r c = VInt n \<and> hf_from f \<le> n \<and> n \<le> hf_to f)"
  by (cases "r c") (auto simp: apply_time_def matches_def)

lemma matches_lit_one:
  "matches cl (if b then [Lit c Eq 1] else []) r \<longleftrightarrow> (b \<longrightarrow> r c = VInt 1)"
  by (cases "r c") (auto simp: matches_def)

lemma state_row:
  assumes "row \<in> set (union_rows cl db (state_union f))" "scan_state_change (snd row) = Some x"
  shows "hf_from f \<le> st_state_time x \<and> st_state_time x \<le> hf_to f
    \<and> (hf_hard_only f \<longrightarrow> st_is_hard x) \<and> (hf_transitions_only f \<longrightarrow> st_is_transition x)
    \<and> (hf_kind f = KindService \<or> hf_description f \<noteq> [] \<longrightarrow> st_kind x = KindService)
    \<and> (hf_kind f = KindHost \<longrightarrow> st_kind x = KindHost)
    \<and> (hf_host f \<noteq> [] \<longrightarrow> fst cl (st_hostname x) = fst cl (hf_host f))"
proof -
  obtain s r where s: "s \<in> set (state_union f)" "matches cl (sl_where s) r"
    "row = (named state_none_fields (project (sl_fields s) r), project (sl_fields s) r)"
    using assms(1) unfolding state_statement.in_union_rows by blast
  have row: "\<exists>k d x1 x2 x3 x4 x5 x6 x7. project (sl_fields s) r = [k, r ''hostname'', d, r ''state_time'',
      x1, x2, x3, value_of (Coal ''is_hardstate'' (VInt 0)) r,
      value_of (Coal ''state_change'' (VInt 0)) r, x4, x5, x6, x7]
      \<and> (k = VStr ''host'' \<and> s = state_hosts f \<or> k = VStr ''service'' \<and> s = state_services f)"
    using s(1) by (auto simp: state_union_def history_union_def state_hosts_def state_services_def
        project_def host_state_columns_def service_state_columns_def split: if_splits)
  then obtain k d x1 x2 x3 x4 x5 x6 x7 where vs: "project (sl_fields s) r = [k, r ''hostname'', d,
      r ''state_time'', x1, x2, x3, value_of (Coal ''is_hardstate'' (VInt 0)) r,
      value_of (Coal ''state_change'' (VInt 0)) r, x4, x5, x6, x7]"
    and k: "k = VStr ''host'' \<and> s = state_hosts f \<or> k = VStr ''service'' \<and> s = state_services f"
    by metis
  have "scan_state_change (project (sl_fields s) r) = Some x" using assms(2) s(3) by simp
  note cells = scan_state_cells [OF this [unfolded vs]]
  have conds: "matches cl (apply_time f ''state_time'') r" "matches cl (apply_hard_only f) r"
    "matches cl (apply_transitions f) r" "matches cl (add_eq ''hostname'' (hf_host f)) r"
    using s(2) k by (auto simp: state_hosts_def state_services_def apply_object_def matches_simps(2))
  have kinds: "k = VStr ''host'' \<longrightarrow> hf_kind f \<noteq> KindService \<and> hf_description f = []"
    "k = VStr ''service'' \<longrightarrow> hf_kind f \<noteq> KindHost"
    using s(1) k by (auto simp: state_union_def history_union_def state_hosts_def state_services_def
        split: if_splits)
  have "hf_from f \<le> st_state_time x \<and> st_state_time x \<le> hf_to f"
    using conds(1) cells(3) by (auto simp: matches_time split: if_splits)
  moreover have "hf_hard_only f \<longrightarrow> st_is_hard x"
    using conds(2) cells(4) by (auto simp: apply_hard_only_def matches_lit_one)
  moreover have "hf_transitions_only f \<longrightarrow> st_is_transition x"
    using conds(3) cells(5) by (auto simp: apply_transitions_def matches_lit_one)
  moreover have "hf_host f \<noteq> [] \<longrightarrow> fst cl (st_hostname x) = fst cl (hf_host f)"
    using conds(4) cells(2) by (auto simp: matches_add_eq)
  moreover have "hf_kind f = KindService \<or> hf_description f \<noteq> [] \<longrightarrow> st_kind x = KindService"
    "hf_kind f = KindHost \<longrightarrow> st_kind x = KindHost"
    using k kinds cells(1) unfolding KindHost_def [symmetric] KindService_def [symmetric]
    by (elim disjE; simp)+
  ultimately show ?thesis by blast
qed

text \<open>
  A state history never leaves its window and keeps to what was asked: every entry lies between
  \<open>from\<close> and \<open>to\<close>, hard-only lists hold hard states, transition lists real transitions, and a
  named host or kind is the only one listed.
\<close>
theorem state_changes_stay_in_window:
  assumes "state_changes_list sv f p = Inr (out, tot)"
    and "sorts (sv_collation sv) (sv_arrange sv)"
  shows "\<forall>x \<in> set out. hf_from f \<le> st_state_time x \<and> st_state_time x \<le> hf_to f
    \<and> (hf_hard_only f \<longrightarrow> st_is_hard x) \<and> (hf_transitions_only f \<longrightarrow> st_is_transition x)
    \<and> (hf_kind f = KindService \<or> hf_description f \<noteq> [] \<longrightarrow> st_kind x = KindService)
    \<and> (hf_kind f = KindHost \<longrightarrow> st_kind x = KindHost)
    \<and> (hf_host f \<noteq> [] \<longrightarrow> fst (sv_collation sv) (st_hostname x) = fst (sv_collation sv) (hf_host f))"
proof (intro ballI)
  fix x assume x: "x \<in> set out"
  let ?rows = "union_rows (sv_collation sv) (sv_listed sv) (state_union f)"
  obtain row where "row \<in> set ?rows" "scan_state_change (snd row) = Some x"
    using assms(1) x unfolding state_changes_list_def union_page_def
    by (rule list_page_member [OF _ assms(2)])
  then show "hf_from f \<le> st_state_time x \<and> st_state_time x \<le> hf_to f
    \<and> (hf_hard_only f \<longrightarrow> st_is_hard x) \<and> (hf_transitions_only f \<longrightarrow> st_is_transition x)
    \<and> (hf_kind f = KindService \<or> hf_description f \<noteq> [] \<longrightarrow> st_kind x = KindService)
    \<and> (hf_kind f = KindHost \<longrightarrow> st_kind x = KindHost)
    \<and> (hf_host f \<noteq> [] \<longrightarrow> fst (sv_collation sv) (st_hostname x) = fst (sv_collation sv) (hf_host f))"
    by (rule state_row)
qed

definition history_row :: "int \<Rightarrow> int \<Rightarrow> sql_row" where
  "history_row t hard col =
     (if col \<in> {''hostname'', ''service_description'', ''output'', ''long_output''} then VStr ''web''
      else if col = ''state_time'' then VInt t
      else if col = ''is_hardstate'' then VInt hard
      else VInt 1)"

definition history_server :: server where
  "history_server = sample_server\<lparr>
     sv_counted := (\<lambda>t. [history_row 50 1, history_row 60 0, history_row 5 1]),
     sv_listed := (\<lambda>t. [history_row 50 1, history_row 60 0, history_row 5 1])\<rparr>"

definition hard_filter :: history_filter where
  "hard_filter = \<lparr>hf_host = ''web'', hf_description = [], hf_kind = KindHost, hf_search = [],
     hf_states = [], hf_from = 10, hf_to = 100, hf_hard_only = True, hf_transitions_only = True\<rparr>"

theorem state_changes_stay_in_window_witness:
  "\<exists>x. state_changes_list history_server hard_filter first_page = Inr ([x], 1)
     \<and> 10 \<le> st_state_time x \<and> st_is_hard x"
proof -
  have "case state_changes_list history_server hard_filter first_page of
      Inl _ \<Rightarrow> False | Inr (out, n) \<Rightarrow> length out = 1 \<and> n = 1"
    by code_simp
  then obtain x where run: "state_changes_list history_server hard_filter first_page = Inr ([x], 1)"
    by (auto split: sum.splits simp: length_Suc_conv)
  have "sorts (sv_collation history_server) (sv_arrange history_server)"
    using sample_server_sorts by (simp add: history_server_def)
  from state_changes_stay_in_window [OF run this]
  show ?thesis using run by (simp add: hard_filter_def)
qed

end
