(* ===== verification/Logging.thy ===== *)
theory Logging
  imports Json
begin

text \<open>
  The logger (\<^verbatim>\<open>internal/logging/logging.go\<close>) and the levels of \<^verbatim>\<open>log/slog\<close>, in their order: what a
  configured level lets through. The lines themselves are not written out here; the access log and
  the reconnects of the worker source keep theirs with their levels.
\<close>

section \<open>Levels\<close>

datatype log_level = LevelDebug | LevelInfo | LevelWarn | LevelError

text \<open>The numbers of \<^verbatim>\<open>log/slog\<close>, which leave room between the names.\<close>

fun level_number :: "log_level \<Rightarrow> int" where
  "level_number LevelDebug = -4"
| "level_number LevelInfo = 0"
| "level_number LevelWarn = 4"
| "level_number LevelError = 8"

lemma level_number_inject [simp]: "level_number l = level_number l' \<longleftrightarrow> l = l'"
  by (cases l; cases l') simp_all

instantiation log_level :: linorder
begin

definition less_eq_log_level :: "log_level \<Rightarrow> log_level \<Rightarrow> bool" where
  "l \<le> l' \<longleftrightarrow> level_number l \<le> level_number l'"

definition less_log_level :: "log_level \<Rightarrow> log_level \<Rightarrow> bool" where
  "l < l' \<longleftrightarrow> level_number l < level_number l'"

instance
  by standard (auto simp: less_eq_log_level_def less_log_level_def)

end

instantiation log_level :: order_top
begin

definition top_log_level :: log_level where "top_log_level = LevelError"

instance
proof
  fix l :: log_level
  show "l \<le> top" by (cases l) (simp_all add: less_eq_log_level_def top_log_level_def)
qed

end

text \<open>A handler drops the records below its level.\<close>

definition log_enabled :: "log_level \<Rightarrow> log_level \<Rightarrow> bool" where
  "log_enabled configured l \<longleftrightarrow> configured \<le> l"

lemma errors_always_logged [simp]: "log_enabled configured LevelError"
  using top_greatest [of configured] by (simp add: log_enabled_def top_log_level_def)

lemma log_enabled_trans: "log_enabled c l \<Longrightarrow> l \<le> l' \<Longrightarrow> log_enabled c l'"
  unfolding log_enabled_def by (rule order_trans)

section \<open>The configured logger\<close>

datatype log_format = JSONLog | TextLog

text \<open>
  \<open>strings.ToLower\<close> as a comparison with a lower-case ASCII word sees it: outside ASCII, only the
  dotted capital I and the Kelvin sign have a letter of ASCII for their lower case.
\<close>

definition to_lower :: "string \<Rightarrow> string" where
  "to_lower s =
     concat (map (\<lambda>(r, raw). if 65 \<le> r \<and> r \<le> 90 then [char_of (r + 32)]
                             else if r = 304 then ''i'' else if r = 8490 then ''k'' else raw) (go_runes s))"

definition new_logger :: "string \<Rightarrow> string \<Rightarrow> string + log_level \<times> log_format" where
  "new_logger level format =
     (let l = to_lower level; f = to_lower format in
      bind_err
        (if l = ''debug'' then Inr LevelDebug
         else if l = ''info'' then Inr LevelInfo
         else if l = ''warn'' \<or> l = ''warning'' then Inr LevelWarn
         else if l = ''error'' then Inr LevelError
         else Inl (''logging: '' @ go_quote level @ '' is not one of debug, info, warn, error''))
        (\<lambda>lvl.
          if f = ''json'' then Inr (lvl, JSONLog)
          else if f = ''text'' \<or> f = [] then Inr (lvl, TextLog)
          else Inl (''logging: '' @ go_quote format @ '' is not one of text, json'')))"

text \<open>A logger that was built has one of the levels by name, and an unknown name is refused rather than guessed.\<close>

lemma new_logger_Inr:
  "new_logger level format = Inr (l, f) \<Longrightarrow>
     (l = LevelDebug \<longleftrightarrow> to_lower level = ''debug'') \<and> (f = JSONLog \<longleftrightarrow> to_lower format = ''json'')"
  by (auto simp: new_logger_def Let_def guard_simps split: if_splits)

end
