(* ===== verification/Events.thy ===== *)
theory Events
  imports Logging
begin

text \<open>
  Live updates (\<^verbatim>\<open>internal/events\<close>): the hub that coalesces changes into batches and fans them
  out, the frames of the event stream, and the source that reads the worker's WebSocket.

  The hub is a state machine. What its mutex covers is one step; the sends of a flush happen after
  the mutex is released, so each of them is a step of its own and others may come in between.
  A subscriber's channel is known by a number; the runtime's maps have no order, so whatever
  iterates over one does so in an order given from outside.
\<close>

section \<open>The hub\<close>

record change =
  ch_topic :: string
  ch_kind :: string
  ch_host :: string
  ch_service :: string

record batch =
  ba_changes :: "change list"
  ba_topics :: "string list"
  ba_at :: int64
  ba_dropped :: nat

type_synonym chan = nat

record hub =
  hu_max_batch :: int
  hu_max_clients :: int
  hu_subscribers :: "chan list"
  hu_pending :: "change list"
  hu_dropped :: nat
  hu_connected :: bool
  hu_queues :: "chan \<Rightarrow> batch list"     \<comment> \<open>what each channel's buffer holds\<close>
  hu_closed :: "chan set"
  hu_released :: "chan set"              \<comment> \<open>taken out of the map, not yet closed\<close>
  hu_sending :: "(batch \<times> chan list) option"
  hu_next :: chan
  hu_panicked :: bool

definition channel_capacity :: nat where "channel_capacity = 8"

definition new_hub :: "int \<Rightarrow> int \<Rightarrow> hub" where
  "new_hub max_batch max_clients =
     \<lparr>hu_max_batch = (if max_batch \<le> 0 then 500 else max_batch),
      hu_max_clients = (if max_clients \<le> 0 then 500 else max_clients),
      hu_subscribers = [], hu_pending = [], hu_dropped = 0, hu_connected = False,
      hu_queues = (\<lambda>_. []), hu_closed = {}, hu_released = {}, hu_sending = None, hu_next = 0,
      hu_panicked = False\<rparr>"

definition subscribe :: "hub \<Rightarrow> chan option \<times> hub" where
  "subscribe h =
     (if int (length (hu_subscribers h)) \<ge> hu_max_clients h then (None, h)
      else (Some (hu_next h),
            h\<lparr>hu_subscribers := hu_subscribers h @ [hu_next h], hu_next := Suc (hu_next h)\<rparr>))"

text \<open>
  The release function: under the mutex the channel leaves the map, and after it the channel is
  closed. \<open>sync.Once\<close> runs the pair at most once.
\<close>

definition release :: "chan \<Rightarrow> hub \<Rightarrow> hub" where
  "release c h =
     (if c \<in> set (hu_subscribers h)
      then h\<lparr>hu_subscribers := filter (\<lambda>x. x \<noteq> c) (hu_subscribers h),
             hu_released := insert c (hu_released h)\<rparr>
      else h)"

definition close_channel :: "chan \<Rightarrow> hub \<Rightarrow> hub" where
  "close_channel c h =
     (if c \<in> hu_released h
      then h\<lparr>hu_released := hu_released h - {c}, hu_closed := insert c (hu_closed h)\<rparr>
      else h)"

definition publish :: "change \<Rightarrow> hub \<Rightarrow> hub" where
  "publish c h =
     (if int (length (hu_pending h)) \<ge> hu_max_batch h \<and> c \<notin> set (hu_pending h)
      then h\<lparr>hu_dropped := hu_dropped h + 1\<rparr>
      else h\<lparr>hu_pending := (if c \<in> set (hu_pending h) then hu_pending h else hu_pending h @ [c])\<rparr>)"

definition set_connected :: "bool \<Rightarrow> hub \<Rightarrow> hub" where
  "set_connected up h = h\<lparr>hu_connected := up\<rparr>"

text \<open>\<open>flush\<close> up to the unlock: the batch, and the channels it will be offered to.\<close>

definition make_batch :: "int64 \<Rightarrow> hub \<Rightarrow> batch" where
  "make_batch now h =
     \<lparr>ba_changes = hu_pending h, ba_topics = remdups (map ch_topic (hu_pending h)),
      ba_at = now, ba_dropped = hu_dropped h\<rparr>"

definition flush_begin :: "int64 \<Rightarrow> chan list \<Rightarrow> hub \<Rightarrow> hub" where
  "flush_begin now order h =
     (let cleared = h\<lparr>hu_pending := [], hu_dropped := 0\<rparr> in
      if hu_pending h = [] \<or> hu_subscribers h = [] then cleared
      else cleared\<lparr>hu_sending := Some (make_batch now h, order)\<rparr>)"

text \<open>
  One turn of the loop after it. A full buffer drops the batch. A send on a closed channel panics
  in Go, also inside a \<open>select\<close> with a default.
\<close>

definition send_next :: "hub \<Rightarrow> hub" where
  "send_next h =
     (case hu_sending h of
        None \<Rightarrow> h
      | Some (b, []) \<Rightarrow> h\<lparr>hu_sending := None\<rparr>
      | Some (b, c # cs) \<Rightarrow>
          if c \<in> hu_closed h then h\<lparr>hu_panicked := True, hu_sending := None\<rparr>
          else h\<lparr>hu_sending := Some (b, cs),
                 hu_queues := (if length (hu_queues h c) < channel_capacity
                   then (hu_queues h)(c := hu_queues h c @ [b]) else hu_queues h)\<rparr>)"

definition receive :: "chan \<Rightarrow> hub \<Rightarrow> hub" where
  "receive c h = h\<lparr>hu_queues := (hu_queues h)(c := tl (hu_queues h c))\<rparr>"

section \<open>The hub as a state machine\<close>

text \<open>
  One flusher runs, so a flush begins only when the last one is over; a panic ends the process.
\<close>

inductive hub_step :: "hub \<Rightarrow> hub \<Rightarrow> bool" where
  Subscribe: "\<not> hu_panicked h \<Longrightarrow> hub_step h (snd (subscribe h))"
| Release: "\<not> hu_panicked h \<Longrightarrow> hub_step h (release c h)"
| Close: "\<not> hu_panicked h \<Longrightarrow> hub_step h (close_channel c h)"
| Publish: "\<not> hu_panicked h \<Longrightarrow> hub_step h (publish c h)"
| Connected: "\<not> hu_panicked h \<Longrightarrow> hub_step h (set_connected up h)"
| Flush: "\<not> hu_panicked h \<Longrightarrow> hu_sending h = None \<Longrightarrow> set order = set (hu_subscribers h) \<Longrightarrow>
    distinct order \<Longrightarrow> hub_step h (flush_begin now order h)"
| Send: "\<not> hu_panicked h \<Longrightarrow> hub_step h (send_next h)"
| Receive: "\<not> hu_panicked h \<Longrightarrow> hub_step h (receive c h)"

inductive_cases hub_stepE: "hub_step h h'"

inductive hub_reachable :: "int \<Rightarrow> int \<Rightarrow> hub \<Rightarrow> bool" for mb mc where
  Start: "hub_reachable mb mc (new_hub mb mc)"
| Step: "hub_reachable mb mc h \<Longrightarrow> hub_step h h' \<Longrightarrow> hub_reachable mb mc h'"

definition hub_inv :: "hub \<Rightarrow> bool" where
  "hub_inv h \<longleftrightarrow>
     0 < hu_max_batch h \<and> 0 < hu_max_clients h
     \<and> distinct (hu_pending h) \<and> int (length (hu_pending h)) \<le> hu_max_batch h
     \<and> distinct (hu_subscribers h) \<and> int (length (hu_subscribers h)) \<le> hu_max_clients h
     \<and> (\<forall>c. length (hu_queues h c) \<le> channel_capacity)
     \<and> (\<forall>c \<in> set (hu_subscribers h). c < hu_next h)
     \<and> (\<forall>c \<in> hu_closed h \<union> hu_released h. c < hu_next h \<and> c \<notin> set (hu_subscribers h))
     \<and> hu_closed h \<inter> hu_released h = {}"

lemma new_hub_inv: "hub_inv (new_hub mb mc)"
  by (simp add: hub_inv_def new_hub_def)

lemma subscribe_inv: "hub_inv h \<Longrightarrow> hub_inv (snd (subscribe h))"
  by (auto simp: hub_inv_def subscribe_def less_Suc_eq)

lemma release_inv: "hub_inv h \<Longrightarrow> hub_inv (release c h)"
  using length_filter_le [of "\<lambda>x. x \<noteq> c" "hu_subscribers h"]
  by (auto simp: hub_inv_def release_def simp del: length_filter_le)

lemma close_inv: "hub_inv h \<Longrightarrow> hub_inv (close_channel c h)"
  by (auto simp: hub_inv_def close_channel_def)

lemma publish_inv: "hub_inv h \<Longrightarrow> hub_inv (publish c h)"
  by (auto simp: hub_inv_def publish_def)

lemma set_connected_inv: "hub_inv h \<Longrightarrow> hub_inv (set_connected up h)"
  by (simp add: hub_inv_def set_connected_def)

lemma flush_begin_inv: "hub_inv h \<Longrightarrow> hub_inv (flush_begin now order h)"
  by (auto simp: hub_inv_def flush_begin_def Let_def)

lemma send_next_inv: "hub_inv h \<Longrightarrow> hub_inv (send_next h)"
  by (auto simp: hub_inv_def send_next_def split: option.splits list.splits)

lemma receive_inv: "hub_inv h \<Longrightarrow> hub_inv (receive c h)"
  by (auto simp: hub_inv_def receive_def le_diff_conv intro: le_SucI)

lemmas hub_invs = subscribe_inv release_inv close_inv publish_inv set_connected_inv
  flush_begin_inv send_next_inv receive_inv

lemma hub_step_inv: "hub_step h h' \<Longrightarrow> hub_inv h \<Longrightarrow> hub_inv h'"
  by (induction rule: hub_step.induct) (simp_all add: hub_invs)

lemma hub_reachable_inv: "hub_reachable mb mc h \<Longrightarrow> hub_inv h"
  by (induction rule: hub_reachable.induct) (auto intro: new_hub_inv hub_step_inv)

lemma hub_limits:
  assumes "hub_reachable mb mc h"
  shows "hu_max_batch h = hu_max_batch (new_hub mb mc) \<and> hu_max_clients h = hu_max_clients (new_hub mb mc)"
  using assms
proof (induction rule: hub_reachable.induct)
  case (Step h h')
  from Step.hyps(2) Step.IH show ?case
    by (cases rule: hub_stepE)
      (auto simp: subscribe_def release_def close_channel_def publish_def set_connected_def
        flush_begin_def send_next_def receive_def Let_def split: option.splits list.splits)
qed simp


text \<open>
  C35. However clients, publishers and the flusher interleave, the hub's memory is bounded: it never
  holds more pending changes than one batch may carry and holds none twice, it never has more
  subscribers than the limit, and no subscriber's buffer holds more than eight batches.
\<close>
theorem hub_memory_bounded:
  assumes "hub_reachable max_batch max_clients h"
  shows "int (length (hu_pending h)) \<le> (if max_batch \<le> 0 then 500 else max_batch)
    \<and> distinct (hu_pending h)
    \<and> int (length (hu_subscribers h)) \<le> (if max_clients \<le> 0 then 500 else max_clients)
    \<and> (\<forall>c. length (hu_queues h c) \<le> 8)"
  using hub_reachable_inv [OF assms] hub_limits [OF assms]
  by (auto simp: hub_inv_def new_hub_def channel_capacity_def)

theorem hub_memory_bounded_witness:
  "length (hu_queues (publish undefined (snd (subscribe (new_hub 1 1)))) 0) \<le> 8"
proof -
  have "hub_reachable 1 1 (new_hub 1 1)" by (rule hub_reachable.Start)
  moreover have "hub_step (new_hub 1 1) (snd (subscribe (new_hub 1 1)))"
    by (rule hub_step.Subscribe) (simp add: new_hub_def)
  moreover have "hub_step (snd (subscribe (new_hub 1 1))) (publish undefined (snd (subscribe (new_hub 1 1))))"
    by (rule hub_step.Publish) (simp add: new_hub_def subscribe_def)
  ultimately have "hub_reachable 1 1 (publish undefined (snd (subscribe (new_hub 1 1))))"
    by (blast intro: hub_reachable.Step)
  from hub_memory_bounded [OF this] show ?thesis by blast
qed

section \<open>What a batch says\<close>

text \<open>The changes in the order they first came.\<close>

definition first_seen :: "'a list \<Rightarrow> 'a list" where
  "first_seen cs = rev (remdups (rev cs))"

lemma set_first_seen [simp]: "set (first_seen cs) = set cs"
  by (simp add: first_seen_def)

lemma first_seen_snoc:
  "first_seen (cs @ [c]) = (if c \<in> set cs then first_seen cs else first_seen cs @ [c])"
  by (simp add: first_seen_def)

lemma publish_same [simp]:
  "hu_max_batch (publish c h) = hu_max_batch h" "hu_subscribers (publish c h) = hu_subscribers h"
  "hu_max_batch (fold publish cs h) = hu_max_batch h"
  "hu_subscribers (fold publish cs h) = hu_subscribers h"
proof -
  show one: "hu_max_batch (publish c h) = hu_max_batch h" "hu_subscribers (publish c h) = hu_subscribers h"
    for c h by (simp_all add: publish_def)
  show "hu_max_batch (fold publish cs h) = hu_max_batch h"
    "hu_subscribers (fold publish cs h) = hu_subscribers h"
    by (induction cs arbitrary: h) (simp_all add: one)
qed

lemma publish_all:
  assumes "hu_pending h = []" and "hu_dropped h = 0" and "0 < hu_max_batch h"
  shows "hu_pending (fold publish cs h) = take (nat (hu_max_batch h)) (first_seen cs)
    \<and> hu_dropped (fold publish cs h)
      = length (filter (\<lambda>c. c \<notin> set (take (nat (hu_max_batch h)) (first_seen cs))) cs)"
proof (induction cs rule: rev_induct)
  case Nil
  with assms show ?case by (simp add: first_seen_def)
next
  case (snoc c cs)
  let ?m = "nat (hu_max_batch h)" and ?L = "first_seen cs" and ?h = "fold publish cs h"
  have p: "hu_pending ?h = take ?m ?L" and
    d: "hu_dropped ?h = length (filter (\<lambda>c. c \<notin> set (take ?m ?L)) cs)" using snoc by auto
  show ?case
  proof (cases "c \<in> set (take ?m ?L)")
    case True
    then have "c \<in> set cs" using set_take_subset [of ?m ?L] by auto
    with True p d show ?thesis by (simp add: publish_def [of c ?h] first_seen_snoc)
  next
    case out: False
    show ?thesis
    proof (cases "length ?L < ?m")
      case True
      then have all: "take ?m ?L = ?L" by simp
      with out have "c \<notin> set cs" by simp
      moreover have "\<not> int (length (hu_pending ?h)) \<ge> hu_max_batch ?h"
        using True p all assms(3) by simp
      ultimately show ?thesis
        using p d out True all by (simp add: publish_def [of c ?h] first_seen_snoc)
    next
      case False
      then have same: "take ?m (first_seen (cs @ [c])) = take ?m ?L" by (simp add: first_seen_snoc)
      have "int (length (hu_pending ?h)) \<ge> hu_max_batch ?h" using False p assms(3) by simp
      then show ?thesis using p d out same by (simp add: publish_def [of c ?h])
    qed
  qed
qed

text \<open>
  A batch never misleads: after any changes published since the last flush, it carries the
  first distinct ones up to its cap, each once and with exactly their topics, and \<open>dropped\<close>
  counts precisely the published changes it does not carry. So a batch that reports none
  dropped is complete.
\<close>
theorem batch_accounts_for_changes:
  assumes "hu_pending h = []" and "hu_dropped h = 0" and "0 < hu_max_batch h"
    and "hu_subscribers h \<noteq> []" and "cs \<noteq> []"
  shows "\<exists>b. hu_sending (flush_begin now order (fold publish cs h)) = Some (b, order)
    \<and> ba_changes b = take (nat (hu_max_batch h)) (first_seen cs)
    \<and> set (ba_topics b) = ch_topic ` set (ba_changes b)
    \<and> ba_dropped b = length (filter (\<lambda>c. c \<notin> set (ba_changes b)) cs)
    \<and> (ba_dropped b = 0 \<longleftrightarrow> set (ba_changes b) = set cs)"
proof -
  let ?b = "make_batch now (fold publish cs h)"
  note p = publish_all [OF assms(1-3), of cs]
  have "first_seen cs \<noteq> []" using assms(5) by (metis set_first_seen set_empty)
  then have ne: "hu_pending (fold publish cs h) \<noteq> []" using p assms(3) by simp
  have b: "ba_changes ?b = take (nat (hu_max_batch h)) (first_seen cs)"
    "set (ba_topics ?b) = ch_topic ` set (ba_changes ?b)"
    "ba_dropped ?b = length (filter (\<lambda>c. c \<notin> set (ba_changes ?b)) cs)"
    using p by (simp_all add: make_batch_def)
  have "set (ba_changes ?b) \<subseteq> set cs" using b(1) set_take_subset by (metis set_first_seen)
  then have "ba_dropped ?b = 0 \<longleftrightarrow> set (ba_changes ?b) = set cs"
    using b(3) by (auto simp: filter_empty_conv)
  with b ne assms(4) show ?thesis by (simp add: flush_begin_def Let_def)
qed

definition sample_change :: "string \<Rightarrow> change" where
  "sample_change host = \<lparr>ch_topic = ''t'', ch_kind = ''host'', ch_host = host, ch_service = []\<rparr>"

theorem batch_accounts_for_changes_witness:
  "\<exists>b. hu_sending (flush_begin 9 [0] (fold publish (map sample_change [''a'', ''b'', ''a'', ''c''])
        (snd (subscribe (new_hub 2 1))))) = Some (b, [0]) \<and> ba_dropped b = 1"
proof -
  let ?h = "snd (subscribe (new_hub 2 1))"
  have h: "hu_pending ?h = []" "hu_dropped ?h = 0" "0 < hu_max_batch ?h" "hu_subscribers ?h \<noteq> []"
    "nat (hu_max_batch ?h) = 2"
    by (simp_all add: subscribe_def new_hub_def)
  have "take 2 (first_seen (map sample_change [''a'', ''b'', ''a'', ''c''])) = map sample_change [''a'', ''b'']"
    by (simp add: first_seen_def sample_change_def)
  with batch_accounts_for_changes [OF h(1-4), of "map sample_change [''a'', ''b'', ''a'', ''c'']" 9 "[0]"] h(5)
  show ?thesis by (auto simp: sample_change_def)
qed

section \<open>The sends of a flush\<close>

lemma send_all:
  assumes "hu_sending h = Some (b, cs)" and "distinct cs" and "set cs \<inter> hu_closed h = {}"
  shows "(send_next ^^ Suc (length cs)) h
    = h\<lparr>hu_sending := None,
        hu_queues := (\<lambda>c. if c \<in> set cs \<and> length (hu_queues h c) < channel_capacity
          then hu_queues h c @ [b] else hu_queues h c)\<rparr>"
  using assms
proof (induction cs arbitrary: h)
  case Nil
  then show ?case by (simp add: send_next_def)
next
  case (Cons c cs)
  let ?h = "send_next h"
  have h1: "?h = h\<lparr>hu_sending := Some (b, cs),
      hu_queues := (if length (hu_queues h c) < channel_capacity
        then (hu_queues h)(c := hu_queues h c @ [b]) else hu_queues h)\<rparr>"
    using Cons.prems by (simp add: send_next_def)
  then have "(send_next ^^ Suc (length cs)) ?h
    = ?h\<lparr>hu_sending := None,
        hu_queues := (\<lambda>c. if c \<in> set cs \<and> length (hu_queues ?h c) < channel_capacity
          then hu_queues ?h c @ [b] else hu_queues ?h c)\<rparr>"
    using Cons.prems by (intro Cons.IH) auto
  moreover have "(\<lambda>x. if x \<in> set cs \<and> length (hu_queues ?h x) < channel_capacity
          then hu_queues ?h x @ [b] else hu_queues ?h x)
      = (\<lambda>x. if x \<in> set (c # cs) \<and> length (hu_queues h x) < channel_capacity
          then hu_queues h x @ [b] else hu_queues h x)"
    using Cons.prems by (auto simp: h1 fun_eq_iff)
  moreover have "(send_next ^^ Suc (length (c # cs))) h = (send_next ^^ Suc (length cs)) ?h"
    by (simp add: funpow_swap1)
  ultimately show ?case by (simp add: h1)
qed

text \<open>
  C36. A flush that nothing interrupts ends after one send per subscriber, reaches every subscriber
  whose buffer has room, leaves the buffer of a slow one as it was, and touches no other channel.
  No client can hold it up.
\<close>
theorem flush_reaches_every_subscriber:
  assumes "hub_inv h" and "hu_pending h \<noteq> []" and "hu_subscribers h \<noteq> []"
    and "set order = set (hu_subscribers h)" and "distinct order"
  shows "let h' = (send_next ^^ Suc (length order)) (flush_begin now order h) in
    hu_sending h' = None \<and> hu_panicked h' = hu_panicked h
    \<and> hu_pending h' = [] \<and> hu_dropped h' = 0
    \<and> (\<forall>c. hu_queues h' c =
         (if c \<in> set (hu_subscribers h) \<and> length (hu_queues h c) < channel_capacity
          then hu_queues h c @ [make_batch now h] else hu_queues h c))"
proof -
  let ?f = "flush_begin now order h"
  have f: "?f = h\<lparr>hu_pending := [], hu_dropped := 0, hu_sending := Some (make_batch now h, order)\<rparr>"
    using assms(2,3) by (simp add: flush_begin_def Let_def)
  have "set order \<inter> hu_closed ?f = {}"
    using assms(1,4) by (auto simp: f hub_inv_def)
  with send_all [of ?f "make_batch now h" order] assms(4,5) show ?thesis
    by (simp add: f Let_def)
qed

theorem flush_reaches_every_subscriber_witness:
  "hu_queues ((send_next ^^ 2) (flush_begin 9 [0] (publish (sample_change ''a'') (snd (subscribe (new_hub 5 5)))))) 0
     \<noteq> []"
proof -
  let ?h = "publish (sample_change ''a'') (snd (subscribe (new_hub 5 5)))"
  have "hub_inv ?h" by (intro publish_inv subscribe_inv new_hub_inv)
  moreover have "hu_pending ?h \<noteq> []" "hu_subscribers ?h = [0]"
    by (simp_all add: publish_def subscribe_def new_hub_def)
  moreover have "length (hu_queues ?h 0) < channel_capacity"
    by (simp add: publish_def subscribe_def new_hub_def channel_capacity_def)
  ultimately show ?thesis
    using flush_reaches_every_subscriber [of ?h "[0]" 9] by (simp add: Let_def numeral_2_eq_2)
qed

text \<open>
  An interruption is a different matter. The sends run after the mutex is released, so a client
  that goes away between the snapshot and its send has its channel closed under the flusher, and
  the send panics. A panicking goroutine takes the process with it.
\<close>

lemma flush_races_with_unsubscribe:
  "\<exists>h. hub_reachable 500 500 h \<and> hu_panicked h"
proof -
  let ?h1 = "snd (subscribe (new_hub 500 500))"
  let ?h2 = "publish (sample_change ''db1'') ?h1"
  let ?h3 = "flush_begin 0 [0] ?h2"
  let ?h4 = "release 0 ?h3"
  let ?h5 = "close_channel 0 ?h4"
  let ?h6 = "send_next ?h5"
  note ev = new_hub_def subscribe_def publish_def flush_begin_def release_def close_channel_def
    send_next_def Let_def
  have "hub_reachable 500 500 ?h1"
    by (rule hub_reachable.Step [OF hub_reachable.Start hub_step.Subscribe]) (simp add: ev)
  then have "hub_reachable 500 500 ?h2"
    by (rule hub_reachable.Step [OF _ hub_step.Publish]) (simp add: ev)
  then have "hub_reachable 500 500 ?h3"
    by (rule hub_reachable.Step [OF _ hub_step.Flush]) (simp_all add: ev)
  then have "hub_reachable 500 500 ?h4"
    by (rule hub_reachable.Step [OF _ hub_step.Release]) (simp add: ev)
  then have "hub_reachable 500 500 ?h5"
    by (rule hub_reachable.Step [OF _ hub_step.Close]) (simp add: ev)
  then have "hub_reachable 500 500 ?h6"
    by (rule hub_reachable.Step [OF _ hub_step.Send]) (simp add: ev)
  moreover have "hu_panicked ?h6" by (simp add: ev)
  ultimately show ?thesis by blast
qed


section \<open>The worker's stream\<close>

definition topics :: "string list" where
  "topics = [''statusngin_hoststatus'', ''statusngin_servicestatus'', ''statusngin_statechanges'',
             ''statusngin_acknowledgements'', ''statusngin_downtimes'', ''statusngin_core_restart'']"

text \<open>The fields an event is decoded into; an absent string is empty.\<close>

record event_fields =
  ef_name :: string
  ef_host_name :: string
  ef_description :: string
  ef_service_desc :: string
  ef_statechange_type :: "int option"
  ef_downtime :: "(string \<times> string) option"

record frame =
  fr_topic :: string
  fr_payload :: "event_fields option list"  \<comment> \<open>None: not an object of these fields\<close>

definition event_host :: "event_fields \<Rightarrow> string" where
  "event_host f =
     (let host = (if ef_host_name f = [] then ef_name f else ef_host_name f)
      in case ef_downtime f of
           Some (h, s) \<Rightarrow> if h \<noteq> [] then h else host
         | None \<Rightarrow> host)"

definition event_service :: "event_fields \<Rightarrow> string" where
  "event_service f =
     (let service = (if ef_service_desc f = [] then ef_description f else ef_service_desc f)
      in case ef_downtime f of
           Some (h, s) \<Rightarrow> if s \<noteq> [] then s else service
         | None \<Rightarrow> service)"

definition change_from :: "string \<Rightarrow> event_fields option \<Rightarrow> change option" where
  "change_from topic raw =
     (if topic = ''statusngin_core_restart''
      then Some \<lparr>ch_topic = topic, ch_kind = [], ch_host = [], ch_service = []\<rparr>
      else case raw of
        None \<Rightarrow> None
      | Some f \<Rightarrow>
          let host = event_host f; service = event_service f
          in if host = [] then None
             else
               let service = (if ef_statechange_type f = Some 0 then [] else service)
               in Some \<lparr>ch_topic = topic, ch_kind = (if service \<noteq> [] then ''service'' else ''host''),
                        ch_host = host, ch_service = service\<rparr>)"

definition handle :: "frame option \<Rightarrow> hub \<Rightarrow> hub" where
  "handle data h =
     (case data of
        None \<Rightarrow> h
      | Some f \<Rightarrow>
          fold (\<lambda>raw h. case change_from (fr_topic f) raw of Some c \<Rightarrow> publish c h | None \<Rightarrow> h)
            (fr_payload f) h)"

definition enabled :: "string \<Rightarrow> string \<Rightarrow> bool" where
  "enabled url key \<longleftrightarrow> url \<noteq> [] \<and> key \<noteq> []"

text \<open>
  \<open>jitter\<close> is the random draw, in \<open>[0, delay/4)\<close>.
\<close>

definition backoff_delay :: "int \<Rightarrow> duration" where
  "backoff_delay tries =
     (let delay = second * 2 ^ nat (min (tries - 1) 6) in if delay > minute then minute else delay)"

definition backoff :: "int \<Rightarrow> int \<Rightarrow> duration" where
  "backoff tries jitter =
     (let delay = backoff_delay tries in delay div 2 + jitter + delay div 4)"

text \<open>
  What one connection comes to: the dial fails, or a session delivers frames until a read fails.
\<close>

datatype connection = DialFailed bool string | Session "frame option list" string

definition connect :: "connection \<Rightarrow> hub \<Rightarrow> string \<times> hub" where
  "connect c h =
     (case c of
        DialFailed unauthorized e \<Rightarrow>
          (if unauthorized then ''the worker rejected the API key'' else e, h)
      | Session frames e \<Rightarrow> (e, fold handle frames (set_connected True h)))"

record retry_log =
  rl_level :: log_level
  rl_error :: string
  rl_attempt :: int
  rl_in :: duration

text \<open>The reconnect loop over the connections to come, each with its draw; what it logs.\<close>

fun run_source :: "int \<Rightarrow> (connection \<times> int) list \<Rightarrow> hub \<Rightarrow> retry_log list \<times> hub" where
  "run_source tries [] h = ([], h)"
| "run_source tries ((c, jitter) # rest) h =
     (let (err, h) = connect c h;
          h = set_connected False h;
          tries = tries + 1;
          delay = backoff tries jitter;
          level = (if tries > 5 then LevelDebug else LevelWarn);
          (logs, h) = run_source tries rest h
      in (\<lparr>rl_level = level, rl_error = err, rl_attempt = tries, rl_in = delay\<rparr> # logs, h))"

text \<open>
  A reconnect waits at least three quarters of its nominal delay and less than all of it: the
  delay doubles from one second, stays within a minute, and the jitter never takes it out of
  that range.
\<close>
theorem backoff_bounds:
  assumes "1 \<le> tries" and "0 \<le> jitter" and "jitter < backoff_delay tries div 4"
  shows "3 * backoff_delay tries \<le> 4 * backoff tries jitter
    \<and> backoff tries jitter < backoff_delay tries
    \<and> backoff_delay tries = min minute (second * 2 ^ nat (min (tries - 1) 6))"
proof -
  let ?n = "nat (min (tries - 1) 6)"
  have "?n \<in> {0, 1, 2, 3, 4, 5, 6}" using assms(1) by auto
  then have "4 dvd backoff_delay tries"
    by (auto simp: backoff_delay_def Let_def minute_def second_def)
  then have "4 * (backoff_delay tries div 4) = backoff_delay tries"
    "backoff_delay tries div 2 = 2 * (backoff_delay tries div 4)" by auto
  with assms(2,3) show ?thesis
    by (simp add: backoff_def Let_def) (auto simp: backoff_delay_def Let_def)
qed

theorem backoff_bounds_witness:
  "backoff 9 (14 * second) < minute"
proof -
  have d: "backoff_delay 9 = minute" by (simp add: backoff_delay_def minute_def second_def)
  have "14 * second < backoff_delay 9 div 4" by (simp add: d minute_def second_def)
  from backoff_bounds [OF _ _ this] d duration_pos(1) show ?thesis by linarith
qed

text \<open>
  The attempt counter only ever grows, whatever the connections achieved: after five
  disconnections, however long the sessions between them were, every later one waits the full
  delay and is logged at debug level.
\<close>

lemma run_source_attempts:
  "map rl_attempt (fst (run_source tries cs h)) = map (\<lambda>i. tries + 1 + int i) [0..<length cs]
   \<and> map rl_level (fst (run_source tries cs h))
     = map (\<lambda>i. if tries + 1 + int i > 5 then LevelDebug else LevelWarn) [0..<length cs]"
proof (induction cs arbitrary: tries h)
  case (Cons x rest)
  obtain c jitter where x: "x = (c, jitter)" by fastforce
  have upt: "[0..<length (x # rest)] = 0 # map Suc [0..<length rest]"
    by (simp add: upt_conv_Cons map_Suc_upt del: upt_Suc)
  show ?case
    unfolding upt unfolding x using Cons.IH [of "tries + 1" "set_connected False (snd (connect c h))"]
    by (simp add: case_prod_beta Let_def comp_def algebra_simps del: upt_Suc map_Suc_upt)
qed simp

text \<open>With the level a server has by default, those reconnects are no longer seen.\<close>

lemma late_reconnects_unseen:
  assumes "l \<in> set (drop 5 (fst (run_source 0 cs h)))"
  shows "\<not> log_enabled LevelInfo (rl_level l)"
proof -
  have "map rl_level (drop 5 (fst (run_source 0 cs h)))
      = map (\<lambda>i. if 0 + 1 + int i > 5 then LevelDebug else LevelWarn) [5..<length cs]"
    using conjunct2 [OF run_source_attempts [of 0 cs h]] by (simp add: drop_map [symmetric]) (simp add: drop_map)
  moreover have "rl_level l \<in> set (map rl_level (drop 5 (fst (run_source 0 cs h))))"
    using assms by simp
  ultimately have "rl_level l = LevelDebug" by auto
  then show ?thesis by (simp add: log_enabled_def less_eq_log_level_def)
qed

section \<open>The event stream to a browser\<close>

text \<open>
  \<open>enc_batch\<close> and \<open>enc_link\<close> encode the payloads as JSON, which carries no raw line break.
\<close>

definition nl :: string where "nl = [CHR 0x0A]"

definition sse_write :: "string \<Rightarrow> string \<Rightarrow> string" where
  "sse_write event data = ''event: '' @ event @ nl @ ''data: '' @ data @ nl @ nl"

datatype sse_input = BatchReady batch | Heartbeat bool int64 | ChannelClosed | ClientGone

fun sse_loop :: "(batch \<Rightarrow> string) \<Rightarrow> (bool \<Rightarrow> int64 \<Rightarrow> string) \<Rightarrow> bool \<Rightarrow> sse_input list \<Rightarrow> string" where
  "sse_loop enc_batch enc_link connected [] = []"
| "sse_loop enc_batch enc_link connected (ClientGone # rest) = []"
| "sse_loop enc_batch enc_link connected (ChannelClosed # rest) = []"
| "sse_loop enc_batch enc_link connected (BatchReady b # rest) =
     sse_write ''changes'' (enc_batch b) @ sse_loop enc_batch enc_link connected rest"
| "sse_loop enc_batch enc_link connected (Heartbeat up now # rest) =
     '': keep-alive'' @ nl @ nl
     @ (if up \<noteq> connected then sse_write ''upstream'' (enc_link up now) else [])
     @ sse_loop enc_batch enc_link up rest"

definition serve_sse ::
  "(batch \<Rightarrow> string) \<Rightarrow> (bool \<Rightarrow> int64 \<Rightarrow> string) \<Rightarrow> int64 \<Rightarrow> sse_input list \<Rightarrow> hub \<Rightarrow> (int + string) \<times> hub" where
  "serve_sse enc_batch enc_link now inputs h =
     (case subscribe h of
        (None, h) \<Rightarrow> (Inl 503, h)
      | (Some c, h) \<Rightarrow>
          (Inr (''retry: 5000'' @ nl @ nl @ sse_write ''hello'' (enc_link (hu_connected h) now)
                @ sse_loop enc_batch enc_link (hu_connected h) inputs),
           close_channel c (release c h)))"

text \<open>How a client reads the stream: the rules of an \<open>EventSource\<close> for these fields.\<close>

fun sse_events :: "string \<Rightarrow> string \<Rightarrow> string list \<Rightarrow> (string \<times> string) list" where
  "sse_events ev data [] = []"
| "sse_events ev data (l # ls) =
     (if l = [] then (if data = [] then sse_events [] [] ls else (ev, data) # sse_events [] [] ls)
      else if has_prefix l ''event: '' then sse_events (drop 7 l) data ls
      else if has_prefix l ''data: '' then sse_events ev (drop 6 l) ls
      else sse_events ev data ls)"

fun sse_meaning :: "(batch \<Rightarrow> string) \<Rightarrow> (bool \<Rightarrow> int64 \<Rightarrow> string) \<Rightarrow> bool \<Rightarrow> sse_input list
    \<Rightarrow> (string \<times> string) list" where
  "sse_meaning enc_batch enc_link connected [] = []"
| "sse_meaning enc_batch enc_link connected (ClientGone # rest) = []"
| "sse_meaning enc_batch enc_link connected (ChannelClosed # rest) = []"
| "sse_meaning enc_batch enc_link connected (BatchReady b # rest) =
     (''changes'', enc_batch b) # sse_meaning enc_batch enc_link connected rest"
| "sse_meaning enc_batch enc_link connected (Heartbeat up now # rest) =
     (if up \<noteq> connected then [(''upstream'', enc_link up now)] else [])
     @ sse_meaning enc_batch enc_link up rest"

abbreviation lines_of :: "string \<Rightarrow> string list" where
  "lines_of s \<equiv> split_on (CHR 0x0A) s"

definition one_line :: "string \<Rightarrow> bool" where
  "one_line s \<longleftrightarrow> CHR 0x0A \<notin> set s \<and> s \<noteq> []"

lemma lines_of_line: "CHR 0x0A \<notin> set l \<Longrightarrow> lines_of (l @ nl @ s) = l # lines_of s"
  by (simp add: nl_def split_on_append)

lemma lines_of_blank: "lines_of (nl @ s) = [] # lines_of s"
  by (simp add: nl_def)

lemma sse_events_write:
  assumes "CHR 0x0A \<notin> set ev" and "one_line data"
  shows "sse_events [] [] (lines_of (sse_write ev data @ s)) = (ev, data) # sse_events [] [] (lines_of s)"
proof -
  have "lines_of (sse_write ev data @ s) = (''event: '' @ ev) # (''data: '' @ data) # [] # lines_of s"
    using assms lines_of_line [of "''event: '' @ ev" "''data: '' @ data @ nl @ nl @ s"]
      lines_of_line [of "''data: '' @ data" "nl @ s"] lines_of_blank [of s]
    by (simp add: sse_write_def one_line_def)
  with assms show ?thesis by (simp add: has_prefix_def one_line_def)
qed

lemma sse_events_loop:
  assumes "\<And>b. one_line (enc_batch b)" and "\<And>up t. one_line (enc_link up t)"
  shows "sse_events [] [] (lines_of (sse_loop enc_batch enc_link connected inputs))
    = sse_meaning enc_batch enc_link connected inputs"
proof (induction inputs arbitrary: connected)
  case (Cons i inputs)
  have up: "CHR 0x0A \<notin> set ''changes''" "CHR 0x0A \<notin> set ''upstream''" by simp_all
  show ?case
  proof (cases i)
    case (BatchReady b)
    with Cons sse_events_write [OF up(1) assms(1)] show ?thesis by simp
  next
    case (Heartbeat now_up now)
    have "sse_events [] [] (lines_of ('': keep-alive'' @ nl @ nl @ s)) = sse_events [] [] (lines_of s)" for s
      using lines_of_line [of "'': keep-alive''" "nl @ s"] lines_of_blank [of s]
      by (simp add: has_prefix_def)
    with Heartbeat Cons sse_events_write [OF up(2) assms(2)] show ?thesis by simp
  qed simp_all
qed simp



end
