(* ===== verification/Http.thy ===== *)
theory Http
  imports AuthService Config Client CommandAudit Metrics Summary ProblemList HistoryLists Events
begin

text \<open>
  Requests, responses and the reading of parameters (\<^verbatim>\<open>params.go\<close> and \<^verbatim>\<open>response.go\<close> of
  \<^verbatim>\<open>internal/httpapi\<close>). A request carries what \<open>net/http\<close> made of it: the values of its query by
  name, its headers, its cookies, and its body as a JSON tree or the reason there is none. A
  response is what has been written: status, headers, cookies and a typed body, whose encoding is
  the library's.
\<close>

section \<open>Requests\<close>

record request =
  hq_method :: string
  hq_path :: string
  hq_segments :: "string list"   \<comment> \<open>the parts of the escaped path, unescaped\<close>
  hq_query :: "string \<Rightarrow> string list"
  hq_path_value :: "string \<Rightarrow> string"
  hq_header :: "string \<Rightarrow> string"
  hq_cookies :: "(string \<times> string) list"
  hq_remote_addr :: string
  hq_body :: "string + json"
  hq_identity :: "identity option"   \<comment> \<open>this and the next two: what the middleware puts in the context\<close>
  hq_request_id :: string
  hq_deadline :: "duration option"

definition query_get :: "request \<Rightarrow> string \<Rightarrow> string" where
  "query_get q name = (case hq_query q name of [] \<Rightarrow> [] | v # vs \<Rightarrow> v)"

section \<open>Responses\<close>

record api_error =
  er_code :: string
  er_message :: string
  er_field :: string

definition CodeBadRequest :: string where "CodeBadRequest = ''bad_request''"
definition CodeUnauthorized :: string where "CodeUnauthorized = ''unauthorized''"
definition CodeForbidden :: string where "CodeForbidden = ''forbidden''"
definition CodeNotFound :: string where "CodeNotFound = ''not_found''"
definition CodeConflict :: string where "CodeConflict = ''conflict''"
definition CodeRateLimited :: string where "CodeRateLimited = ''rate_limited''"
definition CodeUnavailable :: string where "CodeUnavailable = ''unavailable''"
definition CodeInternal :: string where "CodeInternal = ''internal_error''"
definition CodeInvalidFilter :: string where "CodeInvalidFilter = ''invalid_filter''"
definition CodeTimeout :: string where "CodeTimeout = ''timeout''"

record list_meta =
  lm_total :: int64
  lm_limit :: int
  lm_offset :: int
  lm_sort :: string

record identity_response =
  ir_username :: string
  ir_display_name :: string
  ir_email :: string
  ir_role :: string
  ir_permissions :: "string list"
  ir_is_demo :: bool
  ir_read_only :: bool
  ir_expires_at :: int64

record health_response =
  he_status :: string
  he_checks :: "(string \<times> string) list"

record meta_response =
  me_product :: string
  me_version :: string
  me_demo_mode :: bool
  me_demo_commands :: "string list"
  me_commands_enabled :: bool
  me_events_enabled :: bool
  me_metrics_provider :: string
  me_default_page_size :: int
  me_max_page_size :: int

record target_ref =
  tf_kind :: string
  tf_host :: string
  tf_service :: string

record command_response =
  cp_status :: string
  cp_action :: string
  cp_submitted :: nat
  cp_commands :: nat
  cp_accepted :: int
  cp_targets :: "string list"
  cp_verify :: "target_ref list"
  cp_note :: string

text \<open>The page of a list, by what it lists.\<close>

datatype rows =
    HostRows "host_status list"
  | NameRows "string list"
  | ServiceRows "service_status list"
  | ProblemRows "problem list"
  | DowntimeRows "downtime list"
  | AckRows "acknowledgement list"
  | LogRows "log_entry list"
  | AuditRows "audit_record list"
  | LabelRows "metric_meta list"
  | CheckRows "check_result list"
  | StateChangeRows "state_change list"
  | NotificationRows "notification list"

datatype body =
    NoBody
  | ErrorBody api_error
  | ListBody rows list_meta
  | HistoryBody rows list_meta int64 int64 bool
  | HostBody host_status "downtime list" "acknowledgement option"
  | ServiceBody service_status "downtime list" "acknowledgement option"
  | SummaryBody summary
  | MetricBody metric_result
  | IdentityBody identity_response
  | HealthBody health_response
  | MetaBody meta_response
  | CommandBody command_response
  | StreamBody string
  | FileBody string

record cookie =
  ck_name :: string
  ck_value :: string
  ck_path :: string
  ck_http_only :: bool
  ck_secure :: bool
  ck_same_site :: string
  ck_max_age :: int

text \<open>Status 0 is a response nothing has been written to.\<close>

record response =
  rs_status :: int
  rs_headers :: "string \<rightharpoonup> string"
  rs_cookies :: "cookie list"
  rs_body :: body

definition unwritten :: response where
  "unwritten = \<lparr>rs_status = 0, rs_headers = Map.empty, rs_cookies = [], rs_body = NoBody\<rparr>"

definition write_json :: "int \<Rightarrow> body \<Rightarrow> response" where
  "write_json status b =
     \<lparr>rs_status = status,
      rs_headers = [''Content-Type'' \<mapsto> ''application/json; charset=utf-8'',
                    ''X-Content-Type-Options'' \<mapsto> ''nosniff''],
      rs_cookies = [], rs_body = b\<rparr>"

text \<open>A list without rows is an empty list, never null: \<open>rows\<close> has no other.\<close>

definition write_list :: "rows \<Rightarrow> list_meta \<Rightarrow> response" where
  "write_list rs meta = write_json 200 (ListBody rs meta)"

definition write_error :: "int \<Rightarrow> string \<Rightarrow> string \<Rightarrow> response" where
  "write_error status code message =
     write_json status (ErrorBody \<lparr>er_code = code, er_message = message, er_field = []\<rparr>)"

definition write_field_error :: "int \<Rightarrow> string \<Rightarrow> string \<Rightarrow> string \<Rightarrow> response" where
  "write_field_error status code message field_name =
     write_json status (ErrorBody \<lparr>er_code = code, er_message = message, er_field = field_name\<rparr>)"

definition fail_status :: "string \<Rightarrow> int" where
  "fail_status code =
     (if code = CodeNotFound then 404
      else if code = CodeForbidden then 403
      else if code = CodeUnauthorized then 401
      else if code = CodeInternal then 500
      else if code = CodeUnavailable then 503
      else 400)"

definition fail_response :: "api_error \<Rightarrow> response" where
  "fail_response e = write_json (fail_status (er_code e)) (ErrorBody e)"

text \<open>The body of a request, read into a struct that starts as \<open>zero\<close>.\<close>

definition decode_json :: "request \<Rightarrow> (json \<Rightarrow> json_error + 'b) \<Rightarrow> string + 'b" where
  "decode_json q dec =
     (case hq_body q of
        Inl why \<Rightarrow> Inl (''request body: '' @ why)
      | Inr j \<Rightarrow>
          (case dec j of
             Inl e \<Rightarrow> Inl (''request body: '' @ json_error_text e)
           | Inr b \<Rightarrow> Inr b))"

section \<open>Pages\<close>

record http_page =
  hp_limit :: int
  hp_offset :: int
  hp_sort :: string
  hp_desc :: bool
  hp_search :: string

definition sort_spec :: "http_page \<Rightarrow> string" where
  "sort_spec p =
     (if hp_sort p = [] then []
      else if hp_desc p then hp_sort p @ '':desc'' else hp_sort p @ '':asc'')"

definition allowed :: "string \<Rightarrow> string list \<Rightarrow> bool" where
  "allowed name names = list_ex (\<lambda>s. s = name) names"

definition bad_request :: "string \<Rightarrow> string \<Rightarrow> api_error" where
  "bad_request message field_name =
     \<lparr>er_code = CodeBadRequest, er_message = message, er_field = field_name\<rparr>"

definition invalid_filter :: "string \<Rightarrow> string \<Rightarrow> api_error" where
  "invalid_filter message field_name =
     \<lparr>er_code = CodeInvalidFilter, er_message = message, er_field = field_name\<rparr>"

definition page_limit :: "request \<Rightarrow> int \<Rightarrow> int \<Rightarrow> api_error + int" where
  "page_limit q default_limit max_limit =
     (let v = query_get q ''limit'' in
      if v = [] then Inr default_limit
      else case parse_int64 v of
        None \<Rightarrow> Inl (bad_request ''limit must be a positive integer'' ''limit'')
      | Some n \<Rightarrow>
          fail_if (n < 1) (bad_request ''limit must be a positive integer'' ''limit'')
          (fail_if (n > max_limit)
             (bad_request (''limit must not exceed '' @ fmt_int max_limit) ''limit'') (Inr n)))"

definition page_offset :: "request \<Rightarrow> api_error + int" where
  "page_offset q =
     (let v = query_get q ''offset'' in
      if v = [] then Inr 0
      else case parse_int64 v of
        None \<Rightarrow> Inl (bad_request ''offset must be zero or a positive integer'' ''offset'')
      | Some n \<Rightarrow>
          fail_if (n < 0) (bad_request ''offset must be zero or a positive integer'' ''offset'') (Inr n))"

definition page_sort :: "request \<Rightarrow> string \<Rightarrow> string list \<Rightarrow> api_error + string \<times> bool" where
  "page_sort q default_sort sortable =
     (let v = query_get q ''sort'' in
      if v = [] then Inr (default_sort, False)
      else
        let (name0, dir0, found) = cut (CHR '':'') v;
            name = trim_space name0;
            dir = lower_ascii (trim_space dir0)
        in fail_if (dir \<noteq> [] \<and> dir \<noteq> ''asc'' \<and> dir \<noteq> ''desc'')
             (bad_request (''sort direction must be '' @ go_quote ''asc'' @ '' or '' @ go_quote ''desc'') ''sort'')
           (fail_if (\<not> allowed name sortable)
             (invalid_filter (''cannot sort by '' @ go_quote name @ ''; allowed: '' @ join '', '' sortable) ''sort'')
             (Inr (name, dir = ''desc''))))"

definition parse_page ::
  "request \<Rightarrow> int \<Rightarrow> int \<Rightarrow> string \<Rightarrow> string list \<Rightarrow> api_error + http_page" where
  "parse_page q default_limit max_limit default_sort sortable =
     bind_err (page_limit q default_limit max_limit) (\<lambda>limit.
     bind_err (page_offset q) (\<lambda>offset.
     bind_err (page_sort q default_sort sortable) (\<lambda>(sort, desc).
       Inr \<lparr>hp_limit = limit, hp_offset = offset, hp_sort = sort, hp_desc = desc,
            hp_search = trim_space (query_get q ''q'')\<rparr>)))"

text \<open>The names of a whitelist, in whatever order its map gives them, sorted by insertion.\<close>

fun insert_name :: "string \<Rightarrow> string list \<Rightarrow> string list" where
  "insert_name x [] = [x]"
| "insert_name x (y # ys) = (if x < y then x # y # ys else y # insert_name x ys)"

definition sortable_names :: "string list \<Rightarrow> string list" where
  "sortable_names names = foldl (\<lambda>out x. insert_name x out) [] names"

section \<open>Filters\<close>

definition parse_tri_bool :: "request \<Rightarrow> string \<Rightarrow> api_error + bool option" where
  "parse_tri_bool q name =
     (let v = query_get q name in
      if v = [] then Inr None
      else case parse_bool v of
        None \<Rightarrow> Inl (bad_request (name @ '' must be true or false'') name)
      | Some b \<Rightarrow> Inr (Some b))"

definition list_parts :: "string list \<Rightarrow> string list" where
  "list_parts groups =
     filter (\<lambda>w. w \<noteq> []) (map trim_space (concat (map (split_on (CHR '','')) groups)))"

definition parse_int_list :: "request \<Rightarrow> string \<Rightarrow> int \<Rightarrow> int \<Rightarrow> api_error + int list" where
  "parse_int_list q name lo hi =
     map_err (\<lambda>part.
       let e = invalid_filter (name @ '' must be a number between '' @ fmt_int lo @ '' and '' @ fmt_int hi) name
       in case parse_int64 part of
            None \<Rightarrow> Inl e
          | Some n \<Rightarrow> fail_if (n < lo \<or> n > hi) e (Inr n))
       (list_parts (hq_query q name))"

record time_range =
  tr_from :: int64
  tr_to :: int64

text \<open>\<open>Duration.String\<close>.\<close>

fun strip_zeros :: "string \<Rightarrow> string" where
  "strip_zeros s = rev (dropWhile (\<lambda>c. c = CHR ''0'') (rev s))"

definition fraction_text :: "nat \<Rightarrow> nat \<Rightarrow> string" where
  "fraction_text v digits =
     (let f = v mod 10 ^ digits;
          s = strip_zeros (replicate (digits - length (fmt_nat f)) (CHR ''0'') @ fmt_nat f)
      in if f = 0 then [] else ''.'' @ s)"

definition duration_text :: "duration \<Rightarrow> string" where
  "duration_text d =
     (let u = nat \<bar>d\<bar>;
          t = (if u = 0 then ''0s''
               else if u < 1000 then fmt_nat u @ ''ns''
               else if u < 1000000 then fmt_nat (u div 1000) @ fraction_text u 3 @ [CHR 0xC2, CHR 0xB5, CHR ''s'']
               else if u < 1000000000 then fmt_nat (u div 1000000) @ fraction_text u 6 @ ''ms''
               else
                 let s = u div 1000000000;
                     secs = fmt_nat (s mod 60) @ fraction_text u 9 @ ''s'';
                     m = s div 60
                 in if m = 0 then secs
                    else if m div 60 = 0 then fmt_nat m @ ''m'' @ secs
                    else fmt_nat (m div 60) @ ''h'' @ fmt_nat (m mod 60) @ ''m'' @ secs)
      in if d < 0 then CHR ''-'' # t else t)"

definition timestamp :: "request \<Rightarrow> string \<Rightarrow> int64 \<Rightarrow> api_error + int64" where
  "timestamp q name default_value =
     (let v = query_get q name;
          e = bad_request (name @ '' must be a Unix timestamp in seconds'') name
      in if v = [] then Inr default_value
         else case parse_int64 v of
           None \<Rightarrow> Inl e
         | Some n \<Rightarrow> fail_if (n < 0) e (Inr n))"

definition parse_time_range :: "int64 \<Rightarrow> request \<Rightarrow> duration \<Rightarrow> duration \<Rightarrow> api_error + time_range" where
  "parse_time_range now q default_window max_window =
     bind_err (timestamp q ''from'' (wrap64 (now - duration_seconds default_window))) (\<lambda>start.
     bind_err (timestamp q ''to'' now) (\<lambda>finish.
       fail_if (finish < start) (bad_request ''to must not be before from'' ''to'')
       (fail_if (max_window > 0 \<and> wrap64 (finish - start) > duration_seconds max_window)
          (bad_request (''the window must not exceed '' @ duration_text max_window
             @ ''; narrow it or page through it'') ''from'')
          (Inr \<lparr>tr_from = start, tr_to = finish\<rparr>))))"

definition required_query :: "request \<Rightarrow> string \<Rightarrow> api_error + string" where
  "required_query q name =
     (let v = trim_space (query_get q name) in
      fail_if (v = []) (bad_request (name @ '' is required'') name) (Inr v))"

definition parse_kind :: "request \<Rightarrow> api_error + kind" where
  "parse_kind q =
     (let v = query_get q ''kind'' in
      if v = [] then Inr []
      else if v = KindHost then Inr KindHost
      else if v = KindService then Inr KindService
      else Inl (invalid_filter (''kind must be '' @ go_quote ''host'' @ '' or '' @ go_quote ''service'') ''kind''))"

section \<open>Facts\<close>

lemma list_ex_allowed [simp]: "allowed name names \<longleftrightarrow> name \<in> set names"
  by (auto simp: allowed_def list_ex_iff)

lemma mset_insert_name [simp]: "mset (insert_name x ys) = add_mset x (mset ys)"
  by (induction ys) auto

lemma sorted_insert_name: "sorted ys \<Longrightarrow> sorted (insert_name x ys)"
proof (induction ys)
  case (Cons y ys)
  have "set (insert_name x ys) = insert x (set ys)"
    by (metis mset_insert_name set_mset_add_mset_insert set_mset_mset)
  with Cons show ?case by auto
qed simp

lemma sortable_names_sorts: "sorted (sortable_names names) \<and> mset (sortable_names names) = mset names"
proof -
  have "sorted ys \<Longrightarrow> sorted (foldl (\<lambda>out x. insert_name x out) ys names)
      \<and> mset (foldl (\<lambda>out x. insert_name x out) ys names) = mset ys + mset names" for ys
    by (induction names arbitrary: ys) (simp_all add: sorted_insert_name)
  from this [of "[]"] show ?thesis by (simp add: sortable_names_def)
qed

lemma set_sortable_names [simp]: "set (sortable_names names) = set names"
  using sortable_names_sorts [of names] by (metis set_mset_mset)

lemma parse_int64_range: "parse_int64 s = Some n \<Longrightarrow> int64_range n"
  by (auto simp: parse_int64_def Let_def split: option.splits if_splits)

lemma page_limit_Inr:
  "page_limit q d m = Inr n \<Longrightarrow> 1 \<le> d \<Longrightarrow> d \<le> m \<Longrightarrow> 1 \<le> n \<and> n \<le> m"
  by (auto simp: page_limit_def Let_def guard_simps split: if_splits option.splits)

lemma page_offset_Inr: "page_offset q = Inr n \<Longrightarrow> 0 \<le> n \<and> n < 2 ^ 63"
  by (auto simp: page_offset_def Let_def guard_simps int64_range_def dest: parse_int64_range
      split: if_splits option.splits)

lemma page_sort_Inr:
  "page_sort q d names = Inr (s, desc) \<Longrightarrow>
     s = d \<and> query_get q ''sort'' = [] \<and> \<not> desc \<or> s \<in> set names"
  by (auto simp: page_sort_def Let_def guard_simps split: if_splits prod.splits)

lemma parse_page_Inr:
  "parse_page q d m ds names = Inr p \<Longrightarrow>
     page_limit q d m = Inr (hp_limit p) \<and> page_offset q = Inr (hp_offset p)
     \<and> page_sort q ds names = Inr (hp_sort p, hp_desc p)"
  by (auto simp: parse_page_def guard_simps)

lemma timestamp_Inr:
  "timestamp q name d = Inr n \<Longrightarrow> n = d \<or> 0 \<le> n \<and> n < 2 ^ 63"
  by (auto simp: timestamp_def Let_def guard_simps int64_range_def dest: parse_int64_range
      split: if_splits option.splits)

lemma parse_time_range_bounds:
  assumes "parse_time_range now q d m = Inr tr" "0 < m"
    and "duration_seconds d \<le> now" "0 \<le> duration_seconds d" "now < 2 ^ 63"
  shows "0 \<le> tr_from tr \<and> tr_from tr \<le> tr_to tr \<and> tr_to tr - tr_from tr \<le> duration_seconds m"
proof -
  from assms(1,2) obtain f t where tr: "tr = \<lparr>tr_from = f, tr_to = t\<rparr>"
    and f: "timestamp q ''from'' (wrap64 (now - duration_seconds d)) = Inr f"
    and t: "timestamp q ''to'' now = Inr t" and le: "f \<le> t"
    and w: "wrap64 (t - f) \<le> duration_seconds m"
    by (auto simp: parse_time_range_def guard_simps not_less)
  have "wrap64 (now - duration_seconds d) = now - duration_seconds d"
    using assms(3,4,5) by (simp add: wrap64_id int64_range_def)
  with timestamp_Inr [OF f] assms(3) have "0 \<le> f" by auto
  moreover have "t < 2 ^ 63" using timestamp_Inr [OF t] assms(5) by auto
  ultimately have "wrap64 (t - f) = t - f" using le by (simp add: wrap64_id int64_range_def)
  with w le \<open>0 \<le> f\<close> show ?thesis by (simp add: tr)
qed

lemma parse_int_list_Inr:
  "parse_int_list q name lo hi = Inr ns \<Longrightarrow> n \<in> set ns \<Longrightarrow> lo \<le> n \<and> n \<le> hi"
  by (auto simp: parse_int_list_def map_err_Inr Let_def guard_simps dest!: list_all2_set2D
      split: option.splits)

lemma parse_kind_Inr: "parse_kind q = Inr k \<Longrightarrow> k = [] \<or> k = KindHost \<or> k = KindService"
  by (auto simp: parse_kind_def Let_def split: if_splits)

text \<open>
  A list request is answered with a page inside the limits of the configuration or refused: its
  size is between one and the maximum, its offset is not negative, and it sorts by the default of
  the list or a name of its whitelist, so no text of the caller is ever a sort expression.
\<close>
theorem page_within_limits:
  assumes "parse_page q (cf_default_page_size c) (cf_max_page_size c) ds (sortable_names names) = Inr p"
    and "validate_config c = []"
  shows "1 \<le> hp_limit p \<and> hp_limit p \<le> cf_max_page_size c \<and> 0 \<le> hp_offset p
    \<and> hp_sort p \<in> insert ds (set names)"
proof -
  have "1 \<le> cf_default_page_size c" "cf_default_page_size c \<le> cf_max_page_size c"
    using assms(2) by (simp_all add: validate_config_def)
  with parse_page_Inr [OF assms(1)] show ?thesis
    using page_limit_Inr page_offset_Inr page_sort_Inr by (smt (verit, best) insert_iff set_sortable_names)
qed

definition sample_request :: "(string \<times> string list) list \<Rightarrow> request" where
  "sample_request kvs =
     \<lparr>hq_method = ''GET'', hq_path = ''/api/v1/hosts'', hq_segments = [''api'', ''v1'', ''hosts''],
      hq_query = (\<lambda>n. case map_of kvs n of Some vs \<Rightarrow> vs | None \<Rightarrow> []),
      hq_path_value = (\<lambda>_. []), hq_header = (\<lambda>_. []), hq_cookies = [], hq_remote_addr = ''10.0.0.1:4711'',
      hq_body = Inl ''EOF'', hq_identity = None, hq_request_id = [], hq_deadline = None\<rparr>"

definition sample_config :: config where
  "sample_config = default_config\<lparr>cf_mysql_dsn := ''sei@/sei''\<rparr>"

lemma page_within_limits_witness:
  "\<exists>p. parse_page (sample_request [(''limit'', [''20'']), (''sort'', [''state:desc''])])
      (cf_default_page_size sample_config) (cf_max_page_size sample_config) ''hostname''
      (sortable_names [''state'', ''hostname'']) = Inr p
    \<and> hp_sort p \<in> {''hostname'', ''state''} \<and> 1 \<le> hp_limit p"
proof -
  let ?r = "parse_page (sample_request [(''limit'', [''20'']), (''sort'', [''state:desc''])])
    (cf_default_page_size sample_config) (cf_max_page_size sample_config) ''hostname''
    (sortable_names [''state'', ''hostname''])"
  have "\<not> isl ?r" by code_simp
  then obtain p where p: "?r = Inr p" by (cases ?r) auto
  have "validate_config sample_config = []" by code_simp
  from page_within_limits [OF p this] p show ?thesis by auto
qed

end
