(* ===== verification/Middleware.thy ===== *)
theory Middleware
  imports Http
begin

text \<open>
  What every request passes through before and after its handler (\<^verbatim>\<open>middleware.go\<close> and
  \<^verbatim>\<open>commandlimit.go\<close> of \<^verbatim>\<open>internal/httpapi\<close>). A handler is a step on the \<open>site\<close>, everything the
  process and the services behind it keep between requests; its error is a panic. A middleware
  takes the handler it wraps.
\<close>

section \<open>The site and its surroundings\<close>

record command_limiter =
  li_per_client :: "window option"
  li_per_demo_client :: "window option"
  li_demo_total :: "window option"

datatype log_line = LogRequest log_level string string int string | LogPanic string string

record site =
  st_auth :: service
  st_limits :: "command_limiter option"
  st_wire :: wire
  st_audit :: audit_db
  st_hub :: "hub option"
  st_log :: "log_line list"

text \<open>
  What one request meets outside: the readings of the clock, by who reads it, the random sources,
  the database as each of its reads finds it, and the verdicts of libraries.
\<close>

datatype moment = AtSession | AtLimit | AtRetry | AtDemoLimit | AtDemoRetry | AtHandler | AtAudit
  | AtObject | AtTrend | AtPrevious | AtExpiry

datatype cause = DeadlineExceeded | Canceled | OtherCause string

record http_env =
  ht_auth :: auth_env
  ht_client :: client_env
  ht_clock :: "moment \<Rightarrow> int"
  ht_token :: "string option"
  ht_request_id :: "string option"
  ht_v6_local :: "string \<Rightarrow> bool"
  ht_ping :: "string option"
  ht_collation :: collation
  ht_perf_first :: "target \<Rightarrow> bool"
  ht_server :: "nat \<Rightarrow> server"
  ht_summary :: "nat \<Rightarrow> database option"
  ht_aggregates :: aggregates
  ht_metric_order :: "metric_row list \<Rightarrow> metric_row list"
  ht_label_order :: "metric_meta list \<Rightarrow> metric_meta list"
  ht_cause :: cause
  ht_stream :: "sse_input list"
  ht_encoders :: "(batch \<Rightarrow> string) \<times> (bool \<Rightarrow> int64 \<Rightarrow> string)"

datatype provider = MySQLProvider | GraphiteProvider graphite

datatype ui_entry = UiFile string | UiDir

record ui =
  ui_file :: "string \<Rightarrow> ui_entry option"
  ui_hash :: "string \<Rightarrow> string"

record web =
  wb_cfg :: config
  wb_client :: client
  wb_provider :: provider
  wb_ui :: "ui option"
  wb_version :: string

text \<open>A panic carries the headers that had been set before it.\<close>

datatype panic = AbortHandler | PanicWith string "string \<rightharpoonup> string"

type_synonym handler = "request \<Rightarrow> (site, panic, response) step"

definition answer :: "response \<Rightarrow> (site, panic, response) step" where
  "answer r = return r"

definition on_auth :: "'a service_op \<Rightarrow> (site, auth_error, 'a) step" where
  "on_auth m s = (case m (st_auth s) of (r, a) \<Rightarrow> (r, s\<lparr>st_auth := a\<rparr>))"

definition on_audit :: "'a audit_op \<Rightarrow> (site, audit_error, 'a) step" where
  "on_audit m s = (case m (st_audit s) of (r, a) \<Rightarrow> (r, s\<lparr>st_audit := a\<rparr>))"

section \<open>Wrapping\<close>

text \<open>The first listed is the outermost.\<close>

definition chain :: "handler \<Rightarrow> (handler \<Rightarrow> handler) list \<Rightarrow> handler" where
  "chain h mw = foldr (\<lambda>m h. m h) mw h"

text \<open>Headers set before the handler runs stay unless it sets the same ones.\<close>

definition with_headers :: "(string \<rightharpoonup> string) \<Rightarrow> response \<Rightarrow> response" where
  "with_headers m r = r\<lparr>rs_headers := m ++ rs_headers r\<rparr>"

definition then_headers :: "(string \<rightharpoonup> string) \<Rightarrow> (site, panic, response) step \<Rightarrow> (site, panic, response) step" where
  "then_headers m h =
     attempt h (\<lambda>r. case r of
         Inr resp \<Rightarrow> return (with_headers m resp)
       | Inl AbortHandler \<Rightarrow> fail AbortHandler
       | Inl (PanicWith why m') \<Rightarrow> fail (PanicWith why (m ++ m')))"

definition request_id_middleware :: "http_env \<Rightarrow> handler \<Rightarrow> handler" where
  "request_id_middleware env next_handler q =
     (let given = hq_header q ''X-Request-Id'';
          id = (if given = [] \<or> length given > 64
                then (case ht_request_id env of Some h \<Rightarrow> h | None \<Rightarrow> given)
                else given)
      in then_headers [''X-Request-Id'' \<mapsto> id] (next_handler (q\<lparr>hq_request_id := id\<rparr>)))"

section \<open>The caller's address\<close>

text \<open>\<open>net.SplitHostPort\<close>: the host, or None when there is no port to split off.\<close>

definition last_index :: "char \<Rightarrow> string \<Rightarrow> nat option" where
  "last_index c s = (if c \<in> set s then Some (length s - 1 - length (takeWhile (\<lambda>d. d \<noteq> c) (rev s))) else None)"

definition first_index :: "char \<Rightarrow> string \<Rightarrow> nat option" where
  "first_index c s = (if c \<in> set s then Some (length (takeWhile (\<lambda>d. d \<noteq> c) s)) else None)"

definition split_host_port :: "string \<Rightarrow> string option" where
  "split_host_port s =
     (case last_index (CHR '':'') s of
        None \<Rightarrow> None
      | Some i \<Rightarrow>
          if hd s = CHR ''['' then
            (case first_index (CHR '']'') s of
               None \<Rightarrow> None
             | Some e \<Rightarrow>
                 if e + 1 \<noteq> i \<or> CHR ''['' \<in> set (drop 1 s) \<or> CHR '']'' \<in> set (drop (e + 1) s) then None
                 else Some (take (e - 1) (drop 1 s)))
          else
            (let host = take i s in
             if CHR '':'' \<in> set host \<or> CHR ''['' \<in> set s \<or> CHR '']'' \<in> set s then None else Some host))"

text \<open>\<open>net.ParseIP\<close> for the dotted form; a number has no leading zero.\<close>

definition ip_number :: "string \<Rightarrow> nat option" where
  "ip_number s =
     (if s = [] \<or> length s > 3 \<or> length s > 1 \<and> hd s = CHR ''0'' then None
      else case digits_val 0 s of
        None \<Rightarrow> None
      | Some n \<Rightarrow> if n > 255 then None else Some n)"

definition parse_ipv4 :: "string \<Rightarrow> nat list option" where
  "parse_ipv4 s =
     (let ns = map ip_number (split_on (CHR ''.'') s) in
      if length ns = 4 \<and> list_all (\<lambda>n. n \<noteq> None) ns then Some (map the ns) else None)"

definition ipv4_local :: "nat list \<Rightarrow> bool" where
  "ipv4_local ns \<longleftrightarrow>
     ns ! 0 = 127 \<or> ns ! 0 = 10 \<or> ns ! 0 = 172 \<and> ns ! 1 div 16 = 1 \<or> ns ! 0 = 192 \<and> ns ! 1 = 168"

text \<open>Whether an address is loopback or private; the colon form is \<open>net\<close>'s to judge.\<close>

definition ip_local :: "http_env \<Rightarrow> string \<Rightarrow> bool" where
  "ip_local env host =
     (case find (\<lambda>c. c = CHR ''.'' \<or> c = CHR '':'') host of
        None \<Rightarrow> False
      | Some c \<Rightarrow>
          if c = CHR ''.'' then (case parse_ipv4 host of None \<Rightarrow> False | Some ns \<Rightarrow> ipv4_local ns)
          else ht_v6_local env host)"

definition client_ip :: "http_env \<Rightarrow> request \<Rightarrow> string" where
  "client_ip env q =
     (let host = (case split_host_port (hq_remote_addr q) of None \<Rightarrow> hq_remote_addr q | Some h \<Rightarrow> h) in
      if \<not> ip_local env host then host
      else
        let first = trim_space (fst (cut (CHR '','') (hq_header q ''X-Forwarded-For'')))
        in if hq_header q ''X-Forwarded-For'' \<noteq> [] \<and> first \<noteq> [] then first else host)"

section \<open>Logging, panics, headers, deadlines\<close>

definition log_level_of :: "int \<Rightarrow> log_level" where
  "log_level_of status =
     (if status \<ge> 500 then LevelError else if status \<ge> 400 then LevelWarn else LevelInfo)"

text \<open>A failure of the server is in the log whatever level it was configured with.\<close>

lemma failures_always_logged: "500 \<le> status \<Longrightarrow> log_enabled configured (log_level_of status)"
  by (simp add: log_level_of_def)

text \<open>A handler that wrote nothing is logged as 200, which is what the client gets.\<close>

definition logged_status :: "response \<Rightarrow> int" where
  "logged_status r = (if rs_status r = 0 then 200 else rs_status r)"

definition add_log :: "log_line \<Rightarrow> site \<Rightarrow> site" where
  "add_log l s = s\<lparr>st_log := st_log s @ [l]\<rparr>"

definition logging_middleware :: "http_env \<Rightarrow> handler \<Rightarrow> handler" where
  "logging_middleware env next_handler q =
     bind_step (next_handler q) (\<lambda>r s.
       (Inr r, add_log (LogRequest (log_level_of (logged_status r)) (hq_method q) (hq_path q)
          (logged_status r) (client_ip env q)) s))"

definition recover_middleware :: "handler \<Rightarrow> handler" where
  "recover_middleware next_handler q =
     attempt (next_handler q) (\<lambda>r. case r of
         Inr resp \<Rightarrow> return resp
       | Inl AbortHandler \<Rightarrow> fail AbortHandler
       | Inl (PanicWith why m) \<Rightarrow> (\<lambda>s.
           (Inr (with_headers m (write_error 500 CodeInternal ''internal server error'')),
            add_log (LogPanic (hq_path q) why) s)))"

definition in_quotes :: "string \<Rightarrow> string" where
  "in_quotes s = [CHR 0x27] @ s @ [CHR 0x27]"

definition security_headers :: "config \<Rightarrow> (string \<rightharpoonup> string)" where
  "security_headers c =
     (if cf_secure_cookies c then [''Strict-Transport-Security'' \<mapsto> ''max-age=15552000''] else Map.empty)
     ++ [''X-Content-Type-Options'' \<mapsto> ''nosniff'',
         ''X-Frame-Options'' \<mapsto> ''DENY'',
         ''Referrer-Policy'' \<mapsto> ''same-origin'',
         ''Content-Security-Policy'' \<mapsto>
           ''default-src '' @ in_quotes ''self'' @ ''; img-src '' @ in_quotes ''self'' @ '' data:; style-src ''
           @ in_quotes ''self'' @ '' '' @ in_quotes ''unsafe-inline'' @ ''; ''
           @ ''script-src '' @ in_quotes ''self'' @ ''; connect-src '' @ in_quotes ''self''
           @ ''; font-src '' @ in_quotes ''self'' @ '' data:; ''
           @ ''frame-ancestors '' @ in_quotes ''none'' @ ''; base-uri '' @ in_quotes ''self''
           @ ''; form-action '' @ in_quotes ''self'']"

definition security_headers_middleware :: "web \<Rightarrow> handler \<Rightarrow> handler" where
  "security_headers_middleware w next_handler q =
     then_headers (security_headers (wb_cfg w)) (next_handler q)"

definition timeout_middleware :: "duration \<Rightarrow> (request \<Rightarrow> bool) \<Rightarrow> handler \<Rightarrow> handler" where
  "timeout_middleware timeout exempt next_handler q =
     (if timeout \<le> 0 \<or> exempt q then next_handler q
      else next_handler (q\<lparr>hq_deadline := Some timeout\<rparr>))"

section \<open>Who is asking\<close>

datatype session_error = NoSession | Uncheckable auth_error

definition find_cookie :: "string \<Rightarrow> request \<Rightarrow> string option" where
  "find_cookie name q = map_of (hq_cookies q) name"

definition identity_from_request :: "web \<Rightarrow> http_env \<Rightarrow> request \<Rightarrow> (site, session_error, identity) step" where
  "identity_from_request w env q =
     (case find_cookie (cf_session_cookie (wb_cfg w)) q of
        None \<Rightarrow> fail NoSession
      | Some token \<Rightarrow>
          if token = [] then fail NoSession
          else attempt (on_auth (authenticate (ht_auth env) (ht_clock env AtSession) token)) (\<lambda>r.
            case r of
              Inl e \<Rightarrow> if is_not_found e then fail NoSession else fail (Uncheckable e)
            | Inr ident \<Rightarrow> return ident))"

definition auth_middleware :: "web \<Rightarrow> http_env \<Rightarrow> handler \<Rightarrow> handler" where
  "auth_middleware w env next_handler q =
     attempt (identity_from_request w env q) (\<lambda>r. case r of
         Inl NoSession \<Rightarrow> answer (write_error 401 CodeUnauthorized ''authentication required'')
       | Inl (Uncheckable e) \<Rightarrow> answer (write_error 503 CodeUnavailable
           (''could not verify your session because a dependency is unavailable;''
            @ '' your session is probably still fine''))
       | Inr ident \<Rightarrow> next_handler (q\<lparr>hq_identity := Some ident\<rparr>))"

definition require_permission :: "string \<Rightarrow> handler \<Rightarrow> handler" where
  "require_permission perm next_handler q =
     (case hq_identity q of
        None \<Rightarrow> answer (write_error 401 CodeUnauthorized ''authentication required'')
      | Some ident \<Rightarrow>
          if \<not> can ident perm
          then answer (write_error 403 CodeForbidden (''your role does not grant '' @ perm))
          else next_handler q)"

section \<open>How fast commands may come\<close>

definition demo_total_factor :: int where "demo_total_factor = 6"

definition new_command_limiter :: "int \<Rightarrow> int \<Rightarrow> command_limiter option" where
  "new_command_limiter per_client demo =
     (let l = \<lparr>li_per_client = (if per_client > 0 then Some (new_window per_client minute) else None),
               li_per_demo_client = (if demo > 0 then Some (new_window demo minute) else None),
               li_demo_total =
                 (if demo > 0 then Some (new_window (wrap64 (demo * demo_total_factor)) minute) else None)\<rparr>
      in if li_per_client l = None \<and> li_per_demo_client l = None then None else Some l)"

text \<open>A request without an identity is treated as the zero identity, whose name is empty.\<close>

definition caller_name :: "request \<Rightarrow> string" where
  "caller_name q = (case hq_identity q of None \<Rightarrow> [] | Some i \<Rightarrow> us_username (id_user i))"

definition caller_is_demo :: "web \<Rightarrow> request \<Rightarrow> bool" where
  "caller_is_demo w q =
     (case hq_identity q of None \<Rightarrow> False | Some i \<Rightarrow> is_demo i (cf_demo_user (wb_cfg w)))"

definition refuse_command :: "duration \<Rightarrow> string \<Rightarrow> response" where
  "refuse_command wait message =
     (let s = duration_seconds wait; seconds = (if s < 1 then 1 else s)
      in with_headers [''Retry-After'' \<mapsto> fmt_int seconds]
           (write_error 429 CodeRateLimited (message @ ''. Try again in '' @ fmt_int seconds @ '' seconds.'')))"

text \<open>The budget a caller is charged to, how it is put back, and the key.\<close>

definition budget_of :: "bool \<Rightarrow> command_limiter \<Rightarrow> window option" where
  "budget_of demo l =
     (if demo \<and> li_per_demo_client l \<noteq> None then li_per_demo_client l else li_per_client l)"

definition put_budget :: "bool \<Rightarrow> window \<Rightarrow> command_limiter \<Rightarrow> command_limiter" where
  "put_budget demo w l =
     (if demo \<and> li_per_demo_client l \<noteq> None then l\<lparr>li_per_demo_client := Some w\<rparr>
      else l\<lparr>li_per_client := Some w\<rparr>)"

definition budget_key :: "http_env \<Rightarrow> request \<Rightarrow> string" where
  "budget_key env q = caller_name q @ ''|'' @ client_ip env q"

text \<open>What the limiter says to one request: the refusal, if any, and the limiter after it.\<close>

definition charge_client :: "bool \<Rightarrow> string \<Rightarrow> (moment \<Rightarrow> int) \<Rightarrow> command_limiter \<Rightarrow> response option \<times> command_limiter" where
  "charge_client demo key clock l =
     (case budget_of demo l of
        None \<Rightarrow> (None, l)
      | Some b \<Rightarrow>
          (case allow b key (clock AtLimit) of
             (ok, b') \<Rightarrow>
               (if ok then None
                else Some (refuse_command (retry b' key (clock AtRetry))
                  ''you are sending commands faster than this server accepts them''),
                put_budget demo b' l)))"

definition charge_demo :: "bool \<Rightarrow> (moment \<Rightarrow> int) \<Rightarrow> command_limiter \<Rightarrow> response option \<times> command_limiter" where
  "charge_demo demo clock l =
     (case li_demo_total l of
        None \<Rightarrow> (None, l)
      | Some b \<Rightarrow>
          if \<not> demo then (None, l)
          else
            case allow b ''demo'' (clock AtDemoLimit) of
              (ok, b') \<Rightarrow>
                (if ok then None
                 else Some (refuse_command (retry b' ''demo'' (clock AtDemoRetry))
                   ''the demo accepts a limited number of commands a minute across everybody trying it''),
                 l\<lparr>li_demo_total := Some b'\<rparr>))"

definition charge :: "bool \<Rightarrow> string \<Rightarrow> (moment \<Rightarrow> int) \<Rightarrow> command_limiter \<Rightarrow> response option \<times> command_limiter" where
  "charge demo key clock l =
     (case charge_client demo key clock l of
        (Some r, l') \<Rightarrow> (Some r, l')
      | (None, l') \<Rightarrow> charge_demo demo clock l')"

definition command_rate_limit :: "web \<Rightarrow> http_env \<Rightarrow> handler \<Rightarrow> handler" where
  "command_rate_limit w env next_handler q s =
     (case st_limits s of
        None \<Rightarrow> next_handler q s
      | Some l \<Rightarrow>
          (case charge (caller_is_demo w q) (budget_key env q) (ht_clock env) l of
             (Some r, l') \<Rightarrow> (Inr r, s\<lparr>st_limits := Some l'\<rparr>)
           | (None, l') \<Rightarrow> next_handler q (s\<lparr>st_limits := Some l'\<rparr>)))"


section \<open>A read that failed\<close>

text \<open>
  The detail stays in the log. A caller who has gone away gets nothing, and \<open>net/http\<close> completes
  an answer nothing was written to.
\<close>

definition internal_error :: "web \<Rightarrow> http_env \<Rightarrow> string \<Rightarrow> response" where
  "internal_error w env what =
     (case ht_cause env of
        DeadlineExceeded \<Rightarrow> write_error 504 CodeTimeout
          (''reading '' @ what @ '' took longer than '' @ duration_text (cf_query_timeout (wb_cfg w))
           @ ''. Narrow the time window, name a host, or ask for fewer rows.'')
      | Canceled \<Rightarrow> unwritten
      | OtherCause why \<Rightarrow> write_error 500 CodeInternal (''could not read '' @ what))"

section \<open>The invariant of the site\<close>

definition limiter_inv :: "command_limiter \<Rightarrow> bool" where
  "limiter_inv l \<longleftrightarrow>
     pred_option window_inv (li_per_client l) \<and> pred_option window_inv (li_per_demo_client l)
     \<and> pred_option window_inv (li_demo_total l)"

definition site_inv :: "auth_env \<Rightarrow> site \<Rightarrow> bool" where
  "site_inv a s \<longleftrightarrow>
     service_inv a (st_auth s) \<and> pred_option limiter_inv (st_limits s) \<and> audit_inv (st_audit s)
     \<and> pred_option hub_inv (st_hub s)"

lemma new_command_limiter_inv: "pred_option limiter_inv (new_command_limiter per_client demo)"
  by (simp add: new_command_limiter_def Let_def limiter_inv_def new_window_inv minute_def second_def
      max_duration_def)

lemma put_budget_inv:
  "limiter_inv l \<Longrightarrow> window_inv w \<Longrightarrow> limiter_inv (put_budget demo w l)"
  by (simp add: limiter_inv_def put_budget_def)

lemma budget_of_inv: "limiter_inv l \<Longrightarrow> budget_of demo l = Some b \<Longrightarrow> window_inv b"
  by (auto simp: limiter_inv_def budget_of_def split: if_splits)

lemma allow_pair_inv: "allow b key now = (ok, b') \<Longrightarrow> window_inv b \<Longrightarrow> window_inv b'"
  by (metis allow_inv snd_conv)

lemma charge_client_inv: "limiter_inv l \<Longrightarrow> limiter_inv (snd (charge_client demo key clock l))"
  by (auto simp: charge_client_def intro!: put_budget_inv intro: allow_pair_inv dest: budget_of_inv
      split: option.splits prod.splits)

lemma charge_demo_inv: "limiter_inv l \<Longrightarrow> limiter_inv (snd (charge_demo demo clock l))"
  by (auto simp: charge_demo_def limiter_inv_def intro: allow_pair_inv split: option.splits prod.splits)

lemma charge_inv: "limiter_inv l \<Longrightarrow> limiter_inv (snd (charge demo key clock l))"
proof -
  assume "limiter_inv l"
  then have "limiter_inv (snd (charge_client demo key clock l))" by (rule charge_client_inv)
  then show ?thesis
    using charge_demo_inv [of "snd (charge_client demo key clock l)" demo clock]
    by (simp add: charge_def case_prod_beta split: option.splits)
qed

subsection \<open>What keeps a property of the site\<close>

text \<open>
  \<open>unlogged P\<close>: the log does not matter to \<open>P\<close>. Wrapping a handler keeps what the handler keeps.
\<close>

definition unlogged :: "(site \<Rightarrow> bool) \<Rightarrow> bool" where
  "unlogged P \<longleftrightarrow> (\<forall>s l. P (s\<lparr>st_log := l\<rparr>) = P s)"

lemma unlogged_simps [simp]: "unlogged (site_inv a)" "unlogged (\<lambda>s. st_wire s = wr)"
  by (simp_all add: unlogged_def site_inv_def)

lemma keeps_answer [keeps_intros]: "keeps P (answer r)"
  by (simp add: answer_def keeps_return)

lemma keeps_on_auth [keeps_intros]:
  "keeps (service_inv a) m \<Longrightarrow> keeps (site_inv a) (on_auth m)"
  by (auto simp: keeps_def site_inv_def on_auth_def split: prod.splits)

lemma keeps_on_audit [keeps_intros]: "keeps audit_inv m \<Longrightarrow> keeps (site_inv a) (on_audit m)"
  by (auto simp: keeps_def site_inv_def on_audit_def split: prod.splits)

lemma keeps_wire [keeps_intros]:
  "keeps (\<lambda>s. st_wire s = wr) (on_auth m)" "keeps (\<lambda>s. st_wire s = wr) (on_audit m')"
  by (auto simp: keeps_def on_auth_def on_audit_def split: prod.splits)

lemma keeps_then_headers [keeps_intros]: "keeps P h \<Longrightarrow> keeps P (then_headers m h)"
  unfolding then_headers_def
  by (intro keeps_attempt) (auto intro!: keeps_intros split: sum.splits panic.splits)

lemma keeps_add_log: "unlogged P \<Longrightarrow> keeps P (\<lambda>s. (r, add_log l s))"
  by (simp add: keeps_def unlogged_def add_log_def)

lemma keeps_logging:
  "unlogged P \<Longrightarrow> keeps P (h q) \<Longrightarrow> keeps P (logging_middleware env h q)"
  unfolding logging_middleware_def by (intro keeps_bind keeps_add_log)

lemma keeps_recover:
  "unlogged P \<Longrightarrow> keeps P (h q) \<Longrightarrow> keeps P (recover_middleware h q)"
  unfolding recover_middleware_def
  by (intro keeps_attempt) (auto intro!: keeps_intros keeps_add_log split: sum.splits panic.splits)

lemma keeps_request_id:
  "(\<And>q'. keeps P (h q')) \<Longrightarrow> keeps P (request_id_middleware env h q)"
  by (simp add: request_id_middleware_def Let_def keeps_then_headers)

lemma keeps_security: "keeps P (h q) \<Longrightarrow> keeps P (security_headers_middleware w h q)"
  by (simp add: security_headers_middleware_def keeps_then_headers)

lemma keeps_timeout: "(\<And>q'. keeps P (h q')) \<Longrightarrow> keeps P (timeout_middleware t ex h q)"
  by (simp add: timeout_middleware_def)

text \<open>What resolving a session keeps.\<close>

lemma keeps_identity:
  "(\<And>now tok. keeps P (on_auth (authenticate (ht_auth env) now tok))) \<Longrightarrow>
     keeps P (identity_from_request w env q)"
  unfolding identity_from_request_def
  by (auto intro!: keeps_intros split: option.splits sum.splits)

lemma keeps_auth_middleware:
  "(\<And>now tok. keeps P (on_auth (authenticate (ht_auth env) now tok))) \<Longrightarrow> (\<And>q'. keeps P (h q')) \<Longrightarrow>
     keeps P (auth_middleware w env h q)"
  unfolding auth_middleware_def
  by (intro keeps_attempt keeps_identity)
    (auto intro!: keeps_intros split: sum.splits session_error.splits)

lemma keeps_require_permission: "keeps P (h q) \<Longrightarrow> keeps P (require_permission perm h q)"
  by (auto simp: require_permission_def intro!: keeps_intros split: option.splits)

lemma keeps_command_rate_limit:
  assumes "\<And>s l. P s \<Longrightarrow> st_limits s = Some l \<Longrightarrow>
      P (s\<lparr>st_limits := Some (snd (charge (caller_is_demo w q) (budget_key env q) (ht_clock env) l))\<rparr>)"
    and "keeps P (h q)"
  shows "keeps P (command_rate_limit w env h q)"
proof (rule keepsI)
  fix s
  assume p: "P s"
  show "P (snd (command_rate_limit w env h q s))"
  proof (cases "st_limits s")
    case None
    with p assms(2) show ?thesis by (simp add: command_rate_limit_def keeps_def)
  next
    case (Some l)
    with assms(1) [OF p] assms(2) show ?thesis
      by (auto simp: command_rate_limit_def keeps_def split: prod.splits option.splits)
  qed
qed

section \<open>Who gets through\<close>

text \<open>
  A request is turned away as unauthorised only when there is no session; when that cannot be told,
  it is turned away as unavailable; else the handler runs with the identity.
\<close>

lemma auth_middleware_cases:
  assumes "auth_middleware w env h q s = (r, s')"
  obtains (nobody) "\<exists>sv. s' = s\<lparr>st_auth := sv\<rparr>"
      "r = Inr (write_error 401 CodeUnauthorized ''authentication required'')"
    | (unknown) tok e sv where "find_cookie (cf_session_cookie (wb_cfg w)) q = Some tok" "tok \<noteq> []"
      "authenticate (ht_auth env) (ht_clock env AtSession) tok (st_auth s) = (Inl e, sv)"
      "\<not> is_not_found e" "s' = s\<lparr>st_auth := sv\<rparr>"
      "\<exists>text. r = Inr (write_error 503 CodeUnavailable text)"
    | (known) tok ident sv where "find_cookie (cf_session_cookie (wb_cfg w)) q = Some tok" "tok \<noteq> []"
      "authenticate (ht_auth env) (ht_clock env AtSession) tok (st_auth s) = (Inr ident, sv)"
      "h (q\<lparr>hq_identity := Some ident\<rparr>) (s\<lparr>st_auth := sv\<rparr>) = (r, s')"
proof (cases "find_cookie (cf_session_cookie (wb_cfg w)) q")
  case None
  with assms have "s' = s\<lparr>st_auth := st_auth s\<rparr>"
      "r = Inr (write_error 401 CodeUnauthorized ''authentication required'')"
    by (simp_all add: auth_middleware_def identity_from_request_def attempt_def answer_def)
  then show thesis using nobody by blast
next
  case tok: (Some tok)
  show thesis
  proof (cases "tok = []")
    case True
    with tok assms have "s' = s\<lparr>st_auth := st_auth s\<rparr>"
        "r = Inr (write_error 401 CodeUnauthorized ''authentication required'')"
      by (simp_all add: auth_middleware_def identity_from_request_def attempt_def answer_def)
    then show thesis using nobody by blast
  next
    case False
    obtain x sv where a: "authenticate (ht_auth env) (ht_clock env AtSession) tok (st_auth s) = (x, sv)"
      by fastforce
    show thesis
    proof (cases x)
      case (Inl e)
      show thesis
      proof (cases "is_not_found e")
        case True
        with tok False a Inl assms have "s' = s\<lparr>st_auth := sv\<rparr>"
            "r = Inr (write_error 401 CodeUnauthorized ''authentication required'')"
          by (simp_all add: auth_middleware_def identity_from_request_def attempt_def on_auth_def answer_def)
        then show thesis using nobody by blast
      next
        case found: False
        with tok False a Inl assms have "s' = s\<lparr>st_auth := sv\<rparr>"
            "\<exists>text. r = Inr (write_error 503 CodeUnavailable text)"
          by (auto simp: auth_middleware_def identity_from_request_def attempt_def on_auth_def answer_def)
        with unknown tok False a Inl found show thesis by blast
      qed
    next
      case (Inr ident)
      with tok False a assms have "h (q\<lparr>hq_identity := Some ident\<rparr>) (s\<lparr>st_auth := sv\<rparr>) = (r, s')"
        by (simp add: auth_middleware_def identity_from_request_def attempt_def on_auth_def)
      with known [OF tok False] a Inr show thesis by blast
    qed
  qed
qed

section \<open>The crowd trying the demonstration account\<close>

text \<open>
  A run of command requests: whether each is the demonstration account's, its key and its clock.
  The result is which of them are let through.
\<close>

type_synonym command_event = "bool \<times> string \<times> (moment \<Rightarrow> int)"

fun charge_all :: "command_limiter \<Rightarrow> command_event list \<Rightarrow> bool list" where
  "charge_all l [] = []"
| "charge_all l ((demo, key, clock) # evs) =
     (case charge demo key clock l of (refusal, l') \<Rightarrow> (refusal = None) # charge_all l' evs)"

definition demo_passed :: "command_limiter \<Rightarrow> command_event list \<Rightarrow> nat" where
  "demo_passed l evs = length (filter (\<lambda>((demo, _), ok). demo \<and> ok) (zip evs (charge_all l evs)))"

definition demo_time :: "command_event \<Rightarrow> int" where
  "demo_time ev = snd (snd ev) AtDemoLimit"

lemma charge_client_total: "li_demo_total (snd (charge_client demo key clock l)) = li_demo_total l"
  by (simp add: charge_client_def put_budget_def split: option.splits prod.splits)

lemma charge_total:
  assumes "limiter_inv l" and "li_demo_total l = Some b" and "charge demo key clock l = (refusal, l')"
  shows "limiter_inv l'"
    and "\<exists>b'. li_demo_total l' = Some b' \<and>
      (if demo \<and> refusal = None then allow b ''demo'' (clock AtDemoLimit) = (True, b')
       else b' = b \<or> b' = snd (allow b ''demo'' (clock AtDemoLimit)))"
proof -
  show "limiter_inv l'" using charge_inv [OF assms(1), of demo key clock] assms(3) by simp
  obtain x lc where c: "charge_client demo key clock l = (x, lc)" by fastforce
  then have "li_demo_total lc = Some b" using charge_client_total [of demo key clock l] assms(2) by simp
  with assms(3) c show "\<exists>b'. li_demo_total l' = Some b' \<and>
      (if demo \<and> refusal = None then allow b ''demo'' (clock AtDemoLimit) = (True, b')
       else b' = b \<or> b' = snd (allow b ''demo'' (clock AtDemoLimit)))"
    by (cases x) (auto simp: charge_def charge_demo_def split: if_splits prod.splits)
qed

lemma demo_passed_budget:
  assumes "limiter_inv l" and "li_demo_total l = Some b" and "sorted (t0 # map demo_time evs)"
    and "\<forall>ev \<in> set evs. demo_time ev \<le> window_horizon b ''demo'' t0"
  shows "demo_passed l evs \<le> window_budget b ''demo'' t0"
  using assms
proof (induction evs arbitrary: l b t0)
  case Nil
  show ?case by (simp add: demo_passed_def)
next
  case (Cons ev evs)
  obtain demo key clock where ev: "ev = (demo, key, clock)" by (cases ev)
  let ?t = "clock AtDemoLimit"
  have t: "t0 \<le> ?t" "?t \<le> window_horizon b ''demo'' t0" using Cons.prems(3,4) ev by (auto simp: demo_time_def)
  have i: "window_inv b" using Cons.prems(1,2) by (simp add: limiter_inv_def)
  from rl.stable [OF i t] have st: "window_budget b ''demo'' ?t = window_budget b ''demo'' t0"
    "window_horizon b ''demo'' t0 \<le> window_horizon b ''demo'' ?t" by auto
  from rl.admit_hit [OF i, of "''demo''" ?t] have hit:
    "window_budget (snd (allow b ''demo'' ?t)) ''demo'' ?t = window_budget b ''demo'' ?t - 1"
    "window_horizon b ''demo'' ?t \<le> window_horizon (snd (allow b ''demo'' ?t)) ''demo'' ?t" by auto
  obtain refusal l' where c: "charge demo key clock l = (refusal, l')" by fastforce
  from charge_total [OF Cons.prems(1,2) c] obtain b' where i': "limiter_inv l'" and b': "li_demo_total l' = Some b'"
    and k: "if demo \<and> refusal = None then allow b ''demo'' ?t = (True, b')
       else b' = b \<or> b' = snd (allow b ''demo'' ?t)" by blast
  have hor: "window_horizon b ''demo'' t0 \<le> window_horizon b' ''demo'' ?t"
    using k st(2) hit(2) by (auto split: if_splits)
  have "demo_passed l' evs \<le> window_budget b' ''demo'' ?t"
    by (rule Cons.IH [OF i' b']) (use Cons.prems(3,4) ev hor in \<open>force simp: demo_time_def\<close>)+
  moreover have "window_budget b' ''demo'' ?t + (if demo \<and> refusal = None then 1 else 0)
      \<le> window_budget b ''demo'' t0"
    using k hit(1) st(1) rl.admit_iff [OF i, of "''demo''" ?t] by (auto split: if_splits)
  moreover have "demo_passed l (ev # evs) = (if demo \<and> refusal = None then 1 else 0) + demo_passed l' evs"
    using ev c by (simp add: demo_passed_def)
  ultimately show ?case by linarith
qed

fun charge_after :: "command_limiter \<Rightarrow> command_event list \<Rightarrow> command_limiter" where
  "charge_after l [] = l"
| "charge_after l ((demo, key, clock) # evs) = charge_after (snd (charge demo key clock l)) evs"

lemma charge_after_total:
  assumes "limiter_inv l" and "li_demo_total l = Some b"
  shows "limiter_inv (charge_after l evs) \<and> (\<exists>b'. li_demo_total (charge_after l evs) = Some b'
    \<and> w_limit b' = w_limit b \<and> w_window b' = w_window b)"
  using assms
proof (induction evs arbitrary: l b)
  case (Cons ev evs)
  obtain demo key clock where ev: "ev = (demo, key, clock)" by (cases ev)
  obtain refusal l' where c: "charge demo key clock l = (refusal, l')" by fastforce
  from charge_total [OF Cons.prems c] obtain b' where i': "limiter_inv l'" and b': "li_demo_total l' = Some b'"
    and k: "if demo \<and> refusal = None then allow b ''demo'' (clock AtDemoLimit) = (True, b')
       else b' = b \<or> b' = snd (allow b ''demo'' (clock AtDemoLimit))" by blast
  have "w_limit b' = w_limit b \<and> w_window b' = w_window b"
    using k allow_same [of b "''demo''" "clock AtDemoLimit"] by (metis snd_conv)
  with Cons.IH [OF i' b'] ev c show ?case by auto
qed auto

text \<open>
  C18. The demonstration account is shared by strangers, and all of them together get no more than
  six times what one may send: from any moment the shared minute is not running, whatever came
  before, of all the command requests of the next minute, from as many addresses as they like and
  mixed with everybody else's, at most that many of the demonstration account's are let through.
\<close>
theorem demo_crowd_bounded:
  assumes "new_command_limiter per_client demo = Some l" and "0 < demo" and "demo * 6 < 2 ^ 63"
    and "\<forall>b. li_demo_total (charge_after l past) = Some b \<longrightarrow> live b ''demo'' t0 = None"
    and "sorted (t0 # map demo_time evs)" and "\<forall>ev \<in> set evs. demo_time ev \<le> t0 + minute"
  shows "int (demo_passed (charge_after l past) evs) \<le> demo * 6"
proof -
  have "wrap64 (demo * 6) = demo * 6" using assms(2,3) by (simp add: wrap64_id int64_range_def)
  then have b: "li_demo_total l = Some (new_window (demo * 6) minute)"
    using assms(1,2) by (auto simp: new_command_limiter_def demo_total_factor_def Let_def split: if_splits)
  have "limiter_inv l" using new_command_limiter_inv [of per_client demo] assms(1) by simp
  from charge_after_total [OF this b, of past] obtain b' where i: "limiter_inv (charge_after l past)"
    and b': "li_demo_total (charge_after l past) = Some b'" "w_limit b' = demo * 6" "w_window b' = minute"
    using assms(2) by (auto simp: new_window_def)
  have "window_horizon b' ''demo'' t0 = t0 + minute" "window_budget b' ''demo'' t0 = nat (demo * 6)"
    using assms(4) b' by (simp_all add: window_horizon_def window_budget_def)
  with demo_passed_budget [OF i b'(1) assms(5)] assms(2,6) show ?thesis by simp
qed

definition demo_burst :: "command_event list" where
  "demo_burst = map (\<lambda>n. (True, CHR ''g'' # fmt_nat n, \<lambda>_. int n * second)) [1, 2, 3, 4, 5, 6, 7, 8]"

lemma demo_crowd_bounded_witness:
  "\<exists>l. new_command_limiter 0 1 = Some l
     \<and> charge_all l demo_burst = [True, True, True, True, True, True, False, False]
     \<and> demo_passed l demo_burst \<le> 6"
proof -
  define l where "l = the (new_command_limiter 0 1)"
  have l: "new_command_limiter 0 1 = Some l"
    by (simp add: l_def new_command_limiter_def Let_def)
  moreover have "charge_all (the (new_command_limiter 0 1)) demo_burst
      = [True, True, True, True, True, True, False, False]" by code_simp
  moreover have "int (demo_passed (charge_after l []) demo_burst) \<le> 1 * 6"
    using l by (intro demo_crowd_bounded [OF l, of "[]" 0])
      (auto simp: demo_burst_def demo_time_def minute_def second_def new_command_limiter_def Let_def
        live_def new_window_def)
  ultimately show ?thesis unfolding l_def by auto
qed

end
