(* ===== verification/CommandHandlers.thy ===== *)
theory CommandHandlers
  imports Middleware Commands
begin

text \<open>
  The command endpoints (\<^verbatim>\<open>internal/httpapi/handlers_commands.go\<close>): reading a body, resolving its
  targets, building one command per target, submitting all of them at once and recording each of
  them, whatever became of it. An \<open>error\<close> of \<open>naemon.go\<close> reaches the caller as its text.
\<close>

section \<open>What a refused command says\<close>

definition cmd_error_text :: "cmd_error \<Rightarrow> string" where
  "cmd_error_text e = ''commands: '' @
     (case e of
        FieldTooLong name n \<Rightarrow> name @ '' is '' @ fmt_nat n @ '' characters; the limit is '' @ fmt_nat max_field_length
      | FieldSemicolon name \<Rightarrow> name
          @ '' must not contain a semicolon - Naemon splits command fields on it and there is no escape''
      | FieldNotSingleLine name \<Rightarrow> name @ '' must be a single line''
      | FieldControl name \<Rightarrow> name @ '' must not contain control characters''
      | HostRequired \<Rightarrow> ''host is required''
      | HostWithService \<Rightarrow> ''a host target must not carry a service description''
      | ServiceRequired \<Rightarrow> ''service is required for a service target''
      | BadKind \<Rightarrow> ''kind must be host or service''
      | NeedsComment what \<Rightarrow> what @ '' needs a comment''
      | EndsBeforeStart \<Rightarrow> ''the downtime must end after it starts''
      | FlexibleNeedsDuration \<Rightarrow> ''a flexible downtime needs a duration''
      | AllServicesOnService \<Rightarrow> ''all_services applies to a host, not a service''
      | DowntimeIdRequired \<Rightarrow> ''a downtime id is required''
      | BadReturnCode n k \<Rightarrow> ''return_code must be between 0 and '' @ fmt_int n @ '' for a '' @ k
      | NeedsOutput \<Rightarrow> ''a passive result needs output''
      | ResultNotSingleLine name \<Rightarrow> name @ '' must be a single line; use long_output for more''
      | UnknownSwitch s \<Rightarrow> go_quote s @ '' is not a setting this interface can change''
      | NothingToSubmit \<Rightarrow> ''nothing to submit''
      | TooManyCommands n \<Rightarrow> fmt_nat n @ '' commands exceeds the worker'' @ [CHR 0x27] @ ''s limit of ''
          @ fmt_nat max_bulk_commands @ '' in one submission; select fewer objects'')"

section \<open>Targets\<close>

definition max_verify_targets :: nat where "max_verify_targets = 5"

record target_request =
  te_kind :: string
  te_host :: string
  te_service :: string

definition request_target :: "target_request \<Rightarrow> api_error + target" where
  "request_target t =
     (if te_kind t \<noteq> KindHost \<and> te_kind t \<noteq> KindService
      then Inl (bad_request (''kind must be '' @ go_quote ''host'' @ '' or '' @ go_quote ''service'') ''kind'')
      else Inr \<lparr>tg_kind = te_kind t, tg_hostname = te_host t, tg_description = te_service t\<rparr>)"

definition target_key :: "target \<Rightarrow> string" where
  "target_key t = tg_kind t @ [CHR 0x00] @ tg_hostname t @ [CHR 0x00] @ tg_description t"

text \<open>The loop over the list: \<open>i\<close> is the index, \<open>seen\<close> the keys so far, \<open>out\<close> the targets so far.\<close>

fun resolve_from :: "nat \<Rightarrow> string list \<Rightarrow> target list \<Rightarrow> target_request list \<Rightarrow> api_error + target list" where
  "resolve_from i seen out [] = Inr out"
| "resolve_from i seen out (raw_target # rest) =
     (case request_target raw_target of
        Inl e \<Rightarrow> Inl (e\<lparr>er_field := ''targets['' @ fmt_nat i @ ''].'' @ er_field e\<rparr>)
      | Inr t \<Rightarrow>
          if target_key t \<in> set seen then resolve_from (Suc i) seen out rest
          else resolve_from (Suc i) (target_key t # seen) (out @ [t]) rest)"

definition resolve :: "target_request list \<Rightarrow> api_error + target list" where
  "resolve ts =
     (if ts = [] then Inl (bad_request ''targets must name at least one host or service'' ''targets'')
      else if length ts > max_bulk_commands
      then Inl (bad_request (''targets names '' @ fmt_nat (length ts)
             @ '' objects; the worker accepts at most '' @ fmt_nat max_bulk_commands
             @ '' commands in one submission'') ''targets'')
      else resolve_from 0 [] [] ts)"

section \<open>Submitting\<close>

text \<open>One command per target, up to the first that cannot be built.\<close>

fun build_all :: "(target \<Rightarrow> cmd_error + envelope) \<Rightarrow> target list \<Rightarrow> (target \<times> cmd_error) + envelope list" where
  "build_all build [] = Inr []"
| "build_all build (t # ts) =
     (case build t of
        Inl e \<Rightarrow> Inl (t, e)
      | Inr e \<Rightarrow> bind_err (build_all build ts) (\<lambda>es. Inr (e # es)))"

definition audit_ip :: "web \<Rightarrow> http_env \<Rightarrow> request \<Rightarrow> string" where
  "audit_ip w env q = (if \<not> cf_audit_client_ip (wb_cfg w) then [] else client_ip env q)"

definition caller_id :: "request \<Rightarrow> uint32" where
  "caller_id q = (case hq_identity q of None \<Rightarrow> 0 | Some i \<Rightarrow> us_id (id_user i))"

definition command_entry ::
  "web \<Rightarrow> http_env \<Rightarrow> request \<Rightarrow> string \<Rightarrow> json \<Rightarrow> int \<Rightarrow> string \<Rightarrow> target \<Rightarrow> audit_entry" where
  "command_entry w env q action payload status resp t =
     \<lparr>an_user_id = (if caller_id q \<noteq> 0 then Some (caller_id q) else None),
      an_username = caller_name q, an_action = action, an_target = target_string t,
      an_payload = Some payload, an_status = status, an_response = resp,
      an_remote_ip = audit_ip w env q\<rparr>"

text \<open>A batch that cannot be recorded is logged; the caller is not told.\<close>

definition record_commands ::
  "web \<Rightarrow> http_env \<Rightarrow> request \<Rightarrow> string \<Rightarrow> target list \<Rightarrow> json \<Rightarrow> int \<Rightarrow> string \<Rightarrow> site \<Rightarrow> site" where
  "record_commands w env q action targets payload status resp s =
     snd (on_audit (record_batch (unix (ht_clock env AtAudit))
            (map (command_entry w env q action payload status resp) targets)) s)"

definition submitted :: "string \<Rightarrow> target list \<Rightarrow> envelope \<Rightarrow> int \<Rightarrow> command_response" where
  "submitted action targets b accepted =
     \<lparr>cp_status = ''submitted'', cp_action = action, cp_submitted = length targets,
      cp_commands = command_count b, cp_accepted = accepted,
      cp_targets = map target_string targets,
      cp_verify =
        (if length targets \<le> max_verify_targets
         then map (\<lambda>t. \<lparr>tf_kind = tg_kind t, tf_host = tg_hostname t, tf_service = tg_description t\<rparr>) targets
         else []),
      cp_note =
        (if length targets \<le> max_verify_targets
         then ''The commands reached the message broker. Watch the objects to confirm the core applied them.''
         else fmt_nat (command_count b) @ '' commands reached the message broker. Too many to confirm one by''
           @ '' one; the list will show the change as the core applies them.'')\<rparr>"

definition refused_status :: "int \<Rightarrow> int" where
  "refused_status status = (if status = 0 \<or> status < 400 then 502 else status)"

definition refused_code :: "int \<Rightarrow> string" where
  "refused_code status = (if status = 400 \<or> status = 403 then CodeBadRequest else CodeUnavailable)"

text \<open>The status, code, recorded text and shown text of a submission that failed.\<close>

definition failure_answer :: "submit_failure \<Rightarrow> int \<times> string \<times> string \<times> string" where
  "failure_answer e =
     (case e of
        Disabled \<Rightarrow> (503, CodeUnavailable, submit_error_text e, submit_error_text e)
      | SubmitError status message \<Rightarrow>
          (refused_status status, refused_code (refused_status status), message, message)
      | BadRequestUrl why \<Rightarrow> (500, CodeInternal, submit_error_text e, ''could not submit the command''))"

definition build_message :: "target list \<Rightarrow> target \<Rightarrow> cmd_error \<Rightarrow> string" where
  "build_message targets t e =
     (if length targets > 1 then target_string t @ '': '' @ cmd_error_text e else cmd_error_text e)"

definition submit ::
  "web \<Rightarrow> http_env \<Rightarrow> string \<Rightarrow> target list \<Rightarrow> json \<Rightarrow> (target \<Rightarrow> cmd_error + envelope) \<Rightarrow> handler" where
  "submit w env action targets payload build q s =
     (let note = record_commands w env q action targets payload in
      case build_all build targets of
        Inl (t, e) \<Rightarrow>
          (Inr (write_error 400 CodeBadRequest (build_message targets t e)),
           note 400 (build_message targets t e) s)
      | Inr envelopes \<Rightarrow>
          (case bulk envelopes of
             Inl e \<Rightarrow>
               (Inr (write_error 400 CodeBadRequest (cmd_error_text e)), note 400 (cmd_error_text e) s)
           | Inr b \<Rightarrow>
               (case submit_envelope (ht_client env) (wb_client w) b (st_wire s) of
                  ((result, failure), wire) \<Rightarrow>
                    (let s' = s\<lparr>st_wire := wire\<rparr> in
                     case failure of
                       None \<Rightarrow>
                         (Inr (write_json 202 (CommandBody (submitted action targets b (sr_accepted result)))),
                          note 202 ''accepted'' s')
                     | Some e \<Rightarrow>
                         (case failure_answer e of
                            (status, code, recorded, shown) \<Rightarrow>
                              (Inr (write_error status code shown), note status recorded s'))))))"

section \<open>Opening a command request\<close>

text \<open>The name that goes into a command is the session's.\<close>

definition author :: "request \<Rightarrow> string" where
  "author q =
     (case hq_identity q of
        None \<Rightarrow> []
      | Some i \<Rightarrow> if us_display_name (id_user i) \<noteq> [] then us_display_name (id_user i)
                  else us_username (id_user i))"

text \<open>Every body embeds the list of targets.\<close>

record targets_request =
  ts_targets :: "target_request list"

definition over_demo_ceiling :: "web \<Rightarrow> request \<Rightarrow> nat \<Rightarrow> bool" where
  "over_demo_ceiling w q n \<longleftrightarrow>
     caller_is_demo w q \<and> cf_demo_max_targets (wb_cfg w) > 0 \<and> int n > cf_demo_max_targets (wb_cfg w)"

definition decode_targets ::
  "web \<Rightarrow> request \<Rightarrow> (json \<Rightarrow> json_error + 'b targets_request_scheme)
     \<Rightarrow> response + 'b targets_request_scheme \<times> target list" where
  "decode_targets w q dec =
     (case decode_json q dec of
        Inl why \<Rightarrow> Inl (write_error 400 CodeBadRequest why)
      | Inr b \<Rightarrow>
          (case resolve (ts_targets b) of
             Inl e \<Rightarrow> Inl (fail_response e)
           | Inr targets \<Rightarrow>
               if over_demo_ceiling w q (length targets)
               then Inl (fail_response (bad_request
                      (''the demo account may address at most '' @ fmt_int (cf_demo_max_targets (wb_cfg w))
                       @ '' objects in one command; this names '' @ fmt_nat (length targets)) ''targets''))
               else Inr (b, targets)))"

definition with_targets ::
  "web \<Rightarrow> request \<Rightarrow> (json \<Rightarrow> json_error + 'b targets_request_scheme)
     \<Rightarrow> ('b targets_request_scheme \<Rightarrow> target list \<Rightarrow> (site, panic, response) step) \<Rightarrow> (site, panic, response) step" where
  "with_targets w q dec k =
     (case decode_targets w q dec of Inl r \<Rightarrow> answer r | Inr (b, targets) \<Rightarrow> k b targets)"

definition no_target_request :: target_request where
  "no_target_request = \<lparr>te_kind = [], te_host = [], te_service = []\<rparr>"

definition target_request_fields :: "target_request fields" where
  "target_request_fields =
     [(''kind'', string_field (\<lambda>v t. t\<lparr>te_kind := v\<rparr>)),
      (''host'', string_field (\<lambda>v t. t\<lparr>te_host := v\<rparr>)),
      (''service'', string_field (\<lambda>v t. t\<lparr>te_service := v\<rparr>))]"

definition targets_field :: "string \<times> 'b targets_request_scheme setter" where
  "targets_field =
     (''targets'', list_field (\<lambda>j. decode_struct ''targets'' target_request_fields j no_target_request)
        (\<lambda>ts b. b\<lparr>ts_targets := ts\<rparr>))"

definition target_request_json :: "target_request \<Rightarrow> json" where
  "target_request_json t =
     JObj ([(''kind'', JStr (te_kind t)), (''host'', JStr (te_host t))]
           @ omit_if (te_service t = []) (''service'', JStr (te_service t)))"

definition targets_json :: "'b targets_request_scheme \<Rightarrow> string \<times> json" where
  "targets_json b = (''targets'', JArr (map target_request_json (ts_targets b)))"


section \<open>The bodies\<close>

record acknowledge_body = targets_request +
  ba_comment :: string
  ba_sticky :: bool
  ba_notify :: bool
  ba_persistent :: bool

definition acknowledge_body_fields :: "acknowledge_body fields" where
  "acknowledge_body_fields =
     [targets_field,
      (''comment'', string_field (\<lambda>v b. b\<lparr>ba_comment := v\<rparr>)),
      (''sticky'', bool_member (\<lambda>v b. b\<lparr>ba_sticky := v\<rparr>)),
      (''notify'', bool_member (\<lambda>v b. b\<lparr>ba_notify := v\<rparr>)),
      (''persistent'', bool_member (\<lambda>v b. b\<lparr>ba_persistent := v\<rparr>))]"

definition decode_acknowledge :: "json \<Rightarrow> json_error + acknowledge_body" where
  "decode_acknowledge j =
     decode_struct ''acknowledgeBody'' acknowledge_body_fields j
       \<lparr>ts_targets = [], ba_comment = [], ba_sticky = False, ba_notify = False, ba_persistent = False\<rparr>"

definition acknowledge_payload :: "acknowledge_body \<Rightarrow> json" where
  "acknowledge_payload b =
     JObj ([targets_json b]
       @ [(''comment'', JStr (ba_comment b))]
       @ [(''sticky'', JBool (ba_sticky b))]
       @ [(''notify'', JBool (ba_notify b))]
       @ [(''persistent'', JBool (ba_persistent b))])"

type_synonym plain_body = targets_request

definition plain_body_fields :: "plain_body fields" where
  "plain_body_fields = [targets_field]"

definition decode_plain :: "json \<Rightarrow> json_error + plain_body" where
  "decode_plain j =
     decode_struct ''plainBody'' plain_body_fields j
       \<lparr>ts_targets = []\<rparr>"

definition plain_payload :: "plain_body \<Rightarrow> json" where
  "plain_payload b =
     JObj ([targets_json b])"

record downtime_body = targets_request +
  bd_start :: int64
  bd_end :: int64
  bd_comment :: string
  bd_fixed :: bool
  bd_duration :: int64
  bd_all_services :: bool

definition downtime_body_fields :: "downtime_body fields" where
  "downtime_body_fields =
     [targets_field,
      (''start'', int_field (\<lambda>v b. b\<lparr>bd_start := v\<rparr>)),
      (''end'', int_field (\<lambda>v b. b\<lparr>bd_end := v\<rparr>)),
      (''comment'', string_field (\<lambda>v b. b\<lparr>bd_comment := v\<rparr>)),
      (''fixed'', bool_member (\<lambda>v b. b\<lparr>bd_fixed := v\<rparr>)),
      (''duration'', int_field (\<lambda>v b. b\<lparr>bd_duration := v\<rparr>)),
      (''all_services'', bool_member (\<lambda>v b. b\<lparr>bd_all_services := v\<rparr>))]"

definition decode_downtime :: "json \<Rightarrow> json_error + downtime_body" where
  "decode_downtime j =
     decode_struct ''downtimeBody'' downtime_body_fields j
       \<lparr>ts_targets = [], bd_start = 0, bd_end = 0, bd_comment = [], bd_fixed = False, bd_duration = 0, bd_all_services = False\<rparr>"

definition downtime_payload :: "downtime_body \<Rightarrow> json" where
  "downtime_payload b =
     JObj ([targets_json b]
       @ [(''start'', json_int (bd_start b))]
       @ [(''end'', json_int (bd_end b))]
       @ [(''comment'', JStr (bd_comment b))]
       @ [(''fixed'', JBool (bd_fixed b))]
       @ omit_if (bd_duration b = 0) (''duration'', json_int (bd_duration b))
       @ omit_if (\<not> bd_all_services b) (''all_services'', JBool (bd_all_services b)))"

record delete_downtime_body = targets_request +
  bx_internal_id :: uint32

definition delete_downtime_body_fields :: "delete_downtime_body fields" where
  "delete_downtime_body_fields =
     [targets_field,
      (''internal_id'', uint32_field (\<lambda>v b. b\<lparr>bx_internal_id := v\<rparr>))]"

definition decode_delete_downtime :: "json \<Rightarrow> json_error + delete_downtime_body" where
  "decode_delete_downtime j =
     decode_struct ''deleteDowntimeBody'' delete_downtime_body_fields j
       \<lparr>ts_targets = [], bx_internal_id = 0\<rparr>"

definition delete_downtime_payload :: "delete_downtime_body \<Rightarrow> json" where
  "delete_downtime_payload b =
     JObj ([targets_json b]
       @ [(''internal_id'', json_int (uint (bx_internal_id b)))])"

record reschedule_body = targets_request +
  br_at :: int64
  br_forced :: bool

definition reschedule_body_fields :: "reschedule_body fields" where
  "reschedule_body_fields =
     [targets_field,
      (''at'', int_field (\<lambda>v b. b\<lparr>br_at := v\<rparr>)),
      (''forced'', bool_member (\<lambda>v b. b\<lparr>br_forced := v\<rparr>))]"

definition decode_reschedule :: "json \<Rightarrow> json_error + reschedule_body" where
  "decode_reschedule j =
     decode_struct ''rescheduleBody'' reschedule_body_fields j
       \<lparr>ts_targets = [], br_at = 0, br_forced = False\<rparr>"

definition reschedule_payload :: "reschedule_body \<Rightarrow> json" where
  "reschedule_payload b =
     JObj ([targets_json b]
       @ omit_if (br_at b = 0) (''at'', json_int (br_at b))
       @ omit_if (\<not> br_forced b) (''forced'', JBool (br_forced b)))"

record submit_result_body = targets_request +
  bs_return_code :: int64
  bs_output :: string
  bs_long_output :: string
  bs_perf_data :: string

definition submit_result_body_fields :: "submit_result_body fields" where
  "submit_result_body_fields =
     [targets_field,
      (''return_code'', int_field (\<lambda>v b. b\<lparr>bs_return_code := v\<rparr>)),
      (''output'', string_field (\<lambda>v b. b\<lparr>bs_output := v\<rparr>)),
      (''long_output'', string_field (\<lambda>v b. b\<lparr>bs_long_output := v\<rparr>)),
      (''perf_data'', string_field (\<lambda>v b. b\<lparr>bs_perf_data := v\<rparr>))]"

definition decode_submit_result :: "json \<Rightarrow> json_error + submit_result_body" where
  "decode_submit_result j =
     decode_struct ''submitResultBody'' submit_result_body_fields j
       \<lparr>ts_targets = [], bs_return_code = 0, bs_output = [], bs_long_output = [], bs_perf_data = []\<rparr>"

definition submit_result_payload :: "submit_result_body \<Rightarrow> json" where
  "submit_result_payload b =
     JObj ([targets_json b]
       @ [(''return_code'', json_int (bs_return_code b))]
       @ [(''output'', JStr (bs_output b))]
       @ omit_if (bs_long_output b = []) (''long_output'', JStr (bs_long_output b))
       @ omit_if (bs_perf_data b = []) (''perf_data'', JStr (bs_perf_data b)))"

record notify_body = targets_request +
  bn_comment :: string
  bn_forced :: bool
  bn_broadcast :: bool

definition notify_body_fields :: "notify_body fields" where
  "notify_body_fields =
     [targets_field,
      (''comment'', string_field (\<lambda>v b. b\<lparr>bn_comment := v\<rparr>)),
      (''forced'', bool_member (\<lambda>v b. b\<lparr>bn_forced := v\<rparr>)),
      (''broadcast'', bool_member (\<lambda>v b. b\<lparr>bn_broadcast := v\<rparr>))]"

definition decode_notify :: "json \<Rightarrow> json_error + notify_body" where
  "decode_notify j =
     decode_struct ''notifyBody'' notify_body_fields j
       \<lparr>ts_targets = [], bn_comment = [], bn_forced = False, bn_broadcast = False\<rparr>"

definition notify_payload :: "notify_body \<Rightarrow> json" where
  "notify_payload b =
     JObj ([targets_json b]
       @ [(''comment'', JStr (bn_comment b))]
       @ omit_if (\<not> bn_forced b) (''forced'', JBool (bn_forced b))
       @ omit_if (\<not> bn_broadcast b) (''broadcast'', JBool (bn_broadcast b)))"

record toggle_body = targets_request +
  bt_switch :: string
  bt_enable :: bool

definition toggle_body_fields :: "toggle_body fields" where
  "toggle_body_fields =
     [targets_field,
      (''switch'', string_field (\<lambda>v b. b\<lparr>bt_switch := v\<rparr>)),
      (''enable'', bool_member (\<lambda>v b. b\<lparr>bt_enable := v\<rparr>))]"

definition decode_toggle :: "json \<Rightarrow> json_error + toggle_body" where
  "decode_toggle j =
     decode_struct ''toggleBody'' toggle_body_fields j
       \<lparr>ts_targets = [], bt_switch = [], bt_enable = False\<rparr>"

definition toggle_payload :: "toggle_body \<Rightarrow> json" where
  "toggle_payload b =
     JObj ([targets_json b]
       @ [(''switch'', JStr (bt_switch b))]
       @ [(''enable'', JBool (bt_enable b))])"

section \<open>The handlers\<close>

definition handle_acknowledge :: "web \<Rightarrow> http_env \<Rightarrow> handler" where
  "handle_acknowledge w env q =
     with_targets w q decode_acknowledge (\<lambda>b targets.
       submit w env ''acknowledge'' targets (acknowledge_payload b)
         (\<lambda>t. acknowledge
            \<lparr>aq_target = t, aq_comment = ba_comment b, aq_sticky = ba_sticky b, aq_notify = ba_notify b,
             aq_persistent = ba_persistent b\<rparr> (author q)) q)"

definition handle_remove_acknowledgement :: "web \<Rightarrow> http_env \<Rightarrow> handler" where
  "handle_remove_acknowledgement w env q =
     with_targets w q decode_plain (\<lambda>b targets.
       submit w env ''remove_acknowledgement'' targets (plain_payload b) remove_acknowledgement q)"

definition handle_schedule_downtime :: "web \<Rightarrow> http_env \<Rightarrow> handler" where
  "handle_schedule_downtime w env q =
     with_targets w q decode_downtime (\<lambda>b targets.
       submit w env ''schedule_downtime'' targets (downtime_payload b)
         (\<lambda>t. schedule_downtime
            \<lparr>dq_target = t, dq_start = bd_start b, dq_end = bd_end b, dq_comment = bd_comment b,
             dq_fixed = bd_fixed b, dq_duration = bd_duration b,
             dq_all_services = (bd_all_services b \<and> tg_kind t = KindHost)\<rparr> (author q)) q)"

definition handle_delete_downtime :: "web \<Rightarrow> http_env \<Rightarrow> handler" where
  "handle_delete_downtime w env q =
     with_targets w q decode_delete_downtime (\<lambda>b targets.
       if length targets \<noteq> 1 then
         answer (fail_response (bad_request
           (''deleting a downtime names one window by its id, so it takes exactly one target; ''
            @ ''cancel them one at a time'') ''targets''))
       else
         submit w env ''delete_downtime'' targets (delete_downtime_payload b)
           (\<lambda>t. delete_downtime (tg_kind t) (bx_internal_id b)) q)"

definition handle_reschedule :: "web \<Rightarrow> http_env \<Rightarrow> handler" where
  "handle_reschedule w env q =
     with_targets w q decode_reschedule (\<lambda>b targets.
       submit w env ''reschedule'' targets (reschedule_payload b)
         (\<lambda>t. reschedule \<lparr>rq_target = t, rq_at = br_at b, rq_forced = br_forced b\<rparr>
                (unix (ht_clock env AtHandler))) q)"

definition handle_submit_result :: "web \<Rightarrow> http_env \<Rightarrow> handler" where
  "handle_submit_result w env q =
     with_targets w q decode_submit_result (\<lambda>b targets.
       submit w env ''submit_result'' targets (submit_result_payload b)
         (\<lambda>t. submit_result (ht_perf_first env t)
            \<lparr>sq_target = t, sq_return_code = bs_return_code b, sq_output = bs_output b,
             sq_long_output = bs_long_output b, sq_perf_data = bs_perf_data b\<rparr>
            (unix (ht_clock env AtHandler))) q)"

definition handle_notify :: "web \<Rightarrow> http_env \<Rightarrow> handler" where
  "handle_notify w env q =
     with_targets w q decode_notify (\<lambda>b targets.
       submit w env ''custom_notification'' targets (notify_payload b)
         (\<lambda>t. notify
            \<lparr>nq_target = t, nq_comment = bn_comment b, nq_forced = bn_forced b,
             nq_broadcast = bn_broadcast b\<rparr> (author q)) q)"

definition handle_toggle :: "web \<Rightarrow> http_env \<Rightarrow> handler" where
  "handle_toggle w env q =
     with_targets w q decode_toggle (\<lambda>b targets.
       if \<not> list_ex (\<lambda>candidate. candidate = bt_switch b) switches then
         answer (fail_response (bad_request (''switch must be one of '' @ join '', '' switches) ''switch''))
       else
         submit w env ''toggle'' targets (toggle_payload b)
           (\<lambda>t. toggle \<lparr>tq_target = t, tq_switch = bt_switch b, tq_enable = bt_enable b\<rparr>) q)"

section \<open>Reading the audit\<close>

definition audit_sort_columns :: "string list" where "audit_sort_columns = [''created_at'']"

definition audit_request_filter :: "http_env \<Rightarrow> request \<Rightarrow> api_error + audit_filter" where
  "audit_request_filter env q =
     (let f = \<lparr>uf_username = query_get q ''username'', uf_action = query_get q ''action'',
               uf_search = query_get q ''q'', uf_from = 0, uf_to = 0,
               uf_failed_only = (query_get q ''failed'' = ''true'')\<rparr>
      in if query_get q ''from'' \<noteq> [] \<or> query_get q ''to'' \<noteq> [] then
           bind_err (parse_time_range (unix (ht_clock env AtHandler)) q (30 * 24 * hour) 0) (\<lambda>tr.
             Inr (f\<lparr>uf_from := tr_from tr, uf_to := tr_to tr\<rparr>))
         else Inr f)"

definition handle_list_audit :: "web \<Rightarrow> http_env \<Rightarrow> handler" where
  "handle_list_audit w env q =
     (case parse_page q (cf_default_page_size (wb_cfg w)) (cf_max_page_size (wb_cfg w))
             ''created_at'' audit_sort_columns of
        Inl e \<Rightarrow> answer (fail_response e)
      | Inr p0 \<Rightarrow>
          (let p = (if query_get q ''sort'' = [] then p0\<lparr>hp_desc := True\<rparr> else p0) in
           case audit_request_filter env q of
             Inl e \<Rightarrow> answer (fail_response e)
           | Inr f \<Rightarrow>
               attempt (on_audit (audit_list (ht_collation env) (ce_read (ht_client env)) f
                   \<lparr>ap_limit = hp_limit p, ap_offset = hp_offset p, ap_desc = hp_desc p\<rparr>)) (\<lambda>r.
                 case r of
                   Inl e \<Rightarrow> answer (internal_error w env ''the command audit'')
                 | Inr (records, n) \<Rightarrow>
                     answer (write_list (AuditRows records)
                       \<lparr>lm_total = n, lm_limit = hp_limit p, lm_offset = hp_offset p,
                        lm_sort = sort_spec p\<rparr>))))"

section \<open>Targets, resolved\<close>

definition as_target :: "target_request \<Rightarrow> target" where
  "as_target t = \<lparr>tg_kind = te_kind t, tg_hostname = te_host t, tg_description = te_service t\<rparr>"

lemma as_target_kind [simp]: "tg_kind (as_target t) = te_kind t"
  by (simp add: as_target_def)

lemma request_target_Inr:
  "request_target t = Inr x \<longleftrightarrow> x = as_target t \<and> (te_kind t = KindHost \<or> te_kind t = KindService)"
  by (auto simp: request_target_def as_target_def)

lemma resolve_from_Inr:
  "resolve_from i seen out ts = Inr res \<Longrightarrow> set seen = target_key ` set out \<Longrightarrow> distinct (map target_key out) \<Longrightarrow>
     \<exists>new. res = out @ new \<and> subseq new (map as_target ts)
       \<and> target_key ` set res = target_key ` set out \<union> (target_key \<circ> as_target) ` set ts
       \<and> distinct (map target_key res)
       \<and> (\<forall>t \<in> set new. tg_kind t = KindHost \<or> tg_kind t = KindService)"
proof (induction ts arbitrary: i seen out)
  case Nil
  then show ?case by auto
next
  case (Cons t ts)
  from Cons.prems(1) have k: "te_kind t = KindHost \<or> te_kind t = KindService"
    by (auto simp: request_target_def split: if_splits)
  then have x: "request_target t = Inr (as_target t)" by (simp add: request_target_Inr)
  show ?case
  proof (cases "target_key (as_target t) \<in> set seen")
    case True
    with Cons.prems x have "resolve_from (Suc i) seen out ts = Inr res" by simp
    from Cons.IH [OF this Cons.prems(2,3)] obtain new where n: "res = out @ new" "subseq new (map as_target ts)"
      "target_key ` set res = target_key ` set out \<union> (target_key \<circ> as_target) ` set ts"
      "distinct (map target_key res)" "\<forall>t \<in> set new. tg_kind t = KindHost \<or> tg_kind t = KindService"
      by blast
    moreover have "target_key (as_target t) \<in> target_key ` set out" using True Cons.prems(2) by simp
    ultimately show ?thesis by (intro exI [of _ new]) auto
  next
    case False
    with Cons.prems x have r: "resolve_from (Suc i) (target_key (as_target t) # seen) (out @ [as_target t]) ts = Inr res"
      by simp
    have "set (target_key (as_target t) # seen) = target_key ` set (out @ [as_target t])"
      "distinct (map target_key (out @ [as_target t]))"
      using Cons.prems(2,3) False by auto
    from Cons.IH [OF r this] obtain new where "res = (out @ [as_target t]) @ new" "subseq new (map as_target ts)"
      "target_key ` set res = target_key ` set (out @ [as_target t]) \<union> (target_key \<circ> as_target) ` set ts"
      "distinct (map target_key res)" "\<forall>t \<in> set new. tg_kind t = KindHost \<or> tg_kind t = KindService"
      by blast
    then show ?thesis using k by (intro exI [of _ "as_target t # new"]) auto
  qed
qed

text \<open>
  A list that resolves keeps its order and names every object once, whatever order and repetition
  it was sent in; it is neither empty nor longer than the worker takes.
\<close>

lemma resolve_Inr:
  assumes "resolve ts = Inr out"
  shows "subseq out (map as_target ts) \<and> distinct (map target_key out)
    \<and> target_key ` set out = (target_key \<circ> as_target) ` set ts
    \<and> (\<forall>t \<in> set out. tg_kind t = KindHost \<or> tg_kind t = KindService)
    \<and> out \<noteq> [] \<and> length out \<le> max_bulk_commands"
proof -
  from assms have ne: "ts \<noteq> []" and l: "length ts \<le> max_bulk_commands"
    and r: "resolve_from 0 [] [] ts = Inr out"
    by (auto simp: resolve_def split: if_splits)
  from resolve_from_Inr [OF r] have s: "subseq out (map as_target ts)" "distinct (map target_key out)"
    "target_key ` set out = (target_key \<circ> as_target) ` set ts"
    "\<forall>t \<in> set out. tg_kind t = KindHost \<or> tg_kind t = KindService" by auto
  from s(3) ne have "out \<noteq> []" by auto
  moreover from list_emb_length [OF s(1)] l have "length out \<le> max_bulk_commands" by simp
  ultimately show ?thesis using s by blast
qed

section \<open>What a submission does\<close>

lemma build_all_Inr: "build_all build ts = Inr es \<longleftrightarrow> list_all2 (\<lambda>t e. build t = Inr e) ts es"
  by (induction ts arbitrary: es) (auto simp: list_all2_Cons1 guard_simps split: sum.splits)

text \<open>One request goes to the worker, with every command that was built.\<close>

definition delivered ::
  "web \<Rightarrow> (target \<Rightarrow> cmd_error + envelope) \<Rightarrow> target list \<Rightarrow> wire \<Rightarrow> wire \<Rightarrow> bool" where
  "delivered w build targets wr wr' \<longleftrightarrow>
     (\<exists>es b. list_all2 (\<lambda>t e. build t = Inr e) targets es \<and> bulk es = Inr b
        \<and> client_enabled (wb_client w) \<and> wi_sent wr' = wi_sent wr @ [request_for (wb_client w) b])"

lemma submit_outcome:
  assumes "submit w env action targets payload build q s = (r, s')"
  shows "\<exists>resp message wr. r = Inr resp
    \<and> s' = record_commands w env q action targets payload (rs_status resp) message (s\<lparr>st_wire := wr\<rparr>)
    \<and> (rs_status resp = 202 \<or> 400 \<le> rs_status resp)
    \<and> (wr = st_wire s \<and> rs_status resp \<noteq> 202
       \<or> delivered w build targets (st_wire s) wr)"
proof (cases "build_all build targets")
  case (Inl p)
  obtain t e where p: "p = (t, e)" by (cases p)
  with Inl assms show ?thesis
    by (intro exI [of _ "write_error 400 CodeBadRequest (build_message targets t e)"]
        exI [of _ "build_message targets t e"] exI [of _ "st_wire s"])
      (simp add: submit_def write_error_def write_json_def)
next
  case es: (Inr es)
  then have built: "list_all2 (\<lambda>t e. build t = Inr e) targets es" by (simp add: build_all_Inr)
  show ?thesis
  proof (cases "bulk es")
    case (Inl e)
    with es assms show ?thesis
      by (intro exI [of _ "write_error 400 CodeBadRequest (cmd_error_text e)"]
          exI [of _ "cmd_error_text e"] exI [of _ "st_wire s"])
        (simp add: submit_def write_error_def write_json_def)
  next
    case b: (Inr b)
    obtain result failure wr where sub:
      "submit_envelope (ht_client env) (wb_client w) b (st_wire s) = ((result, failure), wr)"
      by (metis prod.exhaust)
    show ?thesis
    proof (cases failure)
      case None
      with sub have "client_enabled (wb_client w)"
          "wi_sent wr = wi_sent (st_wire s) @ [request_for (wb_client w) b]"
        using worker.accepted [OF sub [unfolded None]] by blast+
      with built b have "delivered w build targets (st_wire s) wr" unfolding delivered_def by blast
      with es b sub None assms show ?thesis
        by (intro exI [of _ "write_json 202 (CommandBody (submitted action targets b (sr_accepted result)))"]
            exI [of _ "''accepted''"] exI [of _ wr])
          (simp add: submit_def write_json_def)
    next
      case (Some e)
      obtain status code recorded shown where f: "failure_answer e = (status, code, recorded, shown)"
        by (metis prod.exhaust)
      from f have st: "400 \<le> status"
        by (auto simp: failure_answer_def refused_status_def split: submit_failure.splits if_splits)
      from worker.at_most_once [OF sub] built b
      have "wr = st_wire s \<or> delivered w build targets (st_wire s) wr"
        unfolding delivered_def by blast
      with es b sub Some f st assms show ?thesis
        by (intro exI [of _ "write_error status code shown"] exI [of _ recorded] exI [of _ wr])
          (simp add: submit_def write_error_def write_json_def)
    qed
  qed
qed

text \<open>The rows a batch adds, unless the table refuses the statement, which leaves it as it was.\<close>

definition command_rows ::
  "web \<Rightarrow> http_env \<Rightarrow> request \<Rightarrow> string \<Rightarrow> target list \<Rightarrow> json \<Rightarrow> int \<Rightarrow> string \<Rightarrow> nat \<Rightarrow> audit_row list" where
  "command_rows w env q action targets payload status message i =
     map2 (audit_values (unix (ht_clock env AtAudit)))
       (map (command_entry w env q action payload status message) targets) [i..<i + length targets]"

definition refuses :: "audit_db \<Rightarrow> audit_row list \<Rightarrow> bool" where
  "refuses d rs \<longleftrightarrow> ad_faults d \<noteq> [] \<and> hd (ad_faults d) \<or> \<not> list_all storable rs"

lemma record_commands_rows:
  assumes "targets \<noteq> []"
  shows "\<exists>d. record_commands w env q action targets payload status message s = s\<lparr>st_audit := d\<rparr>
    \<and> (let rs = command_rows w env q action targets payload status message (ad_next (st_audit s))
       in ad_rows d = ad_rows (st_audit s) @ (if refuses (st_audit s) rs then [] else rs))"
  using assms
  by (auto simp: record_commands_def on_audit_def record_batch_def audit_statement_def insert_audit_def
      command_rows_def refuses_def Let_def split: prod.splits)

section \<open>What a command request does\<close>

lemma decode_targets_Inr:
  assumes "decode_targets w q dec = Inr (b, targets)"
  shows "resolve (ts_targets b) = Inr targets \<and> \<not> over_demo_ceiling w q (length targets)"
  using assms by (auto simp: decode_targets_def split: sum.splits if_splits)

lemma with_targets_cases:
  assumes "with_targets w q dec k s = (r, s')"
  obtains "s' = s" "\<exists>resp. r = Inr resp"
  | b targets where "decode_targets w q dec = Inr (b, targets)" "k b targets s = (r, s')"
  using assms by (auto simp: with_targets_def answer_def split: sum.splits prod.splits)

text \<open>
  A command request does nothing, or is one submission: of targets that are distinct, at least one,
  no more than the worker takes and no more than the demonstration account may name, with one
  command per target, built for the caller.
\<close>

definition command_outcome ::
  "web \<Rightarrow> http_env \<Rightarrow> request \<Rightarrow> site \<Rightarrow> panic + response \<Rightarrow> site \<Rightarrow> bool" where
  "command_outcome w env q s r s' \<longleftrightarrow>
     s' = s \<and> (\<exists>resp. r = Inr resp)
     \<or> (\<exists>action targets payload mk now.
          submit w env action targets payload (\<lambda>t. build_command (mk t) (author q) now) q s = (r, s')
          \<and> targets \<noteq> [] \<and> length targets \<le> max_bulk_commands \<and> distinct (map target_key targets)
          \<and> \<not> over_demo_ceiling w q (length targets))"

lemma with_targets_outcome:
  assumes "with_targets w q dec k s = (r, s')"
    and "\<And>b targets. k b targets s = (r, s') \<Longrightarrow> s' = s \<and> (\<exists>resp. r = Inr resp)
      \<or> (\<exists>action payload mk now.
           submit w env action targets payload (\<lambda>t. build_command (mk t) (author q) now) q s = (r, s'))"
  shows "command_outcome w env q s r s'"
  using assms(1)
proof (cases rule: with_targets_cases)
  case (2 b targets)
  from decode_targets_Inr [OF 2(1)] have "resolve (ts_targets b) = Inr targets"
    "\<not> over_demo_ceiling w q (length targets)" by auto
  with resolve_Inr [OF this(1)] have t: "targets \<noteq> []" "length targets \<le> max_bulk_commands"
    "distinct (map target_key targets)" "\<not> over_demo_ceiling w q (length targets)" by auto
  from assms(2) [OF 2(2)] show ?thesis
  proof
    assume "\<exists>action payload mk now.
      submit w env action targets payload (\<lambda>t. build_command (mk t) (author q) now) q s = (r, s')"
    then obtain action payload mk now where
      "submit w env action targets payload (\<lambda>t. build_command (mk t) (author q) now) q s = (r, s')" by blast
    with t show ?thesis
      unfolding command_outcome_def by (intro disjI2 exI [of _ action] exI [of _ targets] exI [of _ payload]
          exI [of _ mk] exI [of _ now] conjI)
  qed (simp add: command_outcome_def)
qed (auto simp: command_outcome_def)

lemma answer_or:
  assumes "(if c then answer resp else m) s = (r, s')"
    and "m s = (r, s') \<Longrightarrow> s' = s \<and> (\<exists>resp. r = Inr resp) \<or> Q"
  shows "s' = s \<and> (\<exists>resp. r = Inr resp) \<or> Q"
  using assms by (auto simp: answer_def split: if_splits)

lemma built_outcome:
  assumes "submit w env action targets payload build q s = (r, s')"
    and "\<And>t. build t = build_command (mk t) (author q) now"
  shows "s' = s \<and> (\<exists>resp. r = Inr resp)
    \<or> (\<exists>action payload mk now.
         submit w env action targets payload (\<lambda>t. build_command (mk t) (author q) now) q s = (r, s'))"
proof -
  from assms(2) have "build = (\<lambda>t. build_command (mk t) (author q) now)" by blast
  with assms(1) show ?thesis by blast
qed

lemma acknowledge_outcome: "handle_acknowledge w env q s = (r, s') \<Longrightarrow> command_outcome w env q s r s'"
  unfolding handle_acknowledge_def
  by (erule with_targets_outcome, erule built_outcome, rule build_command.simps(1) [symmetric])

lemma remove_ack_outcome:
  "handle_remove_acknowledgement w env q s = (r, s') \<Longrightarrow> command_outcome w env q s r s'"
  unfolding handle_remove_acknowledgement_def
  by (erule with_targets_outcome, erule built_outcome, rule build_command.simps(2) [symmetric])

lemma schedule_downtime_outcome:
  "handle_schedule_downtime w env q s = (r, s') \<Longrightarrow> command_outcome w env q s r s'"
  unfolding handle_schedule_downtime_def
  by (erule with_targets_outcome, erule built_outcome, rule build_command.simps(3) [symmetric])

lemma delete_downtime_outcome:
  "handle_delete_downtime w env q s = (r, s') \<Longrightarrow> command_outcome w env q s r s'"
  unfolding handle_delete_downtime_def
  by (erule with_targets_outcome, erule answer_or, erule built_outcome,
      rule build_command.simps(4) [symmetric])

lemma reschedule_outcome: "handle_reschedule w env q s = (r, s') \<Longrightarrow> command_outcome w env q s r s'"
  unfolding handle_reschedule_def
  by (erule with_targets_outcome, erule built_outcome, rule build_command.simps(5) [symmetric])

lemma submit_result_outcome:
  "handle_submit_result w env q s = (r, s') \<Longrightarrow> command_outcome w env q s r s'"
  unfolding handle_submit_result_def
  by (erule with_targets_outcome, erule built_outcome, rule build_command.simps(6) [symmetric])

lemma notify_outcome: "handle_notify w env q s = (r, s') \<Longrightarrow> command_outcome w env q s r s'"
  unfolding handle_notify_def
  by (erule with_targets_outcome, erule built_outcome, rule build_command.simps(7) [symmetric])

lemma toggle_outcome: "handle_toggle w env q s = (r, s') \<Longrightarrow> command_outcome w env q s r s'"
  unfolding handle_toggle_def
  by (erule with_targets_outcome, erule answer_or, erule built_outcome,
      rule build_command.simps(8) [symmetric])

section \<open>Each object once\<close>

lemma key_part_eq:
  fixes d :: char
  assumes "d \<notin> set k" and "d \<notin> set k'" and "k @ d # r = k' @ d # r'"
  shows "k = k' \<and> r = r'"
proof -
  from assms have "split_on d (k @ d # r) = split_on d (k' @ d # r')" by simp
  with assms(1,2) have "k = k'" by (simp add: split_on_append)
  with assms(3) show ?thesis by simp
qed

definition nul_free :: "target_request \<Rightarrow> bool" where
  "nul_free t \<longleftrightarrow> CHR 0x00 \<notin> set (te_host t) \<and> CHR 0x00 \<notin> set (te_service t)"

lemma target_key_inj:
  assumes "nul_free t" and "nul_free t'" and "te_kind t \<in> {KindHost, KindService}"
    and "te_kind t' \<in> {KindHost, KindService}"
    and "target_key (as_target t) = target_key (as_target t')"
  shows "as_target t = as_target t'"
proof -
  have k: "CHR 0x00 \<notin> set (te_kind t)" "CHR 0x00 \<notin> set (te_kind t')"
    using assms(3,4) by (auto simp: KindHost_def KindService_def)
  from assms(5) have "te_kind t @ CHR 0x00 # (te_host t @ CHR 0x00 # te_service t)
      = te_kind t' @ CHR 0x00 # (te_host t' @ CHR 0x00 # te_service t')"
    by (simp add: target_key_def as_target_def)
  from key_part_eq [OF k this] have "te_kind t = te_kind t'"
    and "te_host t @ CHR 0x00 # te_service t = te_host t' @ CHR 0x00 # te_service t'" by auto
  with key_part_eq [OF _ _ this(2)] assms(1,2) show ?thesis by (simp add: nul_free_def as_target_def)
qed

lemma resolve_from_first_seen:
  assumes "resolve_from i seen (first_seen (map as_target pre)) ts = Inr res"
    and "set seen = (target_key \<circ> as_target) ` set pre" and "list_all nul_free (pre @ ts)"
    and "\<forall>t \<in> set pre. te_kind t \<in> {KindHost, KindService}"
  shows "res = first_seen (map as_target (pre @ ts))"
  using assms
proof (induction ts arbitrary: i seen pre)
  case Nil
  then show ?case by simp
next
  case (Cons t ts)
  from Cons.prems(1) have k: "te_kind t \<in> {KindHost, KindService}"
    by (auto simp: request_target_def split: if_splits)
  then have x: "request_target t = Inr (as_target t)" by (simp add: request_target_Inr)
  have same: "target_key (as_target t) \<in> set seen \<longleftrightarrow> as_target t \<in> set (map as_target pre)"
  proof
    assume "target_key (as_target t) \<in> set seen"
    then obtain p where p: "p \<in> set pre" "target_key (as_target t) = target_key (as_target p)"
      using Cons.prems(2) by auto
    with Cons.prems(3,4) k have "as_target t = as_target p"
      by (intro target_key_inj) (auto simp: list_all_iff)
    with p(1) show "as_target t \<in> set (map as_target pre)" by auto
  qed (use Cons.prems(2) in auto)
  have pre: "\<forall>t \<in> set (pre @ [t]). te_kind t \<in> {KindHost, KindService}"
    "list_all nul_free ((pre @ [t]) @ ts)" using Cons.prems(3,4) k by auto
  show ?case
  proof (cases "as_target t \<in> set (map as_target pre)")
    case True
    with same x Cons.prems(1) have "resolve_from (Suc i) seen (first_seen (map as_target (pre @ [t]))) ts = Inr res"
      by (simp add: first_seen_snoc)
    moreover have "set seen = (target_key \<circ> as_target) ` set (pre @ [t])"
      using True same Cons.prems(2) by auto
    ultimately show ?thesis using Cons.IH [of _ seen "pre @ [t]"] pre by simp
  next
    case False
    with same x Cons.prems(1) have "resolve_from (Suc i) (target_key (as_target t) # seen)
        (first_seen (map as_target (pre @ [t]))) ts = Inr res"
      by (simp add: first_seen_snoc)
    moreover have "set (target_key (as_target t) # seen) = (target_key \<circ> as_target) ` set (pre @ [t])"
      using Cons.prems(2) by auto
    ultimately show ?thesis using Cons.IH [of _ "target_key (as_target t) # seen" "pre @ [t]"] pre by simp
  qed
qed

text \<open>
  C7. The objects of a command are the ones the request names, each once, in the order of its first
  mention: the loop with its set of keys is the reference that drops every later duplicate. They are
  at least one and no more than the worker takes in one submission. No name holds a null byte, which
  separates the parts of a key.
\<close>
theorem targets_named_once:
  assumes "resolve ts = Inr out" and "list_all nul_free ts"
  shows "out = first_seen (map as_target ts) \<and> out \<noteq> [] \<and> length out \<le> max_bulk_commands"
proof -
  from assms(1) have "resolve_from 0 [] (first_seen (map as_target [])) ts = Inr out"
    by (auto simp: resolve_def first_seen_def split: if_splits)
  from resolve_from_first_seen [OF this] assms(2) have "out = first_seen (map as_target ts)" by simp
  with resolve_Inr [OF assms(1)] show ?thesis by blast
qed

lemma targets_named_once_witness:
  "\<exists>out. resolve (map (\<lambda>h. \<lparr>te_kind = ''host'', te_host = h, te_service = []\<rparr>) [''web'', ''db'', ''web'']) = Inr out
     \<and> map tg_hostname out = [''web'', ''db'']"
proof -
  let ?ts = "map (\<lambda>h. \<lparr>te_kind = ''host'', te_host = h, te_service = []\<rparr>) [''web'', ''db'', ''web'']"
  have "\<not> isl (resolve ?ts)" by code_simp
  then obtain out where out: "resolve ?ts = Inr out" by (cases "resolve ?ts") auto
  have "list_all nul_free ?ts" by code_simp
  from targets_named_once [OF out this] have "out = first_seen (map as_target ?ts)" by blast
  moreover have "map tg_hostname (first_seen (map as_target ?ts)) = [''web'', ''db'']" by code_simp
  ultimately have names: "map tg_hostname out = [''web'', ''db'']" by (simp only:)
  show ?thesis by (rule exI [of _ out]) (rule conjI [OF out names])
qed

text \<open>
  A worker that does not accept the key answers 401, and so does the server, which the frontend
  takes for the end of the session.
\<close>

lemma submit_envelope_refused:
  assumes "client_enabled c" and "ce_url_error env (cl_url c) = None"
    and "wi_replies wire = Reply status text # rest" and "status \<noteq> 202"
  shows "\<exists>res why wire'. submit_envelope env c e wire = ((res, Some (SubmitError status why)), wire')"
  using assms by (simp add: submit_envelope_def do_request_def Let_def case_prod_beta)

lemma worker_key_refused_signs_out:
  assumes "build_all build targets = Inr es" and "bulk es = Inr b" and "client_enabled (wb_client w)"
    and "ce_url_error (ht_client env) (cl_url (wb_client w)) = None"
    and "wi_replies (st_wire s) = Reply 401 text # rest"
  shows "\<exists>resp s'. submit w env action targets payload build q s = (Inr resp, s') \<and> rs_status resp = 401"
proof -
  obtain res why wire where x: "submit_envelope (ht_client env) (wb_client w) b (st_wire s)
      = ((res, Some (SubmitError 401 why)), wire)"
    using submit_envelope_refused [OF assms(3,4,5)] by fastforce
  have f: "failure_answer (SubmitError 401 why) = (401, refused_code 401, why, why)"
    by (simp add: failure_answer_def refused_status_def)
  show ?thesis
    unfolding submit_def by (simp add: assms(1,2) x f Let_def write_error_def write_json_def)
qed

end
