(* ===== verification/ListHandlers.thy ===== *)
theory ListHandlers
  imports Middleware
begin

text \<open>
  The reading endpoints (\<^verbatim>\<open>handlers_monitoring.go\<close> and \<^verbatim>\<open>handlers_history.go\<close> of
  \<^verbatim>\<open>internal/httpapi\<close>): from the parameters of a request to a filter and a page, from those to rows
  of the database, and from these to the answer. The \<open>i\<close>-th read of a request meets the database
  \<open>ht_server env i\<close>.
\<close>

section \<open>Pages\<close>

text \<open>The keys of each whitelist.\<close>

definition host_sort_names :: "string list" where
  "host_sort_names = [''hostname'', ''severity'', ''state'', ''last_check'', ''next_check'', ''last_state_change'',
     ''current_check_attempt'', ''latency'', ''execution_time'', ''output'']"

definition or_fail :: "api_error + 'a \<Rightarrow> ('a \<Rightarrow> response) \<Rightarrow> response" where
  "or_fail r k = (case r of Inl e \<Rightarrow> fail_response e | Inr x \<Rightarrow> k x)"

definition or_internal :: "web \<Rightarrow> http_env \<Rightarrow> string \<Rightarrow> 'e + 'a \<Rightarrow> ('a \<Rightarrow> response) \<Rightarrow> response" where
  "or_internal w env what r k = (case r of Inl e \<Rightarrow> internal_error w env what | Inr x \<Rightarrow> k x)"

definition list_request_page :: "web \<Rightarrow> request \<Rightarrow> string \<Rightarrow> string list \<Rightarrow> api_error + page" where
  "list_request_page w q default_sort names =
     bind_err (parse_page q (cf_default_page_size (wb_cfg w)) (cf_max_page_size (wb_cfg w))
         default_sort (sortable_names names)) (\<lambda>p.
       Inr \<lparr>pg_limit = hp_limit p, pg_offset = hp_offset p, pg_sort = hp_sort p, pg_desc = hp_desc p\<rparr>)"

text \<open>Lists that run backwards unless the caller names an order.\<close>

definition newest_first :: "request \<Rightarrow> page \<Rightarrow> page" where
  "newest_first q p = (if query_get q ''sort'' = [] then p\<lparr>pg_desc := True\<rparr> else p)"

definition meta_for :: "page \<Rightarrow> int64 \<Rightarrow> list_meta" where
  "meta_for p n =
     \<lparr>lm_total = n, lm_limit = pg_limit p, lm_offset = pg_offset p,
      lm_sort = pg_sort p @ (if pg_desc p then '':desc'' else '':asc'')\<rparr>"

definition trimmed :: "request \<Rightarrow> string \<Rightarrow> string" where
  "trimmed q name = trim_space (query_get q name)"

definition is_true :: "request \<Rightarrow> string \<Rightarrow> bool" where
  "is_true q name \<longleftrightarrow> query_get q name = ''true''"

definition in_apostrophe :: "string \<Rightarrow> string \<Rightarrow> string" where
  "in_apostrophe owner rest = owner @ [CHR 0x27] @ ''s '' @ rest"

section \<open>Hosts and services\<close>

definition status_request_filter :: "request \<Rightarrow> int \<Rightarrow> api_error + status_filter" where
  "status_request_filter q max_state =
     bind_err (parse_int_list q ''state'' 0 max_state) (\<lambda>states.
     bind_err (parse_tri_bool q ''acknowledged'') (\<lambda>acknowledged.
     bind_err (parse_tri_bool q ''in_downtime'') (\<lambda>in_downtime.
     bind_err (parse_tri_bool q ''flapping'') (\<lambda>flapping.
     bind_err (parse_tri_bool q ''notifications_enabled'') (\<lambda>notifications.
     bind_err (parse_tri_bool q ''active_checks_enabled'') (\<lambda>active_checks.
     bind_err (parse_tri_bool q ''hard_state'') (\<lambda>hard_state.
     bind_err (parse_tri_bool q ''passive'') (\<lambda>passive.
     bind_err (parse_tri_bool q ''handled'') (\<lambda>handled.
       Inr \<lparr>sf_search = trimmed q ''q'', sf_host = trimmed q ''host'', sf_states = states,
            sf_acknowledged = acknowledged, sf_in_downtime = in_downtime, sf_flapping = flapping,
            sf_notifications_enabled = notifications, sf_active_checks_enabled = active_checks,
            sf_hard_state = hard_state, sf_passive = passive,
            sf_problems_only = is_true q ''problems'', sf_handled = handled\<rparr>)))))))))"

definition handle_list_hosts :: "web \<Rightarrow> http_env \<Rightarrow> handler" where
  "handle_list_hosts w env q =
     answer (
       or_fail (status_request_filter q HostUnreachable) (\<lambda>f.
       or_fail (list_request_page w q ''hostname'' host_sort_names) (\<lambda>p.
       or_internal w env ''hosts'' (hosts_list (ht_server env 0) f p) (\<lambda>(hosts, n).
         write_list (HostRows hosts) (meta_for p n)))))"

text \<open>A single read, of one row.\<close>

definition read_host :: "server \<Rightarrow> string \<Rightarrow> get_error + host_status" where
  "read_host sv = host_get (sv_collation sv) (sv_listed sv) (snd (sv_faults sv))"

definition read_service :: "server \<Rightarrow> string \<Rightarrow> string \<Rightarrow> get_error + service_status" where
  "read_service sv = service_get (sv_collation sv) (sv_listed sv) (snd (sv_faults sv))"

definition downtimes_if :: "bool \<Rightarrow> http_env \<Rightarrow> kind \<Rightarrow> string \<Rightarrow> string \<Rightarrow> list_error + downtime list" where
  "downtimes_if b env k host svc =
     (if b then downtimes_for_object (ht_server env 1) (unix (ht_clock env AtObject)) k host svc else Inr [])"

definition ack_if :: "bool \<Rightarrow> http_env \<Rightarrow> kind \<Rightarrow> string \<Rightarrow> string \<Rightarrow> list_error + acknowledgement option" where
  "ack_if b env k host svc = (if b then latest_for (ht_server env 2) k host svc else Inr None)"

definition handle_get_host :: "web \<Rightarrow> http_env \<Rightarrow> handler" where
  "handle_get_host w env q =
     answer (
       let hostname = hq_path_value q ''host'' in
       case read_host (ht_server env 0) hostname of
         Inl get_error.NotFound \<Rightarrow> write_error 404 CodeNotFound (''no host named '' @ hostname)
       | Inl GetFailed \<Rightarrow> internal_error w env ''the host''
       | Inr host \<Rightarrow>
           or_internal w env (in_apostrophe ''the host'' ''downtimes'')
             (downtimes_if (hs_in_downtime host) env KindHost hostname []) (\<lambda>downtimes.
           or_internal w env (in_apostrophe ''the host'' ''acknowledgement'')
             (ack_if (hs_acknowledged host) env KindHost hostname []) (\<lambda>ack.
             write_json 200 (HostBody host downtimes ack))))"

definition handle_list_host_names :: "web \<Rightarrow> http_env \<Rightarrow> handler" where
  "handle_list_host_names w env q =
     answer (
       let sv = ht_server env 0; limit = cf_max_page_size (wb_cfg w) in
       or_internal w env ''host names''
         (host_names (sv_arrange sv) (sv_listed sv) (snd (sv_faults sv)) limit) (\<lambda>names.
         write_list (NameRows names)
           \<lparr>lm_total = int (length names), lm_limit = limit, lm_offset = 0, lm_sort = []\<rparr>))"

definition service_sort_names :: "string list" where
  "service_sort_names = [''hostname'', ''service_description'', ''severity'', ''state'', ''last_check'',
     ''next_check'', ''last_state_change'', ''current_check_attempt'', ''latency'',
     ''execution_time'', ''output'']"

definition handle_list_services :: "web \<Rightarrow> http_env \<Rightarrow> handler" where
  "handle_list_services w env q =
     answer (
       or_fail (status_request_filter q ServiceUnknown) (\<lambda>f0.
       let host = hq_path_value q ''host''; f = (if host \<noteq> [] then f0\<lparr>sf_host := host\<rparr> else f0) in
       or_fail (list_request_page w q ''hostname'' service_sort_names) (\<lambda>p.
       or_internal w env ''services'' (services_list (ht_server env 0) f p) (\<lambda>(services, n).
         write_list (ServiceRows services) (meta_for p n)))))"

definition handle_get_service :: "web \<Rightarrow> http_env \<Rightarrow> handler" where
  "handle_get_service w env q =
     answer (
       or_fail (required_query q ''host'') (\<lambda>host.
       or_fail (required_query q ''service'') (\<lambda>description.
       case read_service (ht_server env 0) host description of
         Inl get_error.NotFound \<Rightarrow> write_error 404 CodeNotFound (''no service '' @ description @ '' on '' @ host)
       | Inl GetFailed \<Rightarrow> internal_error w env ''the service''
       | Inr svc \<Rightarrow>
           or_internal w env (in_apostrophe ''the service'' ''downtimes'')
             (downtimes_if (ss_in_downtime svc) env KindService host description) (\<lambda>downtimes.
           or_internal w env (in_apostrophe ''the service'' ''acknowledgement'')
             (ack_if (ss_acknowledged svc) env KindService host description) (\<lambda>ack.
             write_json 200 (ServiceBody svc downtimes ack))))))"

section \<open>Problems\<close>

definition problem_sort_names :: "string list" where
  "problem_sort_names = [''severity'', ''hostname'', ''service_description'', ''state'', ''last_check'',
     ''last_state_change'', ''kind'']"

definition problem_request_filter :: "request \<Rightarrow> api_error + problem_filter" where
  "problem_request_filter q =
     bind_err (parse_kind q) (\<lambda>kind.
     bind_err (parse_tri_bool q ''acknowledged'') (\<lambda>acknowledged.
     bind_err (parse_tri_bool q ''in_downtime'') (\<lambda>in_downtime.
     bind_err (parse_tri_bool q ''hard_state'') (\<lambda>hard_state.
     bind_err (parse_tri_bool q ''flapping'') (\<lambda>flapping.
     bind_err (parse_tri_bool q ''handled'') (\<lambda>handled.
       Inr \<lparr>pf_search = trimmed q ''q'', pf_kind = kind, pf_acknowledged = acknowledged,
            pf_in_downtime = in_downtime, pf_hard_state = hard_state, pf_flapping = flapping,
            pf_handled = handled,
            pf_hide_services_of_down_hosts = is_true q ''hide_services_of_down_hosts''\<rparr>))))))"

definition handle_list_problems :: "web \<Rightarrow> http_env \<Rightarrow> handler" where
  "handle_list_problems w env q =
     answer (
       or_fail (problem_request_filter q) (\<lambda>f.
       or_fail (list_request_page w q ''severity'' problem_sort_names) (\<lambda>p0.
       let p = newest_first q p0 in
       or_internal w env ''problems'' (problems_list (ht_server env 0) f p) (\<lambda>(problems, n).
         write_list (ProblemRows problems) (meta_for p n)))))"

section \<open>Downtimes and acknowledgements\<close>

definition service_without_host :: api_error where
  "service_without_host =
     bad_request ''a service filter needs a host as well; a service description is not unique on its own'' ''host''"

definition downtime_request_filter :: "http_env \<Rightarrow> request \<Rightarrow> api_error + downtime_filter" where
  "downtime_request_filter env q =
     fail_if (trimmed q ''service'' \<noteq> [] \<and> trimmed q ''host'' = []) service_without_host (
     bind_err (parse_kind q) (\<lambda>kind.
     bind_err (parse_tri_bool q ''running'') (\<lambda>running.
       Inr \<lparr>df_search = trimmed q ''q'', df_host = trimmed q ''host'', df_service = trimmed q ''service'',
            df_kind = kind, df_running = running, df_now = unix (ht_clock env AtHandler)\<rparr>)))"

definition downtime_sort_names :: "string list" where
  "downtime_sort_names = [''scheduled_start_time'', ''scheduled_end_time'', ''entry_time'', ''hostname'',
     ''service_description'', ''author'', ''kind'']"

definition handle_list_downtimes :: "web \<Rightarrow> http_env \<Rightarrow> handler" where
  "handle_list_downtimes w env q =
     answer (
       or_fail (downtime_request_filter env q) (\<lambda>f.
       or_fail (list_request_page w q ''scheduled_start_time'' downtime_sort_names) (\<lambda>p.
       or_internal w env ''downtimes'' (downtimes_current (ht_server env 0) f p) (\<lambda>(downtimes, n).
         write_list (DowntimeRows downtimes) (meta_for p n)))))"

definition handle_list_downtime_history :: "web \<Rightarrow> http_env \<Rightarrow> handler" where
  "handle_list_downtime_history w env q =
     answer (
       or_fail (downtime_request_filter env q) (\<lambda>f.
       or_fail (list_request_page w q ''scheduled_start_time'' downtime_sort_names) (\<lambda>p0.
       let p = newest_first q p0 in
       or_internal w env ''the downtime history'' (downtimes_history (ht_server env 0) f p) (\<lambda>(downtimes, n).
         write_list (DowntimeRows downtimes) (meta_for p n)))))"

definition ack_request_filter :: "http_env \<Rightarrow> request \<Rightarrow> api_error + ack_filter" where
  "ack_request_filter env q =
     fail_if (trimmed q ''service'' \<noteq> [] \<and> trimmed q ''host'' = []) service_without_host (
     bind_err (parse_kind q) (\<lambda>kind.
       let f = \<lparr>af_search = trimmed q ''q'', af_host = trimmed q ''host'', af_service = trimmed q ''service'',
                af_author = trimmed q ''author'', af_kind = kind, af_from = 0, af_to = 0\<rparr> in
       if query_get q ''from'' \<noteq> [] \<or> query_get q ''to'' \<noteq> [] then
         bind_err (parse_time_range (unix (ht_clock env AtHandler)) q (30 * 24 * hour) 0) (\<lambda>tr.
           Inr (f\<lparr>af_from := tr_from tr, af_to := tr_to tr\<rparr>))
       else Inr f))"

definition ack_sort_names :: "string list" where
  "ack_sort_names = [''entry_time'', ''hostname'', ''service_description'', ''author'', ''state'', ''kind'']"

definition handle_list_acknowledgements :: "web \<Rightarrow> http_env \<Rightarrow> handler" where
  "handle_list_acknowledgements w env q =
     answer (
       or_fail (ack_request_filter env q) (\<lambda>f.
       or_fail (list_request_page w q ''entry_time'' ack_sort_names) (\<lambda>p0.
       let p = newest_first q p0 in
       or_internal w env ''acknowledgements'' (acks_list (ht_server env 0) f p) (\<lambda>(acks, n).
         write_list (AckRows acks) (meta_for p n)))))"

section \<open>Log entries and the summary\<close>

definition log_sort_names :: "string list" where
  "log_sort_names = [''entry_time'', ''logentry_type'', ''id'']"

definition handle_list_log_entries :: "web \<Rightarrow> http_env \<Rightarrow> handler" where
  "handle_list_log_entries w env q =
     answer (
       or_fail (parse_time_range (unix (ht_clock env AtHandler)) q (24 * hour) (31 * 24 * hour)) (\<lambda>tr.
       let f = \<lparr>lf_search = trimmed q ''q'', lf_from = tr_from tr, lf_to = tr_to tr, lf_types = [],
                lf_node = trimmed q ''node''\<rparr> in
       or_fail (list_request_page w q ''entry_time'' log_sort_names) (\<lambda>p0.
       let p = newest_first q p0 in
       or_internal w env ''log entries'' (logs_list (ht_server env 0) f p) (\<lambda>(entries, n).
         write_list (LogRows entries) (meta_for p n)))))"

definition default_summary_hours :: int where "default_summary_hours = 24"
definition max_summary_hours :: int where "max_summary_hours = 168"

definition summary_hours :: "request \<Rightarrow> int option" where
  "summary_hours q =
     (let v = query_get q ''hours'' in
      if v = [] then Some default_summary_hours
      else case parse_int64 v of
        None \<Rightarrow> None
      | Some n \<Rightarrow> if n < 1 \<or> n > max_summary_hours then None else Some n)"

definition handle_summary :: "web \<Rightarrow> http_env \<Rightarrow> handler" where
  "handle_summary w env q =
     answer (
       case summary_hours q of
         None \<Rightarrow> write_field_error 400 CodeBadRequest
           (''hours must be between 1 and '' @ fmt_int max_summary_hours) ''hours''
       | Some hours \<Rightarrow>
           (let since = unix (ht_clock env AtHandler - hours * hour) in
            or_internal w env ''the summary''
              (summary_get (ht_collation env) (sv_arrange (ht_server env 0)) (ht_summary env)
                 (unix (ht_clock env AtTrend)) (unix (ht_clock env AtPrevious)) since) (\<lambda>sm.
              write_json 200 (SummaryBody (sm\<lparr>sm_window := (sm_window sm)\<lparr>ws_hours := hours\<rparr>\<rparr>)))))"

section \<open>History\<close>

definition scoped_history_default :: duration where "scoped_history_default = 24 * hour"
definition scoped_history_max :: duration where "scoped_history_max = 90 * 24 * hour"
definition unscoped_history_default :: duration where "unscoped_history_default = hour"
definition unscoped_history_max :: duration where "unscoped_history_max = 6 * hour"

definition history_window :: "http_env \<Rightarrow> request \<Rightarrow> api_error + time_range" where
  "history_window env q =
     (let host = trimmed q ''host'';
          (default_window, max_window) =
            (if host \<noteq> [] then (scoped_history_default, scoped_history_max)
             else (unscoped_history_default, unscoped_history_max))
      in case parse_time_range (unix (ht_clock env AtHandler)) q default_window max_window of
           Inl e \<Rightarrow> Inl
             (if er_field e = ''from'' \<and> host = []
              then e\<lparr>er_message := er_message e @ ''. Naming a host raises the limit to 90 days, ''
                     @ ''because the history tables are clustered per object''\<rparr>
              else e)
         | Inr tr \<Rightarrow> Inr tr)"

definition history_request_filter :: "http_env \<Rightarrow> request \<Rightarrow> int \<Rightarrow> api_error + history_filter" where
  "history_request_filter env q max_state =
     fail_if (trimmed q ''service'' \<noteq> [] \<and> trimmed q ''host'' = []) service_without_host (
     bind_err (parse_kind q) (\<lambda>kind.
     bind_err (parse_int_list q ''state'' 0 max_state) (\<lambda>states.
     bind_err (history_window env q) (\<lambda>tr.
       Inr \<lparr>hf_host = trimmed q ''host'', hf_description = trimmed q ''service'', hf_kind = kind,
            hf_search = trimmed q ''q'', hf_states = states, hf_from = tr_from tr, hf_to = tr_to tr,
            hf_hard_only = is_true q ''hard_only'', hf_transitions_only = is_true q ''transitions_only''\<rparr>))))"

definition write_history :: "rows \<Rightarrow> list_meta \<Rightarrow> history_filter \<Rightarrow> response" where
  "write_history rs meta f = write_json 200 (HistoryBody rs meta (hf_from f) (hf_to f) (scoped f))"

definition check_sort_names :: "string list" where
  "check_sort_names = [''start_time'', ''hostname'', ''service_description'', ''state'', ''execution_time'',
     ''latency'']"

definition handle_history_checks :: "web \<Rightarrow> http_env \<Rightarrow> handler" where
  "handle_history_checks w env q =
     answer (
       or_fail (history_request_filter env q ServiceUnknown) (\<lambda>f.
       or_fail (list_request_page w q ''start_time'' check_sort_names) (\<lambda>p0.
       let p = newest_first q p0 in
       or_internal w env ''the check history'' (checks_list (ht_server env 0) f p) (\<lambda>(checks, n).
         write_history (CheckRows checks) (meta_for p n) f))))"

definition state_change_sort_names :: "string list" where
  "state_change_sort_names = [''state_time'', ''hostname'', ''service_description'', ''state'']"

definition handle_history_state_changes :: "web \<Rightarrow> http_env \<Rightarrow> handler" where
  "handle_history_state_changes w env q =
     answer (
       or_fail (history_request_filter env q ServiceUnknown) (\<lambda>f.
       or_fail (list_request_page w q ''state_time'' state_change_sort_names) (\<lambda>p0.
       let p = newest_first q p0 in
       or_internal w env ''the state history'' (state_changes_list (ht_server env 0) f p) (\<lambda>(changes, n).
         write_history (StateChangeRows changes) (meta_for p n) f))))"

definition notification_sort_names :: "string list" where
  "notification_sort_names = [''start_time'', ''hostname'', ''service_description'', ''contact_name'', ''state'']"

definition handle_history_notifications :: "web \<Rightarrow> http_env \<Rightarrow> handler" where
  "handle_history_notifications w env q =
     answer (
       or_fail (history_request_filter env q ServiceUnknown) (\<lambda>f0.
       let f = f0\<lparr>hf_hard_only := False\<rparr> in
       or_fail (list_request_page w q ''start_time'' notification_sort_names) (\<lambda>p0.
       let p = newest_first q p0 in
       or_internal w env ''the notification history'' (notifications_list (ht_server env 0) f p)
         (\<lambda>(notifications, n).
         write_history (NotificationRows notifications) (meta_for p n) f))))"

section \<open>Performance data\<close>

text \<open>A query refused by the provider itself has nothing to do with the database.\<close>

definition metrics_error_response :: "web \<Rightarrow> http_env \<Rightarrow> metrics_error \<Rightarrow> response" where
  "metrics_error_response w env e =
     (case e of
        NotImplementedYet \<Rightarrow> write_error 501 CodeUnavailable err_not_implemented
      | InvalidQuery why \<Rightarrow> internal_error w (env\<lparr>ht_cause := OtherCause why\<rparr>) ''performance data''
      | _ \<Rightarrow> internal_error w env ''performance data'')"

definition provider_labels :: "web \<Rightarrow> http_env \<Rightarrow> string \<Rightarrow> string \<Rightarrow> metrics_error + metric_meta list" where
  "provider_labels w env host svc =
     (case wb_provider w of
        MySQLProvider \<Rightarrow>
          (let sv = ht_server env 0 in
           metrics_labels (sv_collation sv) (ht_label_order env) (sv_listed sv) (snd (sv_faults sv)) host svc)
      | GraphiteProvider g \<Rightarrow> graphite_labels g host svc)"

definition provider_query :: "web \<Rightarrow> http_env \<Rightarrow> metric_query \<Rightarrow> metrics_error + metric_result" where
  "provider_query w env mq =
     (case wb_provider w of
        MySQLProvider \<Rightarrow>
          (let sv = ht_server env 0 in
           metrics_query (sv_collation sv) (ht_aggregates env) (ht_metric_order env) (sv_listed sv)
             (snd (sv_faults sv)) mq)
      | GraphiteProvider g \<Rightarrow> graphite_query g mq)"

definition provider_name :: "web \<Rightarrow> string" where
  "provider_name w = (case wb_provider w of MySQLProvider \<Rightarrow> ''mysql'' | GraphiteProvider g \<Rightarrow> ''graphite'')"

text \<open>Whichever backend is configured, the endpoint sees a provider.\<close>

interpretation backend: metrics_provider "provider_query w env" "provider_name w" for w env
proof unfold_locales
  fix q res assume r: "provider_query w env q = Inr res"
  show "validate_query q = None"
  proof (cases "wb_provider w")
    case MySQLProvider
    with r show ?thesis by (simp add: provider_query_def Let_def mysql.answers_valid)
  next
    case (GraphiteProvider g)
    with r show ?thesis by (simp add: provider_query_def graphite.answers_valid)
  qed
  show "mr_from res = mq_from q \<and> mr_to res = mq_to q \<and> 0 < mr_bucket_seconds res \<and> mr_source res = provider_name w"
  proof (cases "wb_provider w")
    case MySQLProvider
    with r show ?thesis by (simp add: provider_query_def provider_name_def Let_def mysql.answers_window)
  next
    case (GraphiteProvider g)
    with r show ?thesis by (simp add: provider_query_def graphite_query_def)
  qed
qed

definition handle_metric_labels :: "web \<Rightarrow> http_env \<Rightarrow> handler" where
  "handle_metric_labels w env q =
     answer (
       or_fail (required_query q ''host'') (\<lambda>host.
       or_fail (required_query q ''service'') (\<lambda>svc.
       case provider_labels w env host svc of
         Inl e \<Rightarrow> metrics_error_response w env e
       | Inr labels \<Rightarrow> write_list (LabelRows labels)
           \<lparr>lm_total = int (length labels), lm_limit = 0, lm_offset = 0, lm_sort = []\<rparr>)))"

definition max_points :: "request \<Rightarrow> api_error + int" where
  "max_points q =
     (let v = query_get q ''max_points'';
          e = bad_request ''max_points must be between 10 and 5000'' ''max_points''
      in if v = [] then Inr 500
         else case parse_int64 v of
           None \<Rightarrow> Inl e
         | Some n \<Rightarrow> fail_if (n < 10 \<or> n > 5000) e (Inr n))"

definition handle_metric_series :: "web \<Rightarrow> http_env \<Rightarrow> handler" where
  "handle_metric_series w env q =
     answer (
       or_fail (required_query q ''host'') (\<lambda>host.
       or_fail (required_query q ''service'') (\<lambda>svc.
       or_fail (parse_time_range (unix (ht_clock env AtHandler)) q (6 * hour) (366 * 24 * hour)) (\<lambda>tr.
       or_fail (max_points q) (\<lambda>points.
       case provider_query w env
           \<lparr>mq_hostname = host, mq_description = svc, mq_labels = list_parts [query_get q ''label''],
            mq_from = tr_from tr, mq_to = tr_to tr, mq_max_points = points\<rparr> of
         Inl e \<Rightarrow> metrics_error_response w env e
       | Inr result \<Rightarrow> write_json 200 (MetricBody result))))))"

text \<open>
  A chart that is answered shows the window that was asked for, and says who answered; the window is
  one the range parser lets through, never longer than a year and a day.
\<close>

lemma series_answer_window:
  assumes "handle_metric_series w env q s = (Inr (write_json 200 (MetricBody res)), s')"
  obtains tr where "parse_time_range (unix (ht_clock env AtHandler)) q (6 * hour) (366 * 24 * hour) = Inr tr"
    "mr_from res = tr_from tr" "mr_to res = tr_to tr" "mr_from res \<le> mr_to res" "mr_source res = provider_name w"
proof -
  have failed: "fail_response e \<noteq> write_json 200 (MetricBody res)" for e
    by (simp add: fail_response_def write_json_def)
  have refused: "metrics_error_response w env e \<noteq> write_json 200 (MetricBody res)" for e
    by (simp add: metrics_error_response_def internal_error_def write_error_def write_json_def unwritten_def
        split: metrics_error.splits cause.splits)
  from assms failed refused obtain mq tr where
    tr: "parse_time_range (unix (ht_clock env AtHandler)) q (6 * hour) (366 * 24 * hour) = Inr tr"
    and mq: "provider_query w env mq = Inr res" "mq_from mq = tr_from tr" "mq_to mq = tr_to tr"
    by (auto simp: handle_metric_series_def answer_def or_fail_def write_json_def split: sum.splits)
  show ?thesis
    using that [OF tr] backend.answers_window [OF mq(1)] backend.answered_object [OF mq(1)] mq by simp
qed

section \<open>What a list may be asked for\<close>

text \<open>The default order, the names and the columns of each list, as its handler pairs them.\<close>

definition listings :: "(string \<times> string list \<times> (string \<rightharpoonup> proj)) list" where
  "listings =
     [(''hostname'', host_sort_names, host_sort_columns),
      (''hostname'', service_sort_names, service_sort_columns),
      (''severity'', problem_sort_names, problem_sort_columns),
      (''scheduled_start_time'', downtime_sort_names, downtime_sort_columns),
      (''entry_time'', ack_sort_names, ack_sort_columns),
      (''entry_time'', log_sort_names, log_sort_columns),
      (''start_time'', check_sort_names, check_sort_columns),
      (''state_time'', state_change_sort_names, state_change_sort_columns),
      (''start_time'', notification_sort_names, notification_sort_columns)]"

lemma listing_columns: "(ds, names, cols) \<in> set listings \<Longrightarrow> insert ds (set names) = dom cols"
  by (auto simp: listings_def dom_map_of_conv_image_fst
      host_sort_names_def host_sort_columns_def service_sort_names_def service_sort_columns_def
      problem_sort_names_def problem_sort_columns_def downtime_sort_names_def downtime_sort_columns_def
      ack_sort_names_def ack_sort_columns_def log_sort_names_def log_sort_columns_def
      check_sort_names_def check_sort_columns_def state_change_sort_names_def state_change_sort_columns_def
      notification_sort_names_def notification_sort_columns_def)

text \<open>
  Whatever a caller puts into the query, a list is read with a page inside the limits of the
  configuration, its size between one and the maximum and its offset not negative, and ordered by an
  entry of its own table of columns: no text of the caller's is ever part of the order of a
  statement, and none of the lists falls back to another order than the one it reports.
\<close>
theorem lists_sort_by_columns:
  assumes "(ds, names, cols) \<in> set listings" and "validate_config (wb_cfg w) = []"
    and "list_request_page w q ds names = Inr p"
  shows "pg_sort p \<in> dom cols \<and> 1 \<le> pg_limit p \<and> pg_limit p \<le> cf_max_page_size (wb_cfg w)
    \<and> 0 \<le> pg_offset p"
proof -
  from assms(3) obtain hp where hp: "parse_page q (cf_default_page_size (wb_cfg w)) (cf_max_page_size (wb_cfg w))
      ds (sortable_names names) = Inr hp"
    and p: "p = \<lparr>pg_limit = hp_limit hp, pg_offset = hp_offset hp, pg_sort = hp_sort hp, pg_desc = hp_desc hp\<rparr>"
    by (auto simp: list_request_page_def guard_simps)
  have c: "1 \<le> cf_default_page_size (wb_cfg w)" "cf_default_page_size (wb_cfg w) \<le> cf_max_page_size (wb_cfg w)"
    using assms(2) by (simp_all add: validate_config_def)
  from parse_page_Inr [OF hp] have parts: "page_limit q (cf_default_page_size (wb_cfg w))
      (cf_max_page_size (wb_cfg w)) = Inr (hp_limit hp)" "page_offset q = Inr (hp_offset hp)"
    "page_sort q ds (sortable_names names) = Inr (hp_sort hp, hp_desc hp)" by auto
  have "hp_sort hp \<in> insert ds (set names)" using page_sort_Inr [OF parts(3)] by auto
  with listing_columns [OF assms(1)] page_limit_Inr [OF parts(1) c] page_offset_Inr [OF parts(2)]
  show ?thesis by (simp add: p)
qed

definition sample_list_web :: web where
  "sample_list_web = \<lparr>wb_cfg = sample_config, wb_client = new_client [] [] 0, wb_provider = MySQLProvider,
     wb_ui = None, wb_version = ''dev''\<rparr>"

lemma lists_sort_by_columns_witness:
  "\<exists>p. list_request_page sample_list_web
      (sample_request [(''limit'', [''20'']), (''sort'', [''severity:desc''])]) ''hostname'' host_sort_names = Inr p
     \<and> pg_sort p \<in> dom host_sort_columns \<and> pg_limit p \<le> cf_max_page_size sample_config"
proof -
  let ?r = "list_request_page sample_list_web
      (sample_request [(''limit'', [''20'']), (''sort'', [''severity:desc''])]) ''hostname'' host_sort_names"
  have "\<not> isl ?r" by code_simp
  then obtain p where p: "?r = Inr p" by (cases ?r) auto
  have "(''hostname'', host_sort_names, host_sort_columns) \<in> set listings" by (simp add: listings_def)
  moreover have "validate_config (wb_cfg sample_list_web) = []" by code_simp
  ultimately show ?thesis using lists_sort_by_columns [OF _ _ p] p by (auto simp: sample_list_web_def)
qed

lemma scoped_windows:
  "duration_seconds scoped_history_default = 86400" "duration_seconds scoped_history_max = 7776000"
  "duration_seconds unscoped_history_default = 3600" "duration_seconds unscoped_history_max = 21600"
  by (simp_all add: duration_seconds_def go_div_def second_def minute_def hour_def
      scoped_history_default_def scoped_history_max_def unscoped_history_default_def unscoped_history_max_def)

lemma history_max_positive: "0 < scoped_history_max" "0 < unscoped_history_max"
  by (simp_all add: scoped_history_max_def unscoped_history_max_def)

lemma history_window_Inr:
  assumes "history_window env q = Inr tr" and "86400 \<le> unix (ht_clock env AtHandler)"
    and "unix (ht_clock env AtHandler) < 2 ^ 63"
  shows "0 \<le> tr_from tr \<and> tr_from tr \<le> tr_to tr
    \<and> tr_to tr - tr_from tr \<le> (if trimmed q ''host'' \<noteq> [] then 7776000 else 21600)"
proof (cases "trimmed q ''host'' = []")
  case True
  with assms(1) have "parse_time_range (unix (ht_clock env AtHandler)) q unscoped_history_default
      unscoped_history_max = Inr tr"
    by (auto simp: history_window_def Let_def split: sum.splits)
  from parse_time_range_bounds [OF this] assms(2,3) True show ?thesis
    by (simp add: scoped_windows history_max_positive)
next
  case False
  with assms(1) have "parse_time_range (unix (ht_clock env AtHandler)) q scoped_history_default
      scoped_history_max = Inr tr"
    by (auto simp: history_window_def Let_def split: sum.splits)
  from parse_time_range_bounds [OF this] assms(2,3) False show ?thesis
    by (simp add: scoped_windows history_max_positive)
qed

text \<open>
  C31. However a history is asked for, what is read of it is bounded: a window that runs forwards and
  spans at most ninety days when a host is named and six hours when none is, a service only together
  with its host, states that exist, and a kind that exists. The clock is taken to be past the first
  day of 1970.
\<close>
theorem history_reads_bounded:
  assumes "history_request_filter env q ms = Inr f" and "86400 \<le> unix (ht_clock env AtHandler)"
    and "unix (ht_clock env AtHandler) < 2 ^ 63"
  shows "0 \<le> hf_from f \<and> hf_from f \<le> hf_to f
    \<and> hf_to f - hf_from f \<le> (if scoped f then 90 * 24 * 3600 else 6 * 3600)
    \<and> (scoped f \<or> hf_description f = []) \<and> set (hf_states f) \<subseteq> {0..ms}
    \<and> hf_kind f \<in> {[], KindHost, KindService}"
proof -
  from assms(1) obtain kind states tr where k: "parse_kind q = Inr kind"
    and st: "parse_int_list q ''state'' 0 ms = Inr states" and tr: "history_window env q = Inr tr"
    and sv: "trimmed q ''service'' = [] \<or> trimmed q ''host'' \<noteq> []"
    and f: "f = \<lparr>hf_host = trimmed q ''host'', hf_description = trimmed q ''service'', hf_kind = kind,
            hf_search = trimmed q ''q'', hf_states = states, hf_from = tr_from tr, hf_to = tr_to tr,
            hf_hard_only = is_true q ''hard_only'', hf_transitions_only = is_true q ''transitions_only''\<rparr>"
    by (auto simp: history_request_filter_def guard_simps)
  have "set states \<subseteq> {0..ms}" using parse_int_list_Inr [OF st] by auto
  with parse_kind_Inr [OF k] history_window_Inr [OF tr assms(2,3)] sv f show ?thesis
    by (auto simp: scoped_def)
qed

definition sample_list_env :: http_env where
  "sample_list_env =
     \<lparr>ht_auth = sample_env, ht_client = \<lparr>ce_url_error = (\<lambda>_. None), ce_read = (\<lambda>_. None)\<rparr>,
      ht_clock = (\<lambda>_. 100000 * second), ht_token = None, ht_request_id = None, ht_v6_local = (\<lambda>_. False),
      ht_ping = None, ht_collation = plain_collation, ht_perf_first = (\<lambda>_. False),
      ht_server = (\<lambda>_. sample_server), ht_summary = (\<lambda>_. None),
      ht_aggregates = \<lparr>ag_avg = (\<lambda>_. 0), ag_min = (\<lambda>_. 0), ag_max = (\<lambda>_. 0)\<rparr>,
      ht_metric_order = id, ht_label_order = id, ht_cause = OtherCause ''gone'', ht_stream = [],
      ht_encoders = ((\<lambda>_. ''{}''), (\<lambda>_ _. ''{}''))\<rparr>"

lemma history_reads_bounded_witness:
  "\<exists>f. history_request_filter sample_list_env
      (sample_request [(''host'', ['' web '']), (''service'', [''load'']), (''state'', [''1,2'']), (''from'', [''90000''])])
      ServiceUnknown = Inr f
     \<and> hf_to f - hf_from f \<le> (if scoped f then 90 * 24 * 3600 else 6 * 3600)"
proof -
  let ?r = "history_request_filter sample_list_env
      (sample_request [(''host'', ['' web '']), (''service'', [''load'']), (''state'', [''1,2'']), (''from'', [''90000''])])
      ServiceUnknown"
  have "\<not> isl ?r" by code_simp
  then obtain f where f: "?r = Inr f" by (cases ?r) auto
  have "unix (ht_clock sample_list_env AtHandler) = 100000"
    by (simp add: sample_list_env_def unix_def second_def)
  with history_reads_bounded [OF f] f show ?thesis by auto
qed

end
