(* ===== verification/SessionHandlers.thy ===== *)
theory SessionHandlers
  imports Middleware
begin

text \<open>
  The endpoints around a session, and those an orchestrator and the login page read
  (\<^verbatim>\<open>handlers_auth.go\<close> and \<^verbatim>\<open>handlers_health.go\<close> of \<^verbatim>\<open>internal/httpapi\<close>).
\<close>

section \<open>Sessions\<close>

record login_request =
  lq_username :: string
  lq_password :: string

definition decode_login :: "json \<Rightarrow> json_error + login_request" where
  "decode_login j =
     decode_struct ''loginRequest''
       [(''username'', string_field (\<lambda>v r. r\<lparr>lq_username := v\<rparr>)),
        (''password'', string_field (\<lambda>v r. r\<lparr>lq_password := v\<rparr>))] j
       \<lparr>lq_username = [], lq_password = []\<rparr>"

definition session_ttl :: "site \<Rightarrow> duration" where
  "session_ttl s = ao_session_ttl (sv_opt (st_auth s))"

definition identity_answer :: "web \<Rightarrow> http_env \<Rightarrow> identity \<Rightarrow> site \<Rightarrow> identity_response" where
  "identity_answer w env i s =
     \<lparr>ir_username = us_username (id_user i), ir_display_name = us_display_name (id_user i),
      ir_email = us_email (id_user i), ir_role = ro_name (id_role i),
      ir_permissions = ps_list (id_permissions i), ir_is_demo = is_demo i (cf_demo_user (wb_cfg w)),
      ir_read_only = (\<not> has_any_command (id_permissions i)),
      ir_expires_at = unix (ht_clock env AtExpiry + session_ttl s)\<rparr>"

definition with_cookie :: "cookie \<Rightarrow> response \<Rightarrow> response" where
  "with_cookie c r = r\<lparr>rs_cookies := rs_cookies r @ [c]\<rparr>"

definition session_cookie :: "web \<Rightarrow> string \<Rightarrow> int \<Rightarrow> cookie" where
  "session_cookie w v age =
     \<lparr>ck_name = cf_session_cookie (wb_cfg w), ck_value = v, ck_path = ''/'', ck_http_only = True,
      ck_secure = cf_secure_cookies (wb_cfg w), ck_same_site = ''Lax'', ck_max_age = age\<rparr>"

definition set_session_cookie :: "web \<Rightarrow> string \<Rightarrow> site \<Rightarrow> response \<Rightarrow> response" where
  "set_session_cookie w token s = with_cookie (session_cookie w token (duration_seconds (session_ttl s)))"

definition clear_session_cookie :: "web \<Rightarrow> response \<Rightarrow> response" where
  "clear_session_cookie w = with_cookie (session_cookie w [] (-1))"

text \<open>A login that worked: the token goes into the cookie and nowhere else.\<close>

definition logged_in :: "web \<Rightarrow> http_env \<Rightarrow> string \<Rightarrow> identity \<Rightarrow> (site, panic, response) step" where
  "logged_in w env token i s =
     answer (set_session_cookie w token s (write_json 200 (IdentityBody (identity_answer w env i s)))) s"

definition login_failed :: "string \<Rightarrow> string \<Rightarrow> auth_error \<Rightarrow> response" where
  "login_failed too_many denied e =
     (if e = RateLimited then write_error 429 CodeRateLimited too_many
      else if e = InvalidCredentials then write_error 401 CodeUnauthorized denied
      else write_error 500 CodeInternal ''could not complete the login'')"

definition handle_login :: "web \<Rightarrow> http_env \<Rightarrow> handler" where
  "handle_login w env q =
     (case decode_json q decode_login of
        Inl why \<Rightarrow> answer (write_error 400 CodeBadRequest why)
      | Inr req \<Rightarrow>
          if lq_username req = [] \<or> lq_password req = [] then
            answer (write_field_error 400 CodeBadRequest ''username and password are required'' ''username'')
          else
            attempt (on_auth (login (ht_auth env) (ht_clock env AtHandler) (ht_token env)
                (lq_username req) (lq_password req) (hq_header q ''User-Agent'') (client_ip env q))) (\<lambda>r.
              case r of
                Inl e \<Rightarrow> answer
                  (with_headers (if e = RateLimited then [''Retry-After'' \<mapsto> ''60''] else Map.empty)
                    (login_failed ''too many login attempts; try again shortly''
                       ''invalid username or password'' e))
              | Inr (token, i) \<Rightarrow> logged_in w env token i))"

definition handle_login_demo :: "web \<Rightarrow> http_env \<Rightarrow> handler" where
  "handle_login_demo w env q =
     (if \<not> cf_demo_mode (wb_cfg w) then
        answer (write_error 404 CodeNotFound ''demo mode is not enabled'')
      else
        attempt (on_auth (login_demo (ht_auth env) (ht_clock env AtHandler) (ht_token env)
            (hq_header q ''User-Agent'') (client_ip env q))) (\<lambda>r.
          case r of
            Inl e \<Rightarrow> answer (login_failed
              ''too many attempts from this address; wait a moment and try again''
              ''the demo account is not available'' e)
          | Inr (token, i) \<Rightarrow> logged_in w env token i))"

definition no_content :: response where
  "no_content = unwritten\<lparr>rs_status := 204\<rparr>"

text \<open>A logout answers the same whether the row could be removed or not.\<close>

definition handle_logout :: "web \<Rightarrow> http_env \<Rightarrow> handler" where
  "handle_logout w env q =
     (let done = answer (clear_session_cookie w no_content) in
      case find_cookie (cf_session_cookie (wb_cfg w)) q of
        None \<Rightarrow> done
      | Some token \<Rightarrow> attempt (on_auth (logout (ht_auth env) token)) (\<lambda>_. done))"

definition handle_me :: "web \<Rightarrow> http_env \<Rightarrow> handler" where
  "handle_me w env q s =
     (case hq_identity q of
        None \<Rightarrow> answer (write_error 401 CodeUnauthorized ''authentication required'') s
      | Some i \<Rightarrow> answer (write_json 200 (IdentityBody (identity_answer w env i s))) s)"

section \<open>Health and meta\<close>

definition handle_healthz :: handler where
  "handle_healthz q = answer (write_json 200 (HealthBody \<lparr>he_status = ''ok'', he_checks = []\<rparr>))"

definition handle_readyz :: "web \<Rightarrow> http_env \<Rightarrow> handler" where
  "handle_readyz w env q =
     answer (
       let status = (case ht_ping env of None \<Rightarrow> 200 | Some why \<Rightarrow> 503);
           mysql = (case ht_ping env of None \<Rightarrow> ''ok'' | Some why \<Rightarrow> ''unreachable: '' @ why);
           cmds = (if \<not> commands_enabled (wb_cfg w)
                   then ''disabled: no worker_command_key configured'' else ''configured'');
           evs = (if \<not> events_enabled (wb_cfg w)
                  then ''disabled: no worker_events_key configured'' else ''configured'')
       in write_json status (HealthBody
            \<lparr>he_status = (if status \<noteq> 200 then ''degraded'' else ''ok''),
             he_checks = [(''mysql'', mysql), (''worker_commands'', cmds), (''worker_events'', evs)]\<rparr>))"

definition demo_commands :: "config \<Rightarrow> string list" where
  "demo_commands c = (if \<not> cf_demo_mode c then [] else cf_demo_commands c)"

definition handle_meta :: "web \<Rightarrow> handler" where
  "handle_meta w q =
     answer (let c = wb_cfg w in
       write_json 200 (MetaBody
         \<lparr>me_product = ''Statusengine Web Interface'', me_version = wb_version w,
          me_demo_mode = cf_demo_mode c, me_demo_commands = demo_commands c,
          me_commands_enabled = commands_enabled c, me_events_enabled = events_enabled c,
          me_metrics_provider = cf_metrics_provider c, me_default_page_size = cf_default_page_size c,
          me_max_page_size = cf_max_page_size c\<rparr>))"

end
