(* ===== verification/WebUi.thy ===== *)
theory WebUi
  imports Middleware
begin

text \<open>
  The built frontend (\<^verbatim>\<open>internal/httpapi/ui.go\<close>): an unknown path without an extension is a route
  inside the app and gets the index, a name with a content hash may be kept for ever, everything
  else is revalidated by an entity tag. Of \<open>http.FileServer\<close> and \<open>http.ServeContent\<close> the model
  has what a plain GET meets; the media type they add is left out.
\<close>

section \<open>Paths\<close>

text \<open>\<open>path.Clean\<close>; \<open>out\<close> holds the parts so far, last first.\<close>

fun clean_parts :: "bool \<Rightarrow> string list \<Rightarrow> string list \<Rightarrow> string list" where
  "clean_parts rooted out [] = rev out"
| "clean_parts rooted out (p # ps) =
     (if p = [] \<or> p = ''.'' then clean_parts rooted out ps
      else if p = ''..'' then
        (if out = [] then clean_parts rooted (if rooted then [] else [p]) ps
         else if hd out = ''..'' then clean_parts rooted (p # out) ps
         else clean_parts rooted (tl out) ps)
      else clean_parts rooted (p # out) ps)"

definition path_clean :: "string \<Rightarrow> string" where
  "path_clean s =
     (if s = [] then ''.''
      else
        let rooted = (hd s = CHR ''/'');
            b = join ''/'' (clean_parts rooted [] (split_on (CHR ''/'') s))
        in if rooted then CHR ''/'' # b else if b = [] then ''.'' else b)"

text \<open>\<open>path.Ext\<close>.\<close>

definition path_base :: "string \<Rightarrow> string" where
  "path_base s = rev (takeWhile (\<lambda>c. c \<noteq> CHR ''/'') (rev s))"

definition path_ext :: "string \<Rightarrow> string" where
  "path_ext s =
     (case last_index (CHR ''.'') (path_base s) of None \<Rightarrow> [] | Some i \<Rightarrow> drop i (path_base s))"

definition ui_path :: "request \<Rightarrow> string" where
  "ui_path q =
     (let clean = path_clean (trim_prefix (hq_path q) ''/'')
      in if clean = ''.'' \<or> clean = ''/'' then ''index.html'' else clean)"

text \<open>What the expression \<open>-[A-Z0-9]{8,}\.[a-z0-9]+$\<close> finds.\<close>

definition fingerprinted :: "string \<Rightarrow> bool" where
  "fingerprinted s \<longleftrightarrow>
     (let r = rev s;
          lower = (\<lambda>c. 97 \<le> byte c \<and> byte c \<le> 122 \<or> 48 \<le> byte c \<and> byte c \<le> 57);
          upper = (\<lambda>c. 65 \<le> byte c \<and> byte c \<le> 90 \<or> 48 \<le> byte c \<and> byte c \<le> 57);
          ext = takeWhile lower r;
          r' = dropWhile lower r;
          r'' = drop 1 r'
      in ext \<noteq> [] \<and> take 1 r' = ''.'' \<and> 8 \<le> length (takeWhile upper r'')
         \<and> take 1 (dropWhile upper r'') = ''-'')"

section \<open>Files\<close>

text \<open>\<open>fs.Stat\<close> refuses a name that is not a plain relative path.\<close>

definition fs_valid :: "string \<Rightarrow> bool" where
  "fs_valid name \<longleftrightarrow>
     valid_utf8 name
     \<and> (name = ''.'' \<or> list_all (\<lambda>p. p \<noteq> [] \<and> p \<noteq> ''.'' \<and> p \<noteq> ''..'') (split_on (CHR ''/'') name))"

definition ui_stat :: "ui \<Rightarrow> string \<Rightarrow> ui_entry option" where
  "ui_stat u name = (if fs_valid name then ui_file u name else None)"

text \<open>A directory has no tag. The cache of tags is left out: the files do not change.\<close>

definition etag_for :: "ui \<Rightarrow> string \<Rightarrow> string" where
  "etag_for u name =
     (case ui_stat u name of
        Some (UiFile content) \<Rightarrow>
          [CHR 0x22] @ b64_encode url_alphabet (take 16 (ui_hash u content)) @ [CHR 0x22]
      | _ \<Rightarrow> [])"

definition file_response :: "(string \<rightharpoonup> string) \<Rightarrow> string \<Rightarrow> response" where
  "file_response headers content =
     \<lparr>rs_status = 200, rs_headers = headers, rs_cookies = [], rs_body = FileBody content\<rparr>"

definition serve_content :: "request \<Rightarrow> (string \<rightharpoonup> string) \<Rightarrow> string \<Rightarrow> response" where
  "serve_content q headers content =
     (case headers ''ETag'' of
        Some tag \<Rightarrow>
          if hq_header q ''If-None-Match'' = tag
          then (file_response headers content)\<lparr>rs_status := 304, rs_body := NoBody\<rparr>
          else file_response headers content
      | None \<Rightarrow> file_response headers content)"

definition redirect :: "int \<Rightarrow> (string \<rightharpoonup> string) \<Rightarrow> string \<Rightarrow> response" where
  "redirect status headers location =
     \<lparr>rs_status = status, rs_headers = headers(''Location'' \<mapsto> location), rs_cookies = [], rs_body = NoBody\<rparr>"

text \<open>\<open>http.FileServer\<close>: one address per file and per directory, and a listing for a directory.\<close>

definition file_server :: "ui \<Rightarrow> request \<Rightarrow> (string \<rightharpoonup> string) \<Rightarrow> string \<Rightarrow> ui_entry \<Rightarrow> response" where
  "file_server u q headers name e =
     (let slashed = has_suffix (hq_path q) ''/'' in
      if has_suffix (hq_path q) ''/index.html'' then redirect 301 headers ''./''
      else case e of
        UiFile content \<Rightarrow>
          if slashed then redirect 301 headers (''../'' @ path_base name)
          else serve_content q headers content
      | UiDir \<Rightarrow>
          if \<not> slashed then redirect 301 headers (path_base name @ ''/'')
          else case ui_stat u (name @ ''/index.html'') of
            Some (UiFile content) \<Rightarrow> serve_content q headers content
          | _ \<Rightarrow> file_response headers (''directory '' @ name))"

definition serve_index :: "ui \<Rightarrow> request \<Rightarrow> response" where
  "serve_index u q =
     (case ui_stat u ''index.html'' of
        None \<Rightarrow> write_error 404 CodeNotFound ''frontend bundle is missing index.html''
      | Some UiDir \<Rightarrow> write_error 500 CodeInternal ''cannot read the frontend bundle''
      | Some (UiFile content) \<Rightarrow>
          serve_content q [''Cache-Control'' \<mapsto> ''no-cache'', ''Content-Type'' \<mapsto> ''text/html; charset=utf-8''] content)"

definition cache_headers :: "ui \<Rightarrow> string \<Rightarrow> (string \<rightharpoonup> string)" where
  "cache_headers u clean =
     (if fingerprinted clean then [''Cache-Control'' \<mapsto> ''public, max-age=31536000, immutable'']
      else
        let tag = etag_for u clean
        in if tag \<noteq> [] then [''Cache-Control'' \<mapsto> ''no-cache'', ''ETag'' \<mapsto> tag]
           else [''Cache-Control'' \<mapsto> ''no-cache''])"

definition handle_ui :: "web \<Rightarrow> handler" where
  "handle_ui w q =
     answer (case wb_ui w of
        None \<Rightarrow> write_error 404 CodeNotFound
          ''no frontend bundled in this build; run the Angular dev server and proxy /api here''
      | Some u \<Rightarrow>
          (let clean = ui_path q in
           case ui_stat u clean of
             None \<Rightarrow>
               if path_ext clean \<noteq> [] then write_error 404 CodeNotFound ''not found'' else serve_index u q
           | Some e \<Rightarrow>
               if clean = ''index.html'' then serve_index u q
               else file_server u q (cache_headers u clean) clean e))"

section \<open>Caching\<close>

text \<open>
  Only a file whose name carries a hash of its content is ever served as one that may be kept
  for ever. The index, an app route and every file that keeps its name from build to build are not.
\<close>
theorem only_hashed_names_kept:
  assumes "handle_ui w q s = (Inr r, s')"
    and "rs_headers r ''Cache-Control'' = Some ''public, max-age=31536000, immutable''"
  shows "fingerprinted (ui_path q) \<and> ui_path q \<noteq> ''index.html'' \<and> (\<exists>u. wb_ui w = Some u \<and> ui_stat u (ui_path q) \<noteq> None)"
proof -
  have idx: "rs_headers (serve_index u q) ''Cache-Control'' \<noteq> Some ''public, max-age=31536000, immutable''" for u
    by (auto simp: serve_index_def serve_content_def file_response_def write_error_def write_json_def
        split: option.splits ui_entry.splits)
  have fs: "rs_headers (file_server u q h n e) ''Cache-Control'' = h ''Cache-Control''" for u h n e
    by (simp add: file_server_def serve_content_def file_response_def redirect_def Let_def
        split: option.split ui_entry.split)
  from assms(1) obtain u where u: "wb_ui w = Some u"
    using assms(2) by (auto simp: handle_ui_def answer_def write_error_def write_json_def split: option.splits)
  show ?thesis
  proof (cases "ui_stat u (ui_path q)")
    case None
    with assms u idx [of u] show ?thesis
      by (auto simp: handle_ui_def answer_def write_error_def write_json_def Let_def split: if_splits)
  next
    case (Some e)
    with assms u idx [of u] have r: "ui_path q \<noteq> ''index.html''"
      "r = file_server u q (cache_headers u (ui_path q)) (ui_path q) e"
      by (auto simp: handle_ui_def answer_def Let_def split: if_splits)
    with assms(2) fs have "fingerprinted (ui_path q)"
      by (auto simp: cache_headers_def Let_def split: if_splits)
    with r(1) u Some show ?thesis by blast
  qed
qed

definition sample_ui :: ui where
  "sample_ui = \<lparr>ui_file = map_of [(''index.html'', UiFile ''app''), (''main-3X6UOOBT.js'', UiFile ''code''),
     (''i18n'', UiDir), (''i18n/de.json'', UiFile ''texts'')], ui_hash = id\<rparr>"

definition sample_ui_web :: web where
  "sample_ui_web = \<lparr>wb_cfg = sample_config, wb_client = new_client [] [] 0, wb_provider = MySQLProvider,
     wb_ui = Some sample_ui, wb_version = ''dev''\<rparr>"

lemma only_hashed_names_kept_witness:
  "fingerprinted (ui_path ((sample_request [])\<lparr>hq_path := ''/main-3X6UOOBT.js''\<rparr>))"
proof -
  let ?q = "(sample_request [])\<lparr>hq_path := ''/main-3X6UOOBT.js''\<rparr>"
  have "(case wb_ui sample_ui_web of Some u \<Rightarrow> ui_stat u (ui_path ?q) = Some (UiFile ''code'')
      \<and> ui_path ?q \<noteq> ''index.html'' | None \<Rightarrow> False)" by code_simp
  moreover have "wb_ui sample_ui_web = Some sample_ui" by (simp add: sample_ui_web_def)
  ultimately have st: "ui_stat sample_ui (ui_path ?q) = Some (UiFile ''code'')" "ui_path ?q \<noteq> ''index.html''"
    by auto
  have "rs_headers (file_server sample_ui ?q (cache_headers sample_ui (ui_path ?q)) (ui_path ?q) (UiFile ''code''))
      ''Cache-Control'' = Some ''public, max-age=31536000, immutable''" by code_simp
  moreover have "handle_ui sample_ui_web ?q s = (Inr (file_server sample_ui ?q
      (cache_headers sample_ui (ui_path ?q)) (ui_path ?q) (UiFile ''code'')), s)" for s
    using st \<open>wb_ui sample_ui_web = Some sample_ui\<close> by (simp add: handle_ui_def answer_def Let_def)
  ultimately show ?thesis using only_hashed_names_kept by blast
qed

text \<open>
  An app route whose last part has a dot counts as a missing file, so the page of a host with a
  qualified name cannot be opened by its address.
\<close>

lemma dotted_host_page_missing:
  assumes "wb_ui w = Some u" and "hq_path q = ''/hosts/web.example.com''"
    and "ui_file u ''hosts/web.example.com'' = None"
  shows "handle_ui w q s = (Inr (write_error 404 CodeNotFound ''not found''), s)"
proof -
  have p: "path_clean (trim_prefix ''/hosts/web.example.com'' ''/'') = ''hosts/web.example.com''"
    "path_ext ''hosts/web.example.com'' \<noteq> []" by code_simp+
  with assms show ?thesis
    by (simp add: handle_ui_def answer_def ui_path_def ui_stat_def Let_def)
qed

end
