(* ===== verification/Server.thy ===== *)
theory Server
  imports CommandHandlers ListHandlers SessionHandlers WebUi
begin

text \<open>
  The server (\<^verbatim>\<open>internal/httpapi/server.go\<close>): the table of routes with the permission each one
  needs, what stands in front of every handler, and the request from the socket to the answer.
\<close>

section \<open>Routes\<close>

datatype endpoint =
    Healthz | Readyz | Meta | Login | LoginDemo | Logout | Me
  | SummaryOf | ListHosts | HostNames | GetHost | ListServices | GetService | ListProblems
  | ListDowntimes | DowntimeHistory | ListAcks | ListLog
  | HistoryChecks | HistoryStates | HistoryNotifications | MetricLabels | MetricSeries
  | CmdAcknowledge | CmdRemoveAck | CmdDowntime | CmdDeleteDowntime | CmdReschedule
  | CmdSubmitResult | CmdNotify | CmdToggle | AuditOf | EventStream

datatype access = Open | Authed string | Commanding string

text \<open>A part of a pattern: a literal or a wildcard, which stands for one part that is not empty.\<close>

datatype part = Seg string | Wild string

type_synonym route = "string \<times> part list \<times> access \<times> endpoint"

definition at_path :: "string \<Rightarrow> part list" where
  "at_path p = map Seg (split_on (CHR ''/'') (''api/v1/'' @ p))"

definition routes :: "route list" where
  "routes =
     [(''GET'', at_path ''healthz'', Open, Healthz),
      (''GET'', at_path ''readyz'', Open, Readyz),
      (''GET'', at_path ''meta'', Open, Meta),
      (''POST'', at_path ''auth/login'', Open, Login),
      (''POST'', at_path ''auth/login/demo'', Open, LoginDemo),
      (''POST'', at_path ''auth/logout'', Open, Logout),
      (''GET'', at_path ''auth/me'', Authed [], Me),
      (''GET'', at_path ''summary'', Authed PermHostsRead, SummaryOf),
      (''GET'', at_path ''hosts'', Authed PermHostsRead, ListHosts),
      (''GET'', at_path ''hosts/names'', Authed PermHostsRead, HostNames),
      (''GET'', at_path ''hosts'' @ [Wild ''host''], Authed PermHostsRead, GetHost),
      (''GET'', at_path ''hosts'' @ [Wild ''host'', Seg ''services''], Authed PermServicesRead, ListServices),
      (''GET'', at_path ''services'', Authed PermServicesRead, ListServices),
      (''GET'', at_path ''service'', Authed PermServicesRead, GetService),
      (''GET'', at_path ''problems'', Authed PermProblemsRead, ListProblems),
      (''GET'', at_path ''downtimes'', Authed PermDowntimesRead, ListDowntimes),
      (''GET'', at_path ''downtimes/history'', Authed PermDowntimesRead, DowntimeHistory),
      (''GET'', at_path ''acknowledgements'', Authed PermAcksRead, ListAcks),
      (''GET'', at_path ''logentries'', Authed PermLogEntriesRead, ListLog),
      (''GET'', at_path ''history/checks'', Authed PermHistoryRead, HistoryChecks),
      (''GET'', at_path ''history/statechanges'', Authed PermHistoryRead, HistoryStates),
      (''GET'', at_path ''history/notifications'', Authed PermHistoryRead, HistoryNotifications),
      (''GET'', at_path ''metrics/labels'', Authed PermMetricsRead, MetricLabels),
      (''GET'', at_path ''metrics/series'', Authed PermMetricsRead, MetricSeries),
      (''POST'', at_path ''commands/acknowledge'', Commanding PermCmdAcknowledge, CmdAcknowledge),
      (''POST'', at_path ''commands/remove-acknowledgement'', Commanding PermCmdAcknowledge, CmdRemoveAck),
      (''POST'', at_path ''commands/downtime'', Commanding PermCmdDowntime, CmdDowntime),
      (''POST'', at_path ''commands/downtime/delete'', Commanding PermCmdDowntime, CmdDeleteDowntime),
      (''POST'', at_path ''commands/reschedule'', Commanding PermCmdReschedule, CmdReschedule),
      (''POST'', at_path ''commands/submit-result'', Commanding PermCmdPassiveResult, CmdSubmitResult),
      (''POST'', at_path ''commands/notify'', Commanding PermCmdNotification, CmdNotify),
      (''POST'', at_path ''commands/toggle'', Commanding PermCmdToggle, CmdToggle),
      (''GET'', at_path ''commands/audit'', Authed PermAuditRead, AuditOf),
      (''GET'', at_path ''events'', Authed [], EventStream)]"

text \<open>
  \<open>http.ServeMux\<close>: a GET pattern takes HEAD as well, and where two patterns match, the one with a
  literal for a wildcard goes first, as in the table.
\<close>

fun match_parts :: "part list \<Rightarrow> string list \<Rightarrow> (string \<times> string) list option" where
  "match_parts [] [] = Some []"
| "match_parts (Seg p # ps) (s # ss) = (if p = s then match_parts ps ss else None)"
| "match_parts (Wild n # ps) (s # ss) =
     (if s = [] then None else map_option (\<lambda>b. (n, s) # b) (match_parts ps ss))"
| "match_parts _ _ = None"

definition takes_method :: "string \<Rightarrow> string \<Rightarrow> bool" where
  "takes_method pattern method \<longleftrightarrow> method = pattern \<or> pattern = ''GET'' \<and> method = ''HEAD''"

definition route_matches :: "request \<Rightarrow> route \<Rightarrow> bool" where
  "route_matches q r =
     (case r of (m, ps, _, _) \<Rightarrow> takes_method m (hq_method q) \<and> match_parts ps (hq_segments q) \<noteq> None)"

definition find_route :: "request \<Rightarrow> route option" where
  "find_route q = find (route_matches q) routes"

definition path_values :: "part list \<Rightarrow> request \<Rightarrow> string \<Rightarrow> string" where
  "path_values ps q n =
     (case match_parts ps (hq_segments q) of
        None \<Rightarrow> []
      | Some b \<Rightarrow> (case map_of b n of None \<Rightarrow> [] | Some v \<Rightarrow> v))"

section \<open>Handlers\<close>

definition plain_answer :: "int \<Rightarrow> (string \<rightharpoonup> string) \<Rightarrow> string \<Rightarrow> response" where
  "plain_answer status headers t =
     \<lparr>rs_status = status,
      rs_headers = headers(''Content-Type'' \<mapsto> ''text/plain; charset=utf-8'', ''X-Content-Type-Options'' \<mapsto> ''nosniff''),
      rs_cookies = [], rs_body = FileBody t\<rparr>"

definition stream_headers :: "string \<rightharpoonup> string" where
  "stream_headers =
     [''Content-Type'' \<mapsto> ''text/event-stream; charset=utf-8'',
      ''Cache-Control'' \<mapsto> ''no-cache, no-transform'',
      ''Connection'' \<mapsto> ''keep-alive'',
      ''X-Accel-Buffering'' \<mapsto> ''no'']"

definition handle_events :: "web \<Rightarrow> http_env \<Rightarrow> handler" where
  "handle_events w env q s =
     (case st_hub s of
        None \<Rightarrow>
          (Inr (write_error 501 CodeUnavailable
             ''live updates are switched off; set worker_events_key to enable them''), s)
      | Some h \<Rightarrow>
          (case serve_sse (fst (ht_encoders env)) (snd (ht_encoders env)) (unix (ht_clock env AtHandler))
                  (ht_stream env) h of
             (Inl status, h') \<Rightarrow>
               (Inr (plain_answer status Map.empty ''the event stream is at capacity; poll instead''),
                s\<lparr>st_hub := Some h'\<rparr>)
           | (Inr text, h') \<Rightarrow>
               (Inr \<lparr>rs_status = 200, rs_headers = stream_headers, rs_cookies = [], rs_body = StreamBody text\<rparr>,
                s\<lparr>st_hub := Some h'\<rparr>)))"

fun endpoint_handler :: "web \<Rightarrow> http_env \<Rightarrow> endpoint \<Rightarrow> handler" where
  "endpoint_handler w env Healthz = handle_healthz"
| "endpoint_handler w env Readyz = handle_readyz w env"
| "endpoint_handler w env Meta = handle_meta w"
| "endpoint_handler w env Login = handle_login w env"
| "endpoint_handler w env LoginDemo = handle_login_demo w env"
| "endpoint_handler w env Logout = handle_logout w env"
| "endpoint_handler w env Me = handle_me w env"
| "endpoint_handler w env SummaryOf = handle_summary w env"
| "endpoint_handler w env ListHosts = handle_list_hosts w env"
| "endpoint_handler w env HostNames = handle_list_host_names w env"
| "endpoint_handler w env GetHost = handle_get_host w env"
| "endpoint_handler w env ListServices = handle_list_services w env"
| "endpoint_handler w env GetService = handle_get_service w env"
| "endpoint_handler w env ListProblems = handle_list_problems w env"
| "endpoint_handler w env ListDowntimes = handle_list_downtimes w env"
| "endpoint_handler w env DowntimeHistory = handle_list_downtime_history w env"
| "endpoint_handler w env ListAcks = handle_list_acknowledgements w env"
| "endpoint_handler w env ListLog = handle_list_log_entries w env"
| "endpoint_handler w env HistoryChecks = handle_history_checks w env"
| "endpoint_handler w env HistoryStates = handle_history_state_changes w env"
| "endpoint_handler w env HistoryNotifications = handle_history_notifications w env"
| "endpoint_handler w env MetricLabels = handle_metric_labels w env"
| "endpoint_handler w env MetricSeries = handle_metric_series w env"
| "endpoint_handler w env CmdAcknowledge = handle_acknowledge w env"
| "endpoint_handler w env CmdRemoveAck = handle_remove_acknowledgement w env"
| "endpoint_handler w env CmdDowntime = handle_schedule_downtime w env"
| "endpoint_handler w env CmdDeleteDowntime = handle_delete_downtime w env"
| "endpoint_handler w env CmdReschedule = handle_reschedule w env"
| "endpoint_handler w env CmdSubmitResult = handle_submit_result w env"
| "endpoint_handler w env CmdNotify = handle_notify w env"
| "endpoint_handler w env CmdToggle = handle_toggle w env"
| "endpoint_handler w env AuditOf = handle_list_audit w env"
| "endpoint_handler w env EventStream = handle_events w env"

fun guarded :: "web \<Rightarrow> http_env \<Rightarrow> access \<Rightarrow> handler \<Rightarrow> handler" where
  "guarded w env Open h = h"
| "guarded w env (Authed perm) h =
     (if perm = [] then chain h [auth_middleware w env]
      else chain h [auth_middleware w env, require_permission perm])"
| "guarded w env (Commanding perm) h =
     chain h [auth_middleware w env, require_permission perm, command_rate_limit w env]"

text \<open>The methods a path answers to, as the answer to any other names them.\<close>

definition allowed_methods :: "request \<Rightarrow> string list" where
  "allowed_methods q =
     filter (\<lambda>m. list_ex (\<lambda>(p, ps, _). takes_method p m \<and> match_parts ps (hq_segments q) \<noteq> None) routes)
       [''GET'', ''HEAD'', ''POST'']"

definition no_route :: "request \<Rightarrow> response" where
  "no_route q =
     (if allowed_methods q \<noteq> []
      then plain_answer 405 [''Allow'' \<mapsto> join '', '' (allowed_methods q)] ''Method Not Allowed''
      else plain_answer 404 Map.empty ''404 page not found'')"

definition api :: "web \<Rightarrow> http_env \<Rightarrow> handler" where
  "api w env q =
     (case find_route q of
        None \<Rightarrow> answer (no_route q)
      | Some (m, ps, acc, e) \<Rightarrow>
          guarded w env acc (endpoint_handler w env e) (q\<lparr>hq_path_value := path_values ps q\<rparr>))"

text \<open>The outer mux cleans the path first; \<open>/api\<close> without the slash is sent on to it.\<close>

definition unclean :: "string list \<Rightarrow> bool" where
  "unclean ss \<longleftrightarrow> list_ex (\<lambda>s. s = ''.'' \<or> s = ''..'') ss \<or> list_ex (\<lambda>s. s = []) (butlast ss)"

definition clean_location :: "request \<Rightarrow> string" where
  "clean_location q =
     (let p = path_clean (''/'' @ hq_path q)
      in if has_suffix (hq_path q) ''/'' \<and> p \<noteq> ''/'' then p @ ''/'' else p)"

definition root :: "web \<Rightarrow> http_env \<Rightarrow> handler" where
  "root w env q =
     (if unclean (hq_segments q) then answer (redirect 307 Map.empty (clean_location q))
      else if hq_segments q = [''api''] then answer (redirect 307 Map.empty ''/api/'')
      else if hd (hq_segments q) = ''api'' then api w env q
      else handle_ui w q)"

definition is_streaming_request :: "request \<Rightarrow> bool" where
  "is_streaming_request q \<longleftrightarrow> hq_path q = ''/api/v1/events''"

definition serve :: "web \<Rightarrow> http_env \<Rightarrow> handler" where
  "serve w env =
     chain (root w env)
       [request_id_middleware env, logging_middleware env, recover_middleware,
        security_headers_middleware w, timeout_middleware (cf_query_timeout (wb_cfg w)) is_streaming_request]"

section \<open>Starting\<close>

definition new_metrics_provider :: "config \<Rightarrow> provider" where
  "new_metrics_provider c =
     (if cf_metrics_provider c = ''graphite''
      then GraphiteProvider (new_graphite (cf_graphite_url c) (cf_graphite_prefix c))
      else MySQLProvider)"

definition new_web :: "config \<Rightarrow> ui option \<Rightarrow> string \<Rightarrow> web" where
  "new_web c u version =
     \<lparr>wb_cfg = c,
      wb_client = new_client (cf_worker_command_url c) (cf_worker_command_key c) (cf_worker_timeout c),
      wb_provider = new_metrics_provider c, wb_ui = u, wb_version = version\<rparr>"

definition new_site :: "config \<Rightarrow> service \<Rightarrow> wire \<Rightarrow> audit_db \<Rightarrow> hub option \<Rightarrow> site" where
  "new_site c sv wr ad h =
     \<lparr>st_auth = sv, st_limits = new_command_limiter (cf_command_rate_limit c) (cf_demo_command_rate_limit c),
      st_wire = wr, st_audit = ad, st_hub = h, st_log = []\<rparr>"

end
