(* ===== verification/ServerSafety.thy ===== *)
theory ServerSafety
  imports Server
begin

text \<open>
  What holds of every request to the server, whatever its route: it is answered, it keeps the
  invariant of the site, and a command gets to the worker only for a caller who may send it, with
  a trace in the audit.
\<close>

section \<open>Handlers\<close>

definition is_command :: "endpoint \<Rightarrow> bool" where
  "is_command e \<longleftrightarrow>
     e \<in> set [CmdAcknowledge, CmdRemoveAck, CmdDowntime, CmdDeleteDowntime, CmdReschedule, CmdSubmitResult,
              CmdNotify, CmdToggle]"

lemma command_routes:
  "(m, ps, acc, e) \<in> set routes \<Longrightarrow> is_command e \<longleftrightarrow> (\<exists>perm. acc = Commanding perm)"
  by (auto simp: routes_def is_command_def)

lemma at_path_eq: "at_path p = Seg ''api'' # Seg ''v1'' # map Seg (split_on (CHR ''/'') p)"
  using split_on_append [of "CHR ''/''" "''v1''" p] split_on_append [of "CHR ''/''" "''api''" "''v1/'' @ p"]
  by (simp add: at_path_def)

lemma route_parts: "(m, ps, acc, e) \<in> set routes \<Longrightarrow> \<exists>ps'. ps = Seg ''api'' # Seg ''v1'' # ps'"
  by (auto simp: routes_def at_path_eq)

lemma match_api:
  "match_parts (Seg a # Seg b # ps) ss = Some v \<Longrightarrow> hd ss = a \<and> ss \<noteq> [a]"
  by (cases ss; cases "tl ss") (auto split: if_splits)

lemma find_route_in: "find_route q = Some r \<Longrightarrow> r \<in> set routes"
  by (auto simp: find_route_def find_Some_iff)

lemma command_endpoint:
  "is_command e \<Longrightarrow> endpoint_handler w env e q s = (r, s') \<Longrightarrow> command_outcome w env q s r s'"
  by (cases e) (auto simp: is_command_def intro: acknowledge_outcome remove_ack_outcome
      schedule_downtime_outcome delete_downtime_outcome reschedule_outcome submit_result_outcome
      notify_outcome toggle_outcome)

lemma keeps_record_commands:
  assumes "site_inv a s"
  shows "site_inv a (record_commands w env q action targets payload status message s)"
  using assms keeps_on_audit [OF keeps_record_batch, of a]
  by (auto simp: record_commands_def keeps_def)

lemma command_outcome_keeps: "command_outcome w env q s r s' \<Longrightarrow> site_inv a s \<Longrightarrow> site_inv a s'"
  unfolding command_outcome_def
  by (auto dest!: submit_outcome intro!: keeps_record_commands simp: site_inv_def [of _ "_\<lparr>st_wire := _\<rparr>"])
    (auto simp: site_inv_def)

text \<open>
  A property of the site that the operations on accounts, the reading of the audit and the event
  stream keep.
\<close>

definition services_keep :: "http_env \<Rightarrow> (site \<Rightarrow> bool) \<Rightarrow> bool" where
  "services_keep env P \<longleftrightarrow>
     (\<forall>now rnd u p ua ip. keeps P (on_auth (login (ht_auth env) now rnd u p ua ip)))
     \<and> (\<forall>now rnd ua ip. keeps P (on_auth (login_demo (ht_auth env) now rnd ua ip)))
     \<and> (\<forall>tok. keeps P (on_auth (logout (ht_auth env) tok)))
     \<and> (\<forall>now tok. keeps P (on_auth (authenticate (ht_auth env) now tok)))
     \<and> (\<forall>cl rd f p. keeps P (on_audit (audit_list cl rd f p)))
     \<and> (\<forall>w q. keeps P (handle_events w env q))"

lemma services_keepD:
  assumes "services_keep env P"
  shows "keeps P (on_auth (login (ht_auth env) now rnd u p ua ip))"
    "keeps P (on_auth (login_demo (ht_auth env) now rnd ua ip))"
    "keeps P (on_auth (logout (ht_auth env) tok))"
    "keeps P (on_auth (authenticate (ht_auth env) now tok))"
    "keeps P (on_audit (audit_list cl rd f pg))"
    "keeps P (handle_events w env q)"
  using assms unfolding services_keep_def by blast+

lemma serve_sse_inv: "hub_inv h \<Longrightarrow> hub_inv (snd (serve_sse eb el now inputs h))"
  using subscribe_inv [of h] by (auto simp: serve_sse_def intro!: close_inv release_inv split: option.splits prod.splits)

lemma handle_events_state:
  "\<exists>hb. snd (handle_events w env q s) = s\<lparr>st_hub := hb\<rparr>
     \<and> (pred_option hub_inv (st_hub s) \<longrightarrow> pred_option hub_inv hb)"
proof (cases "st_hub s")
  case None
  then show ?thesis by (intro exI [of _ "st_hub s"]) (simp add: handle_events_def)
next
  case (Some h)
  obtain x h' where x: "serve_sse (fst (ht_encoders env)) (snd (ht_encoders env))
      (unix (ht_clock env AtHandler)) (ht_stream env) h = (x, h')" by fastforce
  then have "hub_inv h \<Longrightarrow> hub_inv h'" by (metis serve_sse_inv snd_conv)
  with Some x show ?thesis
    by (intro exI [of _ "Some h'"]) (simp add: handle_events_def split: sum.splits)
qed

lemma keeps_handle_events:
  "keeps (site_inv a) (handle_events w env q)" "keeps (\<lambda>s. st_wire s = wr) (handle_events w env q)"
proof -
  show "keeps (site_inv a) (handle_events w env q)"
  proof (rule keepsI)
    fix s
    assume "site_inv a s"
    with handle_events_state [of w env q s] show "site_inv a (snd (handle_events w env q s))"
      by (auto simp: site_inv_def)
  qed
  show "keeps (\<lambda>s. st_wire s = wr) (handle_events w env q)"
  proof (rule keepsI)
    fix s :: site
    assume "st_wire s = wr"
    with handle_events_state [of w env q s] show "st_wire (snd (handle_events w env q s)) = wr" by auto
  qed
qed

lemma services_keep_inv: "services_keep env (site_inv (ht_auth env))"
  unfolding services_keep_def by (intro allI conjI keeps_intros keeps_handle_events)

lemma services_keep_wire: "services_keep env (\<lambda>s. st_wire s = wr)"
  unfolding services_keep_def by (intro allI conjI keeps_wire keeps_handle_events)

lemma keeps_logged_in: "keeps P (logged_in w env token i)"
  by (simp add: keeps_def logged_in_def answer_def)

lemma keeps_handle_login: "services_keep env P \<Longrightarrow> keeps P (handle_login w env q)"
  unfolding handle_login_def
  by (auto intro!: keeps_intros keeps_logged_in services_keepD split: sum.splits prod.splits)

lemma keeps_handle_login_demo: "services_keep env P \<Longrightarrow> keeps P (handle_login_demo w env q)"
  unfolding handle_login_demo_def
  by (auto intro!: keeps_intros keeps_logged_in services_keepD split: sum.splits prod.splits)

lemma keeps_handle_logout: "services_keep env P \<Longrightarrow> keeps P (handle_logout w env q)"
  unfolding handle_logout_def Let_def by (auto intro!: keeps_intros services_keepD split: option.splits)

lemma keeps_handle_me: "keeps P (handle_me w env q)"
  by (simp add: keeps_def handle_me_def answer_def split: option.splits)

lemma keeps_handle_list_audit: "services_keep env P \<Longrightarrow> keeps P (handle_list_audit w env q)"
  unfolding handle_list_audit_def Let_def
  by (auto intro!: keeps_intros services_keepD split: sum.splits prod.splits)

lemmas plain_handlers =
  handle_healthz_def handle_readyz_def handle_meta_def handle_summary_def handle_list_hosts_def
  handle_list_host_names_def handle_get_host_def handle_list_services_def handle_get_service_def
  handle_list_problems_def handle_list_downtimes_def handle_list_downtime_history_def
  handle_list_acknowledgements_def handle_list_log_entries_def handle_history_checks_def
  handle_history_state_changes_def handle_history_notifications_def handle_metric_labels_def
  handle_metric_series_def

lemma plain_endpoint_keeps:
  assumes "services_keep env P" and "\<not> is_command e"
  shows "keeps P (endpoint_handler w env e q)"
  using assms(2)
  by (cases e) (auto simp: is_command_def plain_handlers simp del: or_fail_def
      intro: keeps_answer keeps_handle_login keeps_handle_login_demo keeps_handle_logout keeps_handle_me
        keeps_handle_list_audit services_keepD assms(1))

section \<open>Routes\<close>

lemma chain_simps [simp]: "chain h [] = h" "chain h (m # ms) = m (chain h ms)"
  by (simp_all add: chain_def)

text \<open>The request a handler sees differs from the one that came in by what the middleware adds.\<close>

definition same_request :: "request \<Rightarrow> request \<Rightarrow> bool" where
  "same_request q q' \<longleftrightarrow>
     hq_method q' = hq_method q \<and> hq_path q' = hq_path q \<and> hq_segments q' = hq_segments q
     \<and> hq_query q' = hq_query q \<and> hq_header q' = hq_header q \<and> hq_cookies q' = hq_cookies q
     \<and> hq_remote_addr q' = hq_remote_addr q \<and> hq_body q' = hq_body q"

lemma same_request_refl [simp]: "same_request q q"
  by (simp add: same_request_def)

lemma same_request_trans: "same_request q q' \<Longrightarrow> same_request q' q'' \<Longrightarrow> same_request q q''"
  by (simp add: same_request_def)

lemma same_request_add [simp]:
  "same_request q (q'\<lparr>hq_request_id := i\<rparr>) = same_request q q'"
  "same_request q (q'\<lparr>hq_deadline := d\<rparr>) = same_request q q'"
  "same_request q (q'\<lparr>hq_path_value := v\<rparr>) = same_request q q'"
  "same_request q (q'\<lparr>hq_identity := ident\<rparr>) = same_request q q'"
  by (simp_all add: same_request_def)

lemma same_request_find:
  assumes "same_request q q'"
  shows "find_cookie n q' = find_cookie n q" "find_route q' = find_route q"
    "client_ip env q' = client_ip env q"
proof -
  have "route_matches q' = route_matches q"
    using assms by (auto simp: same_request_def route_matches_def)
  then show "find_cookie n q' = find_cookie n q" "find_route q' = find_route q"
    using assms by (simp_all add: same_request_def find_cookie_def find_route_def)
  from assms have same: "hq_remote_addr q' = hq_remote_addr q" "hq_header q' = hq_header q"
    by (simp_all add: same_request_def)
  show "client_ip env q' = client_ip env q"
    unfolding client_ip_def same ..
qed

lemma guarded_keeps:
  assumes "services_keep env P"
    and "\<And>q'. keeps P (h q')"
    and "\<And>q s l. P s \<Longrightarrow> st_limits s = Some l \<Longrightarrow>
      P (s\<lparr>st_limits := Some (snd (charge (caller_is_demo w q) (budget_key env q) (ht_clock env) l))\<rparr>)"
  shows "keeps P (guarded w env acc h q)"
  using assms(2,3)
  by (cases acc) (auto intro!: keeps_auth_middleware keeps_require_permission keeps_command_rate_limit
      services_keepD [OF assms(1)])

lemma serve_keeps:
  assumes "unlogged P" and "\<And>q'. keeps P (root w env q')"
  shows "keeps P (serve w env q)"
  unfolding serve_def chain_simps
  by (intro keeps_request_id keeps_logging keeps_recover keeps_security keeps_timeout assms)

lemma root_keeps:
  assumes "\<And>q'. keeps P (api w env q')"
  shows "keeps P (root w env q)"
  using assms by (auto simp: root_def handle_ui_def intro: keeps_answer)

lemma api_keeps:
  assumes "\<And>q' m ps acc e. find_route q = Some (m, ps, acc, e) \<Longrightarrow> keeps P (guarded w env acc (endpoint_handler w env e) q')"
  shows "keeps P (api w env q)"
  using assms by (auto simp: api_def intro!: keeps_answer split: option.splits)

subsection \<open>The invariant\<close>

lemma charged_inv:
  "site_inv a s \<Longrightarrow> st_limits s = Some l \<Longrightarrow> site_inv a (s\<lparr>st_limits := Some (snd (charge demo key clock l))\<rparr>)"
  by (simp add: site_inv_def charge_inv)

lemma endpoint_keeps_inv: "keeps (site_inv (ht_auth env)) (endpoint_handler w env e q)"
proof (cases "is_command e")
  case True
  show ?thesis
  proof (rule keepsI)
    fix s
    assume i: "site_inv (ht_auth env) s"
    obtain r s' where r: "endpoint_handler w env e q s = (r, s')" by fastforce
    with command_outcome_keeps [OF command_endpoint [OF True r] i]
    show "site_inv (ht_auth env) (snd (endpoint_handler w env e q s))" by simp
  qed
qed (rule plain_endpoint_keeps [OF services_keep_inv])

lemma serve_keeps_inv: "keeps (site_inv (ht_auth env)) (serve w env q)"
  by (intro serve_keeps root_keeps api_keeps guarded_keeps services_keep_inv endpoint_keeps_inv
      charged_inv unlogged_simps)

subsection \<open>One request, from the outside in\<close>

lemma then_headers_cases:
  assumes "h s = (r0, s0)"
  shows "\<exists>r. then_headers m h s = (r, s0)
    \<and> (\<forall>resp0. r0 = Inr resp0 \<longrightarrow> r = Inr (with_headers m resp0))"
  using assms by (auto simp: then_headers_def attempt_def split: sum.splits panic.splits)

lemma with_headers_sel [simp]:
  "rs_status (with_headers m resp) = rs_status resp" "rs_body (with_headers m resp) = rs_body resp"
  "rs_cookies (with_headers m resp) = rs_cookies resp"
  "rs_headers (with_headers m resp) = m ++ rs_headers resp"
  by (simp_all add: with_headers_def)

text \<open>
  Whatever the outermost handler answers reaches the client with the standing headers and one line
  in the log.
\<close>

definition answered ::
  "web \<Rightarrow> http_env \<Rightarrow> request \<Rightarrow> site \<Rightarrow> response \<Rightarrow> panic + response \<Rightarrow> site \<Rightarrow> bool" where
  "answered w env q s0 resp0 r s' \<longleftrightarrow>
     (\<exists>id resp. r = Inr resp
        \<and> resp = with_headers [''X-Request-Id'' \<mapsto> id] (with_headers (security_headers (wb_cfg w)) resp0)
        \<and> s' = add_log (LogRequest (log_level_of (logged_status resp0)) (hq_method q) (hq_path q)
                  (logged_status resp0) (client_ip env q)) s0)"

lemma serve_inner:
  assumes "serve w env q s = (r, s')"
  shows "\<exists>q' r0 s0. same_request q q' \<and> root w env q' s = (r0, s0) \<and> (\<exists>l. s' = s0\<lparr>st_log := l\<rparr>)
    \<and> (\<forall>resp0. r0 = Inr resp0 \<longrightarrow> answered w env q s0 resp0 r s')"
proof -
  define id where "id = (let given = hq_header q ''X-Request-Id'' in
    if given = [] \<or> length given > 64
    then (case ht_request_id env of Some h \<Rightarrow> h | None \<Rightarrow> given) else given)"
  define q1 where "q1 = q\<lparr>hq_request_id := id\<rparr>"
  define q2 where "q2 = (if cf_query_timeout (wb_cfg w) \<le> 0 \<or> is_streaming_request q1 then q1
    else q1\<lparr>hq_deadline := Some (cf_query_timeout (wb_cfg w))\<rparr>)"
  have sm: "same_request q q2" by (simp add: q2_def q1_def)
  obtain r0 s0 where r0: "root w env q2 s = (r0, s0)" by fastforce
  have t: "timeout_middleware (cf_query_timeout (wb_cfg w)) is_streaming_request (root w env) q1 s = (r0, s0)"
    using r0 by (auto simp: timeout_middleware_def q2_def split: if_splits)
  obtain r1 where sec: "security_headers_middleware w
      (timeout_middleware (cf_query_timeout (wb_cfg w)) is_streaming_request (root w env)) q1 s = (r1, s0)"
    and r1: "\<And>resp0. r0 = Inr resp0 \<Longrightarrow> r1 = Inr (with_headers (security_headers (wb_cfg w)) resp0)"
    using then_headers_cases [where s = s and m = "security_headers (wb_cfg w)"
        and h = "timeout_middleware (cf_query_timeout (wb_cfg w)) is_streaming_request (root w env) q1", OF t] by (auto simp: security_headers_middleware_def)
  let ?inner = "logging_middleware env (recover_middleware (security_headers_middleware w
    (timeout_middleware (cf_query_timeout (wb_cfg w)) is_streaming_request (root w env)))) q1"
  have "serve w env q = then_headers [''X-Request-Id'' \<mapsto> id] ?inner"
    by (simp only: serve_def chain_simps request_id_middleware_def id_def q1_def Let_def)
  with assms have out: "then_headers [''X-Request-Id'' \<mapsto> id] ?inner s = (r, s')" by simp
  have ip: "client_ip env q1 = client_ip env q"
    by (rule same_request_find) (simp add: q1_def)
  show ?thesis
  proof (cases r1)
    case (Inl p)
    then have none: "\<nexists>resp0. r0 = Inr resp0" using r1 by auto
    have "\<exists>x l. ?inner s = (x, s0\<lparr>st_log := l\<rparr>)"
    proof (cases p)
      case AbortHandler
      with Inl sec show ?thesis
        by (intro exI [of _ "Inl AbortHandler"] exI [of _ "st_log s0"])
          (simp add: logging_middleware_def recover_middleware_def attempt_def bind_step_def)
    next
      case (PanicWith why m)
      with Inl sec show ?thesis
        by (simp add: logging_middleware_def recover_middleware_def attempt_def bind_step_def add_log_def)
          (rule exI, rule refl)
    qed
    then obtain x l where "?inner s = (x, s0\<lparr>st_log := l\<rparr>)" by blast
    from then_headers_cases [where m = "[''X-Request-Id'' \<mapsto> id]" and h = ?inner, OF this] out
    have "s' = s0\<lparr>st_log := l\<rparr>" by auto
    then have "\<exists>l. s' = s0\<lparr>st_log := l\<rparr>" by blast
    with none sm r0 show ?thesis by blast
  next
    case (Inr resp1)
    have "?inner s = (Inr resp1, add_log (LogRequest (log_level_of (logged_status resp1)) (hq_method q)
        (hq_path q) (logged_status resp1) (client_ip env q)) s0)"
      using sec Inr ip by (simp add: logging_middleware_def recover_middleware_def attempt_def bind_step_def q1_def)
    from then_headers_cases [where m = "[''X-Request-Id'' \<mapsto> id]" and h = ?inner, OF this] out
    have "r = Inr (with_headers [''X-Request-Id'' \<mapsto> id] resp1)"
      "s' = add_log (LogRequest (log_level_of (logged_status resp1)) (hq_method q) (hq_path q)
                  (logged_status resp1) (client_ip env q)) s0"
      by auto
    moreover have "resp1 = with_headers (security_headers (wb_cfg w)) resp0" if "r0 = Inr resp0" for resp0
      using r1 [OF that] Inr by simp
    ultimately have "\<exists>l. s' = s0\<lparr>st_log := l\<rparr>"
        "\<forall>resp0. r0 = Inr resp0 \<longrightarrow> answered w env q s0 resp0 r s'"
      by (auto simp: answered_def add_log_def logged_status_def)
    with sm r0 show ?thesis by blast
  qed
qed

lemma root_cases:
  assumes "root w env q s = (r, s')"
  obtains "s' = s" "\<exists>resp. r = Inr resp" | "api w env q s = (r, s')"
  using assms by (auto simp: root_def handle_ui_def answer_def split: if_splits)

lemma api_cases:
  assumes "api w env q s = (r, s')"
  obtains "s' = s" "\<exists>resp. r = Inr resp"
  | m ps acc e q' where "find_route q = Some (m, ps, acc, e)" "same_request q q'"
      "guarded w env acc (endpoint_handler w env e) q' s = (r, s')"
proof (cases "find_route q")
  case None
  with assms that(1) show thesis by (auto simp: api_def answer_def)
next
  case (Some rt)
  obtain m ps acc e where "rt = (m, ps, acc, e)" by (cases rt)
  with Some assms show thesis
    by (intro that(2) [of m ps acc e "q\<lparr>hq_path_value := path_values ps q\<rparr>"]) (simp_all add: api_def)
qed

lemma permission_cases:
  assumes "require_permission perm h q s = (r, s')" and "hq_identity q = Some ident"
  obtains "s' = s" "\<exists>resp. r = Inr resp" | "can ident perm" "h q s = (r, s')"
  using assms by (auto simp: require_permission_def answer_def split: if_splits)

lemma rate_limit_cases:
  assumes "command_rate_limit w env h q s = (r, s')"
  obtains lm where "s' = s\<lparr>st_limits := lm\<rparr>" "\<exists>resp. r = Inr resp"
  | lm where "h q (s\<lparr>st_limits := lm\<rparr>) = (r, s')"
proof (cases "st_limits s")
  case None
  then have "s\<lparr>st_limits := None\<rparr> = s" by (cases s) simp
  with None assms that(2) [of None] show thesis by (simp add: command_rate_limit_def)
next
  case (Some l)
  obtain refusal l' where "charge (caller_is_demo w q) (budget_key env q) (ht_clock env) l = (refusal, l')"
    by fastforce
  with Some assms that show thesis
    by (cases refusal) (auto simp: command_rate_limit_def)
qed

text \<open>
  What it takes for a request to change what has been sent to the worker: it is a command of a
  known session whose role grants the permission of its route.
\<close>

lemma command_gate:
  assumes "serve w env q s = (r, s')" and "st_wire s' \<noteq> st_wire s"
  obtains m ps perm e tok ident sv q' s1 r1 s2 l where
    "find_route q = Some (m, ps, Commanding perm, e)" "is_command e"
    "find_cookie (cf_session_cookie (wb_cfg w)) q = Some tok"
    "authenticate (ht_auth env) (ht_clock env AtSession) tok (st_auth s) = (Inr ident, sv)"
    "can ident perm" "same_request q q'" "hq_identity q' = Some ident"
    "endpoint_handler w env e q' s1 = (r1, s2)" "st_wire s1 = st_wire s" "st_audit s1 = st_audit s"
    "s' = s2\<lparr>st_log := l\<rparr>" "\<And>resp1. r1 = Inr resp1 \<Longrightarrow> answered w env q s2 resp1 r s'"
proof -
  from serve_inner [OF assms(1)] obtain q1 r0 s0 l where q1: "same_request q q1"
    and r0: "root w env q1 s = (r0, s0)" and l: "s' = s0\<lparr>st_log := l\<rparr>"
    and ans: "\<And>resp0. r0 = Inr resp0 \<Longrightarrow> answered w env q s0 resp0 r s'" by blast
  from l assms(2) have ne: "st_wire s0 \<noteq> st_wire s" by auto
  from r0 ne have "api w env q1 s = (r0, s0)" by (cases rule: root_cases) auto
  then show thesis
  proof (cases rule: api_cases)
    case (2 m ps acc e q2)
    have fr: "find_route q = Some (m, ps, acc, e)" using 2(1) same_request_find(2) [OF q1] by simp
    have in_routes: "(m, ps, acc, e) \<in> set routes" by (rule find_route_in [OF fr])
    have cmd: "is_command e"
    proof (rule ccontr)
      assume "\<not> is_command e"
      then have "keeps (\<lambda>x. st_wire x = st_wire s) (guarded w env acc (endpoint_handler w env e) q2)"
        by (intro guarded_keeps plain_endpoint_keeps services_keep_wire) simp_all
      from keepsD [OF this _ 2(3)] ne show False by simp
    qed
    with command_routes [OF in_routes] obtain perm where acc: "acc = Commanding perm" by blast
    have q2: "same_request q q2" by (rule same_request_trans [OF q1 2(2)])
    from 2(3) acc have "auth_middleware w env (require_permission perm
        (command_rate_limit w env (endpoint_handler w env e))) q2 s = (r0, s0)" by simp
    then show thesis
    proof (cases rule: auth_middleware_cases)
      case (known tok ident sv)
      let ?q = "q2\<lparr>hq_identity := Some ident\<rparr>"
      have i: "hq_identity ?q = Some ident" by simp
      from known(4) i show thesis
      proof (cases rule: permission_cases)
        case p: 2
        from p(2) show thesis
        proof (cases rule: rate_limit_cases)
          case h: (2 lm)
          have "find_cookie (cf_session_cookie (wb_cfg w)) q = Some tok"
            using known(1) same_request_find(1) [OF q2] by simp
          then show thesis
            using that [of m ps perm e tok ident sv ?q "s\<lparr>st_auth := sv, st_limits := lm\<rparr>" r0 s0 l]
              fr acc cmd known(3) p(1) q2 i h l ans by simp
        qed (use ne in auto)
      qed (use ne in auto)
    qed (use ne in auto)
  qed (use ne in auto)
qed

section \<open>Properties\<close>

text \<open>
  C1. Nothing reaches the worker on behalf of somebody who may not: a request that changes what has
  been sent to it goes to a command route and carries the token of a session that authenticates,
  now, as an account whose role holds the permission of that route.
\<close>
theorem commands_need_permission:
  assumes "serve w env q s = (r, s')" and "st_wire s' \<noteq> st_wire s"
  shows "\<exists>m ps perm e tok ident sv. find_route q = Some (m, ps, Commanding perm, e)
    \<and> find_cookie (cf_session_cookie (wb_cfg w)) q = Some tok
    \<and> authenticate (ht_auth env) (ht_clock env AtSession) tok (st_auth s) = (Inr ident, sv)
    \<and> can ident perm"
  by (rule command_gate [OF assms]) blast

lemma command_rows_facts:
  "list_all2 (\<lambda>t row. aw_username row = caller_name q \<and> aw_action row = action
      \<and> aw_target row = truncate_text (target_string t) 512 \<and> aw_status row = status)
     targets (command_rows w env q action targets payload status message i)"
  by (simp add: list_all2_conv_all_nth command_rows_def audit_values_def command_entry_def)


section \<open>The life of the site\<close>

text \<open>
  Requests, the loops that prune sessions and the audit, and whatever the hub does between them.
\<close>

inductive site_reachable :: "auth_env \<Rightarrow> web \<Rightarrow> site \<Rightarrow> site \<Rightarrow> bool" for a w s0 where
  Started: "site_reachable a w s0 s0"
| Served: "site_reachable a w s0 s \<Longrightarrow> ht_auth env = a \<Longrightarrow> site_reachable a w s0 (snd (serve w env q s))"
| SessionsPruned: "site_reachable a w s0 s \<Longrightarrow>
    site_reachable a w s0 (s\<lparr>st_auth := prune_tick now (st_auth s)\<rparr>)"
| AuditPruned: "site_reachable a w s0 s \<Longrightarrow>
    site_reachable a w s0 (s\<lparr>st_audit := snd (prune now keep (st_audit s))\<rparr>)"
| HubMoved: "site_reachable a w s0 s \<Longrightarrow> st_hub s = Some h \<Longrightarrow> hub_step h h' \<Longrightarrow>
    site_reachable a w s0 (s\<lparr>st_hub := Some h'\<rparr>)"

lemma prune_tick_inv: "service_inv a sv \<Longrightarrow> service_inv a (prune_tick now sv)"
  unfolding prune_tick_def
  using keeps_on_db [OF keeps_session_ops(3), of a "unix now"] by (simp add: keeps_def)

lemma site_reachable_inv:
  assumes "site_reachable a w s0 s" and "site_inv a s0"
  shows "site_inv a s"
  using assms
proof (induction rule: site_reachable.induct)
  case (Served s env q)
  then show ?case using serve_keeps_inv [of env w q] by (simp add: keeps_def)
next
  case (SessionsPruned s now)
  then show ?case by (simp add: site_inv_def prune_tick_inv)
next
  case (AuditPruned s now keep)
  then show ?case using keeps_prune [of now keep] by (simp add: site_inv_def keeps_def)
next
  case (HubMoved s h h')
  then show ?case using hub_step_inv by (simp add: site_inv_def)
qed


section \<open>Answers\<close>

lemma keeps_log:
  "keeps (\<lambda>s. st_log s = l) (on_auth m)" "keeps (\<lambda>s. st_log s = l) (on_audit m')"
  by (auto simp: keeps_def on_auth_def on_audit_def split: prod.splits)

lemma services_keep_log: "services_keep env (\<lambda>s. st_log s = l)"
proof -
  have "keeps (\<lambda>s. st_log s = l) (handle_events w env q)" for w q
  proof (rule keepsI)
    fix s :: site
    assume "st_log s = l"
    with handle_events_state [of w env q s] show "st_log (snd (handle_events w env q s)) = l" by auto
  qed
  then show ?thesis unfolding services_keep_def by (intro allI conjI keeps_log)
qed

lemma command_outcome_answers:
  "command_outcome w env q s r s' \<Longrightarrow> \<exists>resp. r = Inr resp"
  unfolding command_outcome_def using submit_outcome by blast

lemma command_outcome_log:
  assumes "command_outcome w env q s r s'"
  shows "st_log s' = st_log s"
proof -
  have rec: "st_log (record_commands w env q action targets payload status message x) = st_log x"
    for action targets payload status message x
    by (simp add: record_commands_def on_audit_def split: prod.splits)
  show ?thesis
    using assms unfolding command_outcome_def by (auto dest!: submit_outcome simp: rec)
qed

lemma attempt_answers: "(\<And>x s'. \<exists>resp. fst (f x s') = Inr resp) \<Longrightarrow> \<exists>resp. fst (attempt m f s) = Inr resp"
  by (auto simp: attempt_def split: prod.splits)

lemma answer_answers: "\<exists>resp. fst (answer x s) = Inr resp"
  by (simp add: answer_def)

lemma logged_in_answers: "\<exists>resp. fst (logged_in w env token i s) = Inr resp"
  by (simp add: logged_in_def answer_def)

lemma endpoint_answers: "\<exists>resp. fst (endpoint_handler w env e q s) = Inr resp"
proof (cases "is_command e")
  case True
  then show ?thesis using command_endpoint command_outcome_answers by (metis prod.collapse)
next
  case False
  then show ?thesis
    by (cases e) (auto simp: is_command_def plain_handlers handle_login_def handle_login_demo_def
        handle_logout_def handle_me_def handle_list_audit_def handle_events_def Let_def
        intro!: attempt_answers answer_answers logged_in_answers split: sum.splits option.splits prod.splits)
qed

lemma guarded_answers:
  assumes h: "\<And>q s. \<exists>resp. fst (h q s) = Inr resp"
  shows "\<exists>resp. fst (guarded w env acc h q s) = Inr resp"
proof -
  have auth: "\<exists>resp. fst (auth_middleware w env g q s) = Inr resp"
    if "\<And>q s. \<exists>resp. fst (g q s) = Inr resp" for g q s
    unfolding auth_middleware_def
    by (auto intro!: attempt_answers answer_answers that split: sum.splits session_error.splits)
  have perm: "\<exists>resp. fst (require_permission p g q s) = Inr resp"
    if "\<And>q s. \<exists>resp. fst (g q s) = Inr resp" for g p q s
    using that by (auto simp: require_permission_def intro: answer_answers split: option.splits)
  have limit: "\<exists>resp. fst (command_rate_limit w env g q s) = Inr resp"
    if "\<And>q s. \<exists>resp. fst (g q s) = Inr resp" for g q s
    using that by (auto simp: command_rate_limit_def split: option.splits prod.splits)
  show ?thesis by (cases acc) (auto intro!: h auth perm limit)
qed

lemma root_answers: "\<exists>resp s'. root w env q s = (Inr resp, s') \<and> st_log s' = st_log s"
proof -
  let ?P = "\<lambda>x. st_log x = st_log s"
  have "keeps ?P (endpoint_handler w env e q')" for e q'
  proof (cases "is_command e")
    case True
    show ?thesis
    proof (rule keepsI)
      fix x :: site
      assume "st_log x = st_log s"
      with command_outcome_log [OF command_endpoint [OF True, of w env q' x]]
      show "st_log (snd (endpoint_handler w env e q' x)) = st_log s" by (metis prod.collapse)
    qed
  qed (rule plain_endpoint_keeps [OF services_keep_log])
  then have "keeps ?P (root w env q)"
    by (intro root_keeps api_keeps guarded_keeps services_keep_log) simp_all
  then have "st_log (snd (root w env q s)) = st_log s" by (simp add: keeps_def)
  moreover have "\<exists>resp. fst (root w env q s) = Inr resp"
    by (auto simp: root_def handle_ui_def api_def intro!: answer_answers guarded_answers endpoint_answers
        split: option.splits)
  ultimately show ?thesis by (metis prod.collapse)
qed


text \<open>
  C13. A database that cannot answer signs nobody out: when a session cannot be checked, every
  protected route answers that it is unavailable, sets no cookie, and leaves everything but the
  session service's own bookkeeping and the log as it was.
\<close>
theorem outage_is_no_logout:
  assumes "find_route q = Some (m, ps, acc, e)" and "acc \<noteq> Open" and "\<not> unclean (hq_segments q)"
    and "find_cookie (cf_session_cookie (wb_cfg w)) q = Some tok"
    and "authenticate (ht_auth env) (ht_clock env AtSession) tok (st_auth s) = (Inl err, sv)"
    and "\<not> is_not_found err"
  shows "\<exists>resp l. serve w env q s = (Inr resp, s\<lparr>st_auth := sv, st_log := l\<rparr>)
    \<and> rs_status resp = 503 \<and> rs_cookies resp = []"
proof -
  have tok: "tok \<noteq> []" using assms(5,6) by (auto simp: authenticate_def)
  obtain r s' where srv: "serve w env q s = (r, s')" by fastforce
  from serve_inner [OF this] obtain q1 r0 s0 l where q1: "same_request q q1"
    and r0: "root w env q1 s = (r0, s0)" and l: "s' = s0\<lparr>st_log := l\<rparr>"
    and ans: "\<And>resp0. r0 = Inr resp0 \<Longrightarrow> answered w env q s0 resp0 r s'" by blast
  have seg: "hq_segments q1 = hq_segments q" using q1 by (simp add: same_request_def)
  have "route_matches q (m, ps, acc, e)" "(m, ps, acc, e) \<in> set routes"
    using assms(1) find_route_in by (auto simp: find_route_def find_Some_iff)
  then have "hd (hq_segments q) = ''api'' \<and> hq_segments q \<noteq> [''api'']"
    using route_parts [of m ps acc e] by (auto simp: route_matches_def dest: match_api)
  with assms(1,3) r0 seg same_request_find(2) [OF q1]
  have "guarded w env acc (endpoint_handler w env e) (q1\<lparr>hq_path_value := path_values ps q1\<rparr>) s = (r0, s0)"
    by (simp add: root_def api_def)
  with assms(2) obtain h where a: "auth_middleware w env h (q1\<lparr>hq_path_value := path_values ps q1\<rparr>) s = (r0, s0)"
    by (cases acc) (auto split: if_splits)
  have "find_cookie (cf_session_cookie (wb_cfg w)) (q1\<lparr>hq_path_value := path_values ps q1\<rparr>) = Some tok"
    using assms(4) same_request_find(1) [OF q1] by (simp add: find_cookie_def)
  with a tok assms(5,6) have "s0 = s\<lparr>st_auth := sv\<rparr>"
      "\<exists>t. r0 = Inr (write_error 503 CodeUnavailable t)"
    by (auto simp: auth_middleware_def identity_from_request_def attempt_def on_auth_def answer_def)
  then obtain t where s0: "s0 = s\<lparr>st_auth := sv\<rparr>" and t: "r0 = Inr (write_error 503 CodeUnavailable t)"
    by blast
  from ans [OF t] obtain id resp where "r = Inr resp"
    "resp = with_headers [''X-Request-Id'' \<mapsto> id]
       (with_headers (security_headers (wb_cfg w)) (write_error 503 CodeUnavailable t))"
    unfolding answered_def by blast
  with srv l s0 show ?thesis
    by (intro exI [of _ resp] exI [of _ l]) (simp add: write_error_def write_json_def)
qed

section \<open>A running site\<close>

definition sample_web_config :: config where
  "sample_web_config = sample_config
     \<lparr>cf_worker_command_url := ''http://worker/commands'', cf_worker_command_key := ''key'',
      cf_demo_user := ''guest'', cf_demo_command_rate_limit := 2\<rparr>"

definition sample_web :: web where
  "sample_web = new_web sample_web_config None ''dev''"

text \<open>The first account is signed in, with the token \<open>tok\<close>.\<close>

definition sample_session_row :: "string \<Rightarrow> nat \<Rightarrow> session_row" where
  "sample_session_row tok i =
     \<lparr>se_id = rev tok, se_user_id = of_nat i, se_created_at = 0, se_expires_at = 3600,
      se_user_agent = [], se_ip = []\<rparr>"

definition sample_site :: "bool list \<Rightarrow> site" where
  "sample_site faults =
     new_site sample_web_config
       (sample_service\<lparr>sv_db := sample_db\<lparr>db_sessions := [sample_session_row ''tok'' 1, sample_session_row ''demo'' 2],
                                     db_faults := faults\<rparr>\<rparr>)
       \<lparr>wi_sent = [], wi_replies = [Reply 202 []]\<rparr>
       \<lparr>ad_rows = [], ad_next = 1, ad_faults = []\<rparr> None"

definition sample_http_env :: http_env where
  "sample_http_env =
     \<lparr>ht_auth = sample_env,
      ht_client = \<lparr>ce_url_error = (\<lambda>_. None), ce_read = (\<lambda>_. None)\<rparr>,
      ht_clock = (\<lambda>_. minute), ht_token = Some ''abc'', ht_request_id = Some ''r1'',
      ht_v6_local = (\<lambda>_. False), ht_ping = None, ht_collation = plain_collation,
      ht_perf_first = (\<lambda>_. False), ht_server = (\<lambda>_. sample_server), ht_summary = (\<lambda>_. None),
      ht_aggregates = \<lparr>ag_avg = (\<lambda>_. 0), ag_min = (\<lambda>_. 0), ag_max = (\<lambda>_. 0)\<rparr>,
      ht_metric_order = id, ht_label_order = id, ht_cause = OtherCause ''gone'', ht_stream = [],
      ht_encoders = ((\<lambda>_. ''{}''), (\<lambda>_ _. ''{}''))\<rparr>"

definition sample_post :: "string \<Rightarrow> string list \<Rightarrow> json \<Rightarrow> request" where
  "sample_post tok segments body_tree =
     (sample_request [])\<lparr>hq_method := ''POST'', hq_path := CHR ''/'' # join ''/'' segments,
       hq_segments := segments, hq_cookies := [(''sei_session'', tok)], hq_body := Inr body_tree\<rparr>"

definition sample_targets :: "string list \<Rightarrow> string \<times> json" where
  "sample_targets hosts =
     (''targets'', JArr (map (\<lambda>h. JObj [(''kind'', JStr ''host''), (''host'', JStr h)]) hosts))"

definition sample_ack_request :: request where
  "sample_ack_request = sample_post ''tok'' [''api'', ''v1'', ''commands'', ''acknowledge'']
     (JObj [sample_targets [''web'', ''db'', ''web''], (''comment'', JStr ''seen'')])"

lemma sample_ack_sent:
  "\<exists>resp s'. serve sample_web sample_http_env sample_ack_request (sample_site []) = (Inr resp, s')
     \<and> st_wire s' \<noteq> st_wire (sample_site []) \<and> rs_status resp = 202"
proof -
  let ?run = "serve sample_web sample_http_env sample_ack_request (sample_site [])"
  have "(case ?run of (Inr resp, s') \<Rightarrow> rs_status resp = 202 \<and> length (wi_sent (st_wire s')) = 1 | _ \<Rightarrow> False)"
    by code_simp
  moreover have "wi_sent (st_wire (sample_site [])) = []" by (simp add: sample_site_def new_site_def)
  ultimately show ?thesis by (cases ?run) (auto split: sum.splits)
qed

lemma commands_need_permission_witness:
  "\<exists>resp s' m ps perm e. serve sample_web sample_http_env sample_ack_request (sample_site []) = (Inr resp, s')
     \<and> st_wire s' \<noteq> st_wire (sample_site [])
     \<and> find_route sample_ack_request = Some (m, ps, Commanding perm, e)"
proof -
  from sample_ack_sent obtain resp s' where
    sent: "serve sample_web sample_http_env sample_ack_request (sample_site []) = (Inr resp, s')"
    "st_wire s' \<noteq> st_wire (sample_site [])" by blast
  from commands_need_permission [OF this] obtain m ps perm e where
    "find_route sample_ack_request = Some (m, ps, Commanding perm, e)" by blast
  with sent show ?thesis by (intro exI [of _ resp] exI [of _ s'] exI conjI)
qed


lemma sample_site_service:
  "service_inv sample_env (st_auth (sample_site []))"
  by (simp add: sample_site_def new_site_def service_inv_def sample_service_sel new_window_inv
      minute_def second_def max_duration_def db_inv_def sample_db_def sample_env_def roles_ok_def users_ok_def
      sessions_ok_def sample_role_def sample_user_def lower_ascii_def byte_def sample_session_row_def)


lemma outage_is_no_logout_witness:
  "\<exists>resp s'. serve sample_web sample_http_env sample_ack_request (sample_site [True]) = (Inr resp, s')
     \<and> rs_status resp = 503 \<and> rs_cookies resp = []"
proof -
  let ?s = "sample_site [True]" and ?q = sample_ack_request
  have "(case find_route ?q of Some (m, ps, acc, e) \<Rightarrow> acc \<noteq> Open | None \<Rightarrow> False)"
    by code_simp
  then obtain m ps acc e where fr: "find_route ?q = Some (m, ps, acc, e)" "acc \<noteq> Open"
    by (auto split: option.splits prod.splits)
  have c: "\<not> unclean (hq_segments ?q)"
    "find_cookie (cf_session_cookie (wb_cfg sample_web)) ?q = Some ''tok''" by code_simp+
  have "(case authenticate (ht_auth sample_http_env) (ht_clock sample_http_env AtSession) ''tok'' (st_auth ?s)
      of (Inl err, sv) \<Rightarrow> \<not> is_not_found err | _ \<Rightarrow> False)" by code_simp
  then obtain err sv where "authenticate (ht_auth sample_http_env) (ht_clock sample_http_env AtSession) ''tok''
      (st_auth ?s) = (Inl err, sv)" "\<not> is_not_found err"
    by (auto split: prod.splits sum.splits)
  from outage_is_no_logout [OF fr c this] show ?thesis by blast
qed

end
