(* ===== verification/Bootstrap.thy ===== *)
theory Bootstrap
  imports AuthService
begin

text \<open>
  What every start does to the accounts (\<^verbatim>\<open>internal/auth/bootstrap.go\<close>): the built-in roles are
  created or brought back to their definition in code, and the demonstration account is put on
  the role the configuration gives it.
\<close>

section \<open>Comparing permission lists\<close>

text \<open>The map of counters starts at zero everywhere.\<close>

fun count_up :: "(string \<Rightarrow> int) \<Rightarrow> string list \<Rightarrow> string \<Rightarrow> int" where
  "count_up seen [] = seen"
| "count_up seen (p # ps) = count_up (seen(p := seen p + 1)) ps"

fun take_down :: "(string \<Rightarrow> int) \<Rightarrow> string list \<Rightarrow> bool" where
  "take_down seen [] = True"
| "take_down seen (p # ps) =
     (let seen = seen(p := seen p - 1) in if seen p < 0 then False else take_down seen ps)"

definition same_permissions :: "string list \<Rightarrow> string list \<Rightarrow> bool" where
  "same_permissions a b =
     (if length a \<noteq> length b then False else take_down (count_up (\<lambda>_. 0) a) b)"

lemma count_up_eq: "count_up seen ps p = seen p + int (count_list ps p)"
  by (induction ps arbitrary: seen) auto

lemma take_down_iff:
  "(\<forall>p. 0 \<le> seen p) \<Longrightarrow> take_down seen ps \<longleftrightarrow> (\<forall>p. int (count_list ps p) \<le> seen p)"
proof (induction ps arbitrary: seen)
  case (Cons q ps)
  show ?case
  proof (cases "seen q < 1")
    case True
    then have "\<not> int (count_list (q # ps) q) \<le> seen q" by simp
    with True show ?thesis by (auto simp: Let_def)
  next
    case False
    let ?seen = "seen(q := seen q - 1)"
    have "take_down seen (q # ps) \<longleftrightarrow> take_down ?seen ps" using False by (simp add: Let_def)
    also have "\<dots> \<longleftrightarrow> (\<forall>p. int (count_list ps p) \<le> ?seen p)"
      using Cons.prems False by (intro Cons.IH) auto
    also have "\<dots> \<longleftrightarrow> (\<forall>p. int (count_list (q # ps) p) \<le> seen p)"
      by (rule all_cong1) auto
    finally show ?thesis .
  qed
qed simp

lemma same_permissions_mset: "same_permissions a b \<longleftrightarrow> mset a = mset b"
proof -
  have "take_down (count_up (\<lambda>_. 0) a) b \<longleftrightarrow> (\<forall>p. count_list b p \<le> count_list a p)"
    by (simp add: take_down_iff count_up_eq)
  also have "\<dots> \<longleftrightarrow> mset b \<subseteq># mset a"
    by (simp add: subseteq_mset_def count_mset count_list_eq_length_filter eq_commute)
  finally have sub: "take_down (count_up (\<lambda>_. 0) a) b \<longleftrightarrow> mset b \<subseteq># mset a" .
  have "mset a = mset b" if "mset b \<subseteq># mset a" "length a = length b"
  proof -
    from that(1) obtain m where m: "mset a = mset b + m" by (metis subset_mset.le_iff_add)
    then have "size m = 0" using that(2) by (metis add_cancel_left_right size_mset size_union)
    with m show ?thesis by simp
  qed
  with sub show ?thesis by (auto simp: same_permissions_def dest: mset_eq_length)
qed

section \<open>The built-in roles\<close>

record bootstrap_options =
  bo_demo_mode :: bool
  bo_demo_user :: string
  bo_demo_commands :: "string list"

definition system_role :: "string \<Rightarrow> string \<Rightarrow> string list \<Rightarrow> role" where
  "system_role name desc perms =
     \<lparr>ro_id = 0, ro_name = name, ro_description = desc, ro_permissions = perms, ro_is_system = True\<rparr>"

definition builtins :: "bootstrap_options \<Rightarrow> role list" where
  "builtins opt =
     [system_role RoleAdmin ''Full access, including user management'' [Wildcard],
      system_role RoleOperator ''Read everything and submit external commands''
        ((read_permissions @ command_permissions) @ [PermAuditRead]),
      system_role RoleGuest ''Read-only; every external command is refused'' read_permissions]
     @ (if bo_demo_commands opt \<noteq> []
        then [system_role RoleDemo
                ''The public demo account: read-only plus the commands named in demo_commands''
                (demo_permissions (bo_demo_commands opt))]
        else [])"

definition reconcile_role :: "(string \<Rightarrow> string) \<Rightarrow> int64 \<Rightarrow> role \<Rightarrow> unit store_op" where
  "reconcile_role coll now r =
     attempt (role_by_name coll (ro_name r)) (\<lambda>res.
       case res of
         Inr existing \<Rightarrow>
           if same_permissions (ro_permissions existing) (ro_permissions r) then return ()
           else set_role_permissions (ro_id existing) (ro_permissions r)
       | Inl e \<Rightarrow>
           if \<not> is_not_found e then fail e
           else attempt (create_role coll now r) (\<lambda>res.
             case res of
               Inl e \<Rightarrow> if is_duplicate e then return () else fail e
             | Inr _ \<Rightarrow> return ()))"

fun reconcile :: "(string \<Rightarrow> string) \<Rightarrow> int64 \<Rightarrow> role list \<Rightarrow> unit store_op" where
  "reconcile coll now [] = return ()"
| "reconcile coll now (r # rs) = bind_step (reconcile_role coll now r) (\<lambda>_. reconcile coll now rs)"

section \<open>The demonstration account\<close>

definition random_password :: "string option \<Rightarrow> auth_error + string" where
  "random_password rnd =
     (case rnd of None \<Rightarrow> Inl (HashFailed SaltSource) | Some b \<Rightarrow> Inr (b64_encode url_alphabet b))"

definition demo_role_name :: "bootstrap_options \<Rightarrow> string" where
  "demo_role_name opt = (if bo_demo_commands opt \<noteq> [] then RoleDemo else RoleGuest)"

definition create_demo_user ::
  "auth_env \<Rightarrow> int64 \<Rightarrow> string option \<Rightarrow> string option \<Rightarrow> string \<Rightarrow> uint32 \<Rightarrow> unit store_op" where
  "create_demo_user env now rnd salt username role_id =
     (case random_password rnd of
        Inl e \<Rightarrow> fail e
      | Inr password \<Rightarrow>
          (case hash_password (ae_idkey env) (ae_version env) salt password of
             Inl e \<Rightarrow> fail (HashFailed e)
           | Inr h \<Rightarrow>
               attempt (create_user (ae_coll env) now
                 \<lparr>us_id = 0, us_username = username, us_password_hash = h,
                  us_display_name = ''Demo'', us_email = [], us_role_id = role_id,
                  us_role_name = [], us_is_active = True, us_created_at = 0,
                  us_last_login_at = None\<rparr>) (\<lambda>res.
                 case res of
                   Inl e \<Rightarrow> if \<not> is_duplicate e then fail e else return ()
                 | Inr _ \<Rightarrow> return ())))"

definition ensure_demo_user ::
  "auth_env \<Rightarrow> int64 \<Rightarrow> string option \<Rightarrow> string option \<Rightarrow> bootstrap_options \<Rightarrow> unit store_op" where
  "ensure_demo_user env now rnd salt opt =
     attempt (role_by_name (ae_coll env) (demo_role_name opt)) (\<lambda>res.
       case res of
         Inl e \<Rightarrow> fail (DemoNeedsRole (demo_role_name opt) e)
       | Inr r \<Rightarrow>
           attempt (user_by_username (ae_coll env) (bo_demo_user opt)) (\<lambda>res.
             case res of
               Inr existing \<Rightarrow>
                 if us_role_id existing = ro_id r then return ()
                 else bind_step (set_role now (us_id existing) (ro_id r)) (\<lambda>_.
                   delete_user_sessions (us_id existing))
             | Inl e \<Rightarrow>
                 if \<not> is_not_found e then fail e
                 else create_demo_user env now rnd salt (bo_demo_user opt) (ro_id r)))"

definition bootstrap ::
  "auth_env \<Rightarrow> int64 \<Rightarrow> string option \<Rightarrow> string option \<Rightarrow> bootstrap_options \<Rightarrow> unit store_op" where
  "bootstrap env now rnd salt opt =
     bind_step (reconcile (ae_coll env) now (builtins opt)) (\<lambda>_.
       if \<not> bo_demo_mode opt \<or> bo_demo_user opt = [] then return ()
       else ensure_demo_user env now rnd salt opt)"

section \<open>The tables stay well formed\<close>

lemma keeps_reconcile_role [keeps_intros]: "keeps (db_inv coll) (reconcile_role coll now r)"
  unfolding reconcile_role_def by (intro keeps_intros)

lemma keeps_reconcile [keeps_intros]: "keeps (db_inv coll) (reconcile coll now rs)"
  by (induction rs)
    (simp_all only: reconcile.simps keeps_return keeps_bind keeps_reconcile_role)

lemma keeps_create_demo_user [keeps_intros]:
  "keeps (db_inv (ae_coll env)) (create_demo_user env now rnd salt u r)"
  unfolding create_demo_user_def by (intro keeps_intros)

lemma keeps_ensure_demo_user [keeps_intros]:
  "keeps (db_inv (ae_coll env)) (ensure_demo_user env now rnd salt opt)"
  unfolding ensure_demo_user_def by (intro keeps_intros)

lemma keeps_bootstrap [keeps_intros]:
  "keeps (db_inv (ae_coll env)) (bootstrap env now rnd salt opt)"
  unfolding bootstrap_def by (intro keeps_intros)

section \<open>Reconciled roles\<close>

text \<open>The tables hold this role under its name, with these permissions.\<close>

definition holds_role :: "(string \<Rightarrow> string) \<Rightarrow> role \<Rightarrow> db \<Rightarrow> bool" where
  "holds_role coll r d \<longleftrightarrow>
     (\<exists>rr \<in> set (db_roles d). \<exists>perms. coll (rr_name rr) = coll (ro_name r)
        \<and> rr_permissions rr = Some perms \<and> mset perms = mset (ro_permissions r))"

lemma holds_roleI:
  "rr \<in> set (db_roles d) \<Longrightarrow> coll (rr_name rr) = coll (ro_name r) \<Longrightarrow>
     rr_permissions rr = Some perms \<Longrightarrow> mset perms = mset (ro_permissions r) \<Longrightarrow> holds_role coll r d"
  unfolding holds_role_def by blast

lemma holds_role_pop [simp]: "holds_role coll r (d\<lparr>db_faults := fs\<rparr>) = holds_role coll r d"
  by (simp add: holds_role_def)

lemma role_row_unique:
  assumes "db_inv coll d" and "rr \<in> set (db_roles d)" and "rr' \<in> set (db_roles d)"
    and "coll (rr_name rr) = coll (rr_name rr') \<or> rr_id rr = rr_id rr'"
  shows "rr = rr'"
  using assms by (auto simp: db_inv_def roles_ok_def distinct_map dest: inj_onD)

lemma user_row_unique:
  assumes "db_inv coll d" and "ur \<in> set (db_users d)" and "ur' \<in> set (db_users d)"
    and "coll (ur_username ur) = coll (ur_username ur') \<or> ur_id ur = ur_id ur'"
  shows "ur = ur'"
  using assms by (auto simp: db_inv_def users_ok_def distinct_map dest: inj_onD)

lemma create_role_Inr:
  assumes "create_role coll now r d = (Inr i, d')"
  shows "\<exists>row. rr_name row = ro_name r \<and> rr_permissions row = Some (ro_permissions r)
    \<and> db_roles d' = db_roles d @ [row] \<and> db_users d' = db_users d
    \<and> db_sessions d' = db_sessions d \<and> db_faults d' = tl (db_faults d)"
  using assms
  by (auto simp: create_role_def statement_eq Let_def split: option.splits if_splits)

lemma set_role_permissions_Inr:
  assumes "set_role_permissions i perms d = (Inr x, d')"
  shows "d' = (pop_fault d)\<lparr>db_roles :=
    map (\<lambda>r. if rr_id r = i then r\<lparr>rr_permissions := Some perms\<rparr> else r) (db_roles d)\<rparr>"
  using assms affect_one_Inr
  by (fastforce simp: set_role_permissions_def update_rows_def Let_def split: option.splits)

lemma role_by_name_missing:
  assumes "role_by_name coll n d = (Inl e, d')" and "is_not_found e"
  shows "d' = pop_fault d" "\<forall>rr \<in> set (db_roles d). coll (rr_name rr) \<noteq> coll n"
  using assms
  by (auto simp: role_by_name_def statement_eq guard_simps first_row_Inl scan_role_def
      filter_empty_conv split: if_splits option.splits)

lemma create_role_not_duplicate:
  "create_role coll now r d = (Inl e, d') \<Longrightarrow> is_duplicate e \<Longrightarrow>
     \<exists>rr \<in> set (db_roles d). coll (rr_name rr) = coll (ro_name r)"
  by (auto simp: create_role_def statement_eq Let_def list_ex_iff split: option.splits if_splits)

text \<open>The three ways a round can end well.\<close>

lemma reconcile_role_cases:
  assumes "reconcile_role coll now r d = (Inr (), d')"
  obtains (kept) rr ex where "d' = pop_fault d" "rr \<in> set (db_roles d)"
      "coll (rr_name rr) = coll (ro_name r)" "scan_role rr = Inr ex"
      "mset (ro_permissions ex) = mset (ro_permissions r)"
  | (updated) rr ex where "rr \<in> set (db_roles d)" "coll (rr_name rr) = coll (ro_name r)"
      "scan_role rr = Inr ex"
      "set_role_permissions (rr_id rr) (ro_permissions r) (pop_fault d) = (Inr (), d')"
  | (created) i where "create_role coll now r (pop_fault d) = (Inr i, d')"
  using assms unfolding reconcile_role_def attempt_case
proof (elim disjE exE conjE)
  fix e d1
  assume e: "role_by_name coll (ro_name r) d = (Inl e, d1)"
    and k: "(if \<not> is_not_found e then fail e
      else attempt (create_role coll now r) (\<lambda>res. case res of
        Inl e \<Rightarrow> if is_duplicate e then return () else fail e | Inr _ \<Rightarrow> return ())) d1 = (Inr (), d')"
  then have nf: "is_not_found e" by (auto split: if_splits)
  note miss = role_by_name_missing [OF e nf]
  from k nf miss show thesis
    using create_role_not_duplicate [of coll now r "pop_fault d"] created
    by (auto simp: attempt_case split: if_splits)
next
  fix ex d1
  assume e: "role_by_name coll (ro_name r) d = (Inr ex, d1)"
    and k: "(if same_permissions (ro_permissions ex) (ro_permissions r) then return ()
      else set_role_permissions (ro_id ex) (ro_permissions r)) d1 = (Inr (), d')"
  from role_by_name_Inr [OF e] obtain rr where
    rr: "rr \<in> set (db_roles d)" "coll (rr_name rr) = coll (ro_name r)" "scan_role rr = Inr ex"
    and d1: "d1 = pop_fault d" by auto
  show thesis
  proof (cases "same_permissions (ro_permissions ex) (ro_permissions r)")
    case True
    with k d1 rr show thesis by (intro kept [of rr ex]) (auto simp: same_permissions_mset)
  next
    case False
    with k d1 rr scan_role_Inr [OF rr(3)] show thesis by (intro updated [of rr ex]) auto
  qed
qed

text \<open>One round leaves its own role as defined and any role of another name alone.\<close>

lemma reconcile_role_done:
  assumes "db_inv coll d" and "reconcile_role coll now r d = (Inr (), d')"
  shows "holds_role coll r d'
    \<and> (\<forall>r'. coll (ro_name r') \<noteq> coll (ro_name r) \<longrightarrow> holds_role coll r' d \<longrightarrow> holds_role coll r' d')"
  using assms(2)
proof (cases rule: reconcile_role_cases)
  case (kept rr ex)
  then show ?thesis using scan_role_Inr [OF kept(4)] by (auto simp: holds_role_def)
next
  case (updated rr ex)
  let ?f = "\<lambda>x. if rr_id x = rr_id rr then x\<lparr>rr_permissions := Some (ro_permissions r)\<rparr> else x"
  have roles: "db_roles d' = map ?f (db_roles d)"
    using set_role_permissions_Inr [OF updated(4)] by simp
  have "?f rr \<in> set (db_roles d')" using updated(1) unfolding roles set_map by (rule imageI)
  then have "holds_role coll r d'" by (rule holds_roleI) (simp_all add: updated(2))
  moreover have "holds_role coll r' d'"
    if ne: "coll (ro_name r') \<noteq> coll (ro_name r)" and h: "holds_role coll r' d" for r'
  proof -
    from h obtain x perms where x: "x \<in> set (db_roles d)" "coll (rr_name x) = coll (ro_name r')"
      "rr_permissions x = Some perms" "mset perms = mset (ro_permissions r')"
      by (auto simp: holds_role_def)
    then have "rr_id x \<noteq> rr_id rr"
      using role_row_unique [OF assms(1) x(1) updated(1)] ne updated(2) by auto
    then have "?f x = x" by simp
    moreover have "?f x \<in> set (db_roles d')" using x(1) unfolding roles set_map by (rule imageI)
    ultimately have "x \<in> set (db_roles d')" by simp
    with x show ?thesis by (auto simp: holds_role_def)
  qed
  ultimately show ?thesis by blast
next
  case (created i)
  with create_role_Inr [OF created] show ?thesis by (auto simp: holds_role_def)
qed

lemma reconcile_role_frame:
  assumes "reconcile_role coll now r d = (Inr (), d')"
  shows "db_users d' = db_users d \<and> db_sessions d' = db_sessions d \<and> rr_id ` set (db_roles d) \<subseteq> rr_id ` set (db_roles d')"
  using assms
proof (cases rule: reconcile_role_cases)
  case (updated rr ex)
  let ?rows = "map (\<lambda>x. if rr_id x = rr_id rr then x\<lparr>rr_permissions := Some (ro_permissions r)\<rparr> else x) (db_roles d)"
  have "map rr_id ?rows = map rr_id (db_roles d)" by simp
  then have "set (map rr_id ?rows) = set (map rr_id (db_roles d))" by (simp only:)
  then have "rr_id ` set ?rows = rr_id ` set (db_roles d)" by (simp only: set_map)
  then show ?thesis using set_role_permissions_Inr [OF updated(4)] by simp
next
  case (created i)
  then show ?thesis using create_role_Inr [OF created] by auto
qed simp

lemma reconcile_done:
  assumes "db_inv coll d" and "reconcile coll now rs d = (Inr (), d')"
    and "distinct (map (\<lambda>r. coll (ro_name r)) rs)"
  shows "(\<forall>r \<in> set rs. holds_role coll r d')
    \<and> (\<forall>r'. coll (ro_name r') \<notin> (\<lambda>r. coll (ro_name r)) ` set rs \<longrightarrow> holds_role coll r' d \<longrightarrow> holds_role coll r' d')"
  using assms
proof (induction rs arbitrary: d)
  case (Cons r rs)
  from Cons.prems(2) obtain d1 where
    1: "reconcile_role coll now r d = (Inr (), d1)" "reconcile coll now rs d1 = (Inr (), d')"
    by (auto simp: guard_simps)
  note inv1 = keepsD [OF keeps_reconcile_role Cons.prems(1) 1(1)]
  from Cons.IH [OF inv1 1(2)] Cons.prems(3) reconcile_role_done [OF Cons.prems(1) 1(1)]
  show ?case by auto
qed simp

text \<open>Roles that are already as defined are left alone.\<close>

lemma role_by_name_finds:
  assumes "db_inv coll d" and "\<not> faulty d" and "rr \<in> set (db_roles d)"
    and "coll (rr_name rr) = coll n"
  shows "role_by_name coll n d = (scan_role rr, pop_fault d)"
proof -
  have "x = rr" if "x \<in> set (filter (\<lambda>r. coll (rr_name r) = coll n) (db_roles d))" for x
    using role_row_unique [OF assms(1) _ assms(3), of x] that assms(4) by auto
  moreover have "rr \<in> set (filter (\<lambda>r. coll (rr_name r) = coll n) (db_roles d))"
    using assms(3,4) by simp
  ultimately obtain rest where "filter (\<lambda>r. coll (rr_name r) = coll n) (db_roles d) = rr # rest"
    by (cases "filter (\<lambda>r. coll (rr_name r) = coll n) (db_roles d)") (fastforce, metis list.set_intros(1))
  with assms(2) show ?thesis by (simp add: role_by_name_def statement_eq first_row_def)
qed

lemma reconcile_idle:
  assumes "db_inv coll d" and "db_faults d = []" and "\<forall>r \<in> set rs. holds_role coll r d"
  shows "reconcile coll now rs d = (Inr (), d)"
  using assms(3)
proof (induction rs)
  case (Cons r rs)
  then obtain rr perms where rr: "rr \<in> set (db_roles d)" "coll (rr_name rr) = coll (ro_name r)"
    "rr_permissions rr = Some perms" "mset perms = mset (ro_permissions r)"
    by (auto simp: holds_role_def)
  have "role_by_name coll (ro_name r) d = (scan_role rr, d)"
    using role_by_name_finds [OF assms(1) _ rr(1,2)] assms(2) by simp
  then have "reconcile_role coll now r d = (Inr (), d)"
    using rr(3,4) by (simp add: reconcile_role_def scan_role_def same_permissions_mset)
  with Cons show ?case by simp
qed simp


section \<open>The demonstration account on its role\<close>

definition demo_on_role :: "(string \<Rightarrow> string) \<Rightarrow> bootstrap_options \<Rightarrow> db \<Rightarrow> bool" where
  "demo_on_role coll opt d \<longleftrightarrow>
     (\<exists>ur \<in> set (db_users d). \<exists>rr \<in> set (db_roles d).
        coll (ur_username ur) = coll (bo_demo_user opt)
        \<and> coll (rr_name rr) = coll (demo_role_name opt) \<and> ur_role_id ur = rr_id rr)"

lemma demo_on_roleI:
  "ur \<in> set (db_users d) \<Longrightarrow> rr \<in> set (db_roles d) \<Longrightarrow>
     coll (ur_username ur) = coll (bo_demo_user opt) \<Longrightarrow>
     coll (rr_name rr) = coll (demo_role_name opt) \<Longrightarrow> ur_role_id ur = rr_id rr \<Longrightarrow>
     demo_on_role coll opt d"
  unfolding demo_on_role_def by blast

lemma create_user_Inr:
  assumes "create_user coll now u d = (Inr i, d')"
  shows "\<exists>row. ur_username row = us_username u \<and> ur_role_id row = us_role_id u
    \<and> ur_password_hash row = us_password_hash u \<and> ur_is_active row = us_is_active u
    \<and> db_users d' = db_users d @ [row] \<and> db_roles d' = db_roles d"
  using assms by (auto simp: create_user_def statement_eq Let_def split: if_splits)

lemma create_user_not_duplicate:
  "create_user coll now u d = (Inl e, d') \<Longrightarrow> is_duplicate e \<Longrightarrow>
     \<exists>v \<in> set (db_users d). coll (ur_username v) = coll (us_username u)"
  by (auto simp: create_user_def statement_eq Let_def list_ex_iff split: if_splits)

lemma user_by_username_missing:
  assumes "db_inv coll' d" and "user_by_username coll n d = (Inl e, d')" and "is_not_found e"
  shows "d' = pop_fault d \<and> (\<forall>ur \<in> set (db_users d). coll (ur_username ur) \<noteq> coll n)"
proof -
  from assms(2,3) have d': "d' = pop_fault d"
    and none: "select_users (\<lambda>u. coll (ur_username u) = coll n) d = []"
    by (auto simp: user_by_username_def statement_eq first_row_Inl split: if_splits)
  have "coll (ur_username ur) \<noteq> coll n" if ur: "ur \<in> set (db_users d)" for ur
  proof
    assume "coll (ur_username ur) = coll n"
    moreover obtain rr where "rr \<in> set (db_roles d)" "rr_id rr = ur_role_id ur"
      using db_inv_role_id [OF assms(1) ur] by auto
    ultimately have "user_of ur rr \<in> set (select_users (\<lambda>u. coll (ur_username u) = coll n) d)"
      using ur by (auto simp: set_select_users)
    with none show False by simp
  qed
  with d' show ?thesis by blast
qed

lemma set_role_Inr:
  assumes "set_role now i r d = (Inr (), d')"
  shows "db_users d' = map (\<lambda>u. if ur_id u = i then u\<lparr>ur_role_id := r, ur_updated_at := now\<rparr> else u) (db_users d)
    \<and> db_roles d' = db_roles d"
proof -
  from assms have "affect_one ''setting role'' (update_users (\<lambda>u. ur_id u = i)
      (\<lambda>u. u\<lparr>ur_role_id := r, ur_updated_at := now\<rparr>)) d = (Inr (), d')"
    by (auto simp: set_role_def statement_eq split: if_splits)
  from affect_one_Inr [OF this] show ?thesis by simp
qed

lemma ensure_demo_user_done:
  assumes "db_inv (ae_coll env) d" and "ensure_demo_user env now rnd salt opt d = (Inr (), d')"
  shows "demo_on_role (ae_coll env) opt d' \<and> db_roles d' = db_roles d"
proof -
  let ?coll = "ae_coll env" and ?n = "bo_demo_user opt"
  from assms(2) obtain r d1 where r: "role_by_name ?coll (demo_role_name opt) d = (Inr r, d1)" and
    k: "attempt (user_by_username ?coll ?n) (\<lambda>res.
             case res of
               Inr existing \<Rightarrow>
                 if us_role_id existing = ro_id r then return ()
                 else bind_step (set_role now (us_id existing) (ro_id r)) (\<lambda>_.
                   delete_user_sessions (us_id existing))
             | Inl e \<Rightarrow>
                 if \<not> is_not_found e then fail e
                 else create_demo_user env now rnd salt ?n (ro_id r)) d1 = (Inr (), d')"
    by (auto simp: ensure_demo_user_def attempt_case)
  from role_by_name_Inr [OF r] obtain rr where rr: "rr \<in> set (db_roles d)"
    "?coll (rr_name rr) = ?coll (demo_role_name opt)" "ro_id r = rr_id rr" and d1: "d1 = pop_fault d"
    by (auto dest: scan_role_Inr)
  have inv1: "db_inv ?coll d1" using assms(1) d1 by simp
  consider (missing) e d2 where "user_by_username ?coll ?n d1 = (Inl e, d2)" "is_not_found e"
      "create_demo_user env now rnd salt ?n (ro_id r) d2 = (Inr (), d')"
    | (there) u where "user_by_username ?coll ?n d1 = (Inr u, d')" "us_role_id u = ro_id r"
    | (moved) u d2 d3 where "user_by_username ?coll ?n d1 = (Inr u, d2)"
      "set_role now (us_id u) (ro_id r) d2 = (Inr (), d3)"
      "delete_user_sessions (us_id u) d3 = (Inr (), d')"
    using k by (auto simp: attempt_case guard_simps split: if_splits)
  then show ?thesis
  proof cases
    case missing
    from user_by_username_missing [OF inv1 missing(1,2)] have
      d2: "d2 = pop_fault d1" "\<forall>ur \<in> set (db_users d2). ?coll (ur_username ur) \<noteq> ?coll ?n" by auto
    from missing(3) obtain i u where "create_user ?coll now u d2 = (Inr i, d')"
      "us_username u = ?n" "us_role_id u = ro_id r"
      using d2(2) create_user_not_duplicate [of ?coll now _ d2]
      by (fastforce simp: create_demo_user_def attempt_case split: sum.splits if_splits)
    with create_user_Inr [OF this(1)] d2(1) d1 rr show ?thesis
      by (auto simp: demo_on_role_def)
  next
    case there
    from user_by_username_Inr [OF there(1)] d1 obtain ur where "d' = pop_fault d1"
      "ur \<in> set (db_users d)" "?coll (ur_username ur) = ?coll ?n" "us_role_id u = ur_role_id ur"
      by auto
    with rr there(2) d1 show ?thesis by (auto intro: demo_on_roleI)
  next
    case moved
    from user_by_username_Inr [OF moved(1)] obtain ur where ur: "ur \<in> set (db_users d2)"
      "?coll (ur_username ur) = ?coll ?n" "us_id u = ur_id ur" "db_roles d2 = db_roles d"
      using d1 by auto
    let ?ur = "ur\<lparr>ur_role_id := ro_id r, ur_updated_at := now\<rparr>"
    from set_role_Inr [OF moved(2)] ur have "?ur \<in> set (db_users d3)" "db_roles d3 = db_roles d"
      by auto
    moreover have "db_users d' = db_users d3" "db_roles d' = db_roles d3"
      using delete_user_sessions_Inr [OF moved(3)] by (simp_all add: delete_sessions_def)
    ultimately show ?thesis using ur rr by (auto intro!: demo_on_roleI [of ?ur _ rr])
  qed
qed

lemma ensure_demo_user_idle:
  assumes "db_inv (ae_coll env) d" and "db_faults d = []" and "demo_on_role (ae_coll env) opt d"
    and "\<forall>rr \<in> set (db_roles d). ae_coll env (rr_name rr) = ae_coll env (demo_role_name opt) \<longrightarrow>
      rr_permissions rr \<noteq> None"
  shows "ensure_demo_user env now rnd salt opt d = (Inr (), d)"
proof -
  let ?coll = "ae_coll env" and ?n = "bo_demo_user opt"
  from assms(3) obtain ur rr where ur: "ur \<in> set (db_users d)" "?coll (ur_username ur) = ?coll ?n"
    and rr: "rr \<in> set (db_roles d)" "?coll (rr_name rr) = ?coll (demo_role_name opt)"
      "ur_role_id ur = rr_id rr" by (auto simp: demo_on_role_def)
  from assms(4) rr obtain perms where "rr_permissions rr = Some perms" by blast
  then obtain r where r: "role_by_name ?coll (demo_role_name opt) d = (Inr r, d)" "ro_id r = rr_id rr"
    using role_by_name_finds [OF assms(1) _ rr(1,2)] assms(2) by (auto simp: scan_role_def)
  have "user_of ur rr \<in> set (select_users (\<lambda>u. ?coll (ur_username u) = ?coll ?n) d)"
    unfolding set_select_users using ur rr by (intro bexI [of _ ur] bexI [of _ rr]) simp_all
  then obtain u rest where "select_users (\<lambda>u. ?coll (ur_username u) = ?coll ?n) d = u # rest"
    by (cases "select_users (\<lambda>u. ?coll (ur_username u) = ?coll ?n) d") auto
  then have u: "user_by_username ?coll ?n d = (Inr u, d)"
    using assms(2) by (simp add: user_by_username_def statement_eq first_row_def)
  from user_by_username_Inr [OF u] obtain ur' where "ur' \<in> set (db_users d)"
    "?coll (ur_username ur') = ?coll ?n" "us_role_id u = ur_role_id ur'" by auto
  moreover from this(1,2) ur have "ur' = ur"
    using user_row_unique [OF assms(1), of ur' ur] by simp
  ultimately have "us_role_id u = ro_id r" using rr(3) r(2) by simp
  with r(1) u show ?thesis by (simp add: ensure_demo_user_def)
qed


section \<open>Properties\<close>

lemma holds_role_cong: "db_roles d' = db_roles d \<Longrightarrow> holds_role coll r d' = holds_role coll r d"
  by (simp add: holds_role_def)

lemma builtin_names:
  "map ro_name (builtins opt) = [RoleAdmin, RoleOperator, RoleGuest]
     @ (if bo_demo_commands opt \<noteq> [] then [RoleDemo] else [])"
  by (simp add: builtins_def system_role_def)

lemma demo_role_builtin:
  "\<exists>r \<in> set (builtins opt). ro_name r = demo_role_name opt
     \<and> ro_permissions r = demo_permissions (bo_demo_commands opt)"
  by (auto simp: builtins_def system_role_def demo_role_name_def demo_permissions_def)

lemma bootstrap_done:
  assumes "db_inv (ae_coll env) d"
    and "distinct (map (ae_coll env) [RoleAdmin, RoleOperator, RoleGuest, RoleDemo])"
    and "bootstrap env now rnd salt opt d = (Inr (), d')"
  shows "(\<forall>r \<in> set (builtins opt). holds_role (ae_coll env) r d')
    \<and> (bo_demo_mode opt \<and> bo_demo_user opt \<noteq> [] \<longrightarrow> demo_on_role (ae_coll env) opt d')"
proof -
  let ?coll = "ae_coll env"
  from assms(3) obtain d1 where
    1: "reconcile ?coll now (builtins opt) d = (Inr (), d1)" and
    2: "(if \<not> bo_demo_mode opt \<or> bo_demo_user opt = [] then return ()
        else ensure_demo_user env now rnd salt opt) d1 = (Inr (), d')"
    by (auto simp: bootstrap_def guard_simps)
  have "map (\<lambda>r. ?coll (ro_name r)) (builtins opt) = map ?coll (map ro_name (builtins opt))"
    by simp
  then have dist: "distinct (map (\<lambda>r. ?coll (ro_name r)) (builtins opt))"
    using assms(2) unfolding builtin_names by simp
  note roles = reconcile_done [OF assms(1) 1 dist]
  note inv1 = keepsD [OF keeps_reconcile assms(1) 1]
  show ?thesis
  proof (cases "bo_demo_mode opt \<and> bo_demo_user opt \<noteq> []")
    case True
    with 2 have "ensure_demo_user env now rnd salt opt d1 = (Inr (), d')" by auto
    from ensure_demo_user_done [OF inv1 this] roles show ?thesis
      using holds_role_cong [of d' d1] by auto
  next
    case False
    with 2 roles show ?thesis by (auto split: if_splits)
  qed
qed

text \<open>
  C23. After a start every built-in role holds exactly the permissions its definition in code
  names, whatever it held before; and in demonstration mode the demonstration account is on a
  role that holds exactly what may be read plus the commands the configuration names.
\<close>
theorem bootstrap_establishes_roles:
  assumes "db_inv (ae_coll env) d"
    and "distinct (map (ae_coll env) [RoleAdmin, RoleOperator, RoleGuest, RoleDemo])"
    and "bootstrap env now rnd salt opt d = (Inr (), d')"
  shows "(\<forall>r \<in> set (builtins opt). \<exists>rr \<in> set (db_roles d'). \<exists>perms.
      ae_coll env (rr_name rr) = ae_coll env (ro_name r)
      \<and> rr_permissions rr = Some perms \<and> mset perms = mset (ro_permissions r))
    \<and> (bo_demo_mode opt \<and> bo_demo_user opt \<noteq> [] \<longrightarrow>
      (\<exists>ur \<in> set (db_users d'). \<exists>rr \<in> set (db_roles d'). \<exists>perms.
        ae_coll env (ur_username ur) = ae_coll env (bo_demo_user opt)
        \<and> ur_role_id ur = rr_id rr \<and> rr_permissions rr = Some perms
        \<and> mset perms = mset (demo_permissions (bo_demo_commands opt))))"
proof (intro conjI impI)
  note fin = bootstrap_done [OF assms]
  show "\<forall>r \<in> set (builtins opt). \<exists>rr \<in> set (db_roles d'). \<exists>perms.
      ae_coll env (rr_name rr) = ae_coll env (ro_name r)
      \<and> rr_permissions rr = Some perms \<and> mset perms = mset (ro_permissions r)"
    using fin by (simp add: holds_role_def)
  assume "bo_demo_mode opt \<and> bo_demo_user opt \<noteq> []"
  with fin obtain ur rr where ur: "ur \<in> set (db_users d')" "rr \<in> set (db_roles d')"
    "ae_coll env (ur_username ur) = ae_coll env (bo_demo_user opt)"
    "ae_coll env (rr_name rr) = ae_coll env (demo_role_name opt)" "ur_role_id ur = rr_id rr"
    by (auto simp: demo_on_role_def)
  obtain r where r: "r \<in> set (builtins opt)" "ro_name r = demo_role_name opt"
    "ro_permissions r = demo_permissions (bo_demo_commands opt)"
    using demo_role_builtin by blast
  with fin obtain rr' perms where rr': "rr' \<in> set (db_roles d')"
    "ae_coll env (rr_name rr') = ae_coll env (ro_name r)" "rr_permissions rr' = Some perms"
    "mset perms = mset (ro_permissions r)"
    unfolding holds_role_def by blast
  have "db_inv (ae_coll env) d'" by (rule keepsD [OF keeps_bootstrap assms(1,3)])
  with ur(2,4) rr'(1,2) r(2) have "rr' = rr"
    using role_row_unique [of "ae_coll env" d' rr' rr] by simp
  with ur rr' r(3) show "\<exists>ur \<in> set (db_users d'). \<exists>rr \<in> set (db_roles d'). \<exists>perms.
        ae_coll env (ur_username ur) = ae_coll env (bo_demo_user opt)
        \<and> ur_role_id ur = rr_id rr \<and> rr_permissions rr = Some perms
        \<and> mset perms = mset (demo_permissions (bo_demo_commands opt))"
    by (intro bexI [of _ ur] bexI [of _ rr] exI [of _ perms]) simp_all
qed

definition sample_options :: bootstrap_options where
  "sample_options =
     \<lparr>bo_demo_mode = True, bo_demo_user = ''Guest'', bo_demo_commands = [''toggle'', ''downtime'']\<rparr>"

lemma sample_names_distinct:
  "distinct (map (ae_coll sample_env) [RoleAdmin, RoleOperator, RoleGuest, RoleDemo])"
  by code_simp

lemma sample_bootstrap:
  "\<exists>d'. bootstrap sample_env 5 (Some ''r'') (Some ''s'') sample_options sample_db = (Inr (), d')
     \<and> db_faults d' = []"
proof -
  let ?b = "bootstrap sample_env 5 (Some ''r'') (Some ''s'') sample_options sample_db"
  have "\<not> isl (fst ?b)" "db_faults (snd ?b) = []" by code_simp+
  then show ?thesis using not_isl_unit [of ?b] by auto
qed

theorem bootstrap_establishes_roles_witness:
  "\<exists>d'. bootstrap sample_env 5 (Some ''r'') (Some ''s'') sample_options sample_db = (Inr (), d')
     \<and> (\<exists>ur \<in> set (db_users d'). \<exists>rr \<in> set (db_roles d'). \<exists>perms.
          ur_role_id ur = rr_id rr \<and> rr_permissions rr = Some perms
          \<and> mset perms = mset (demo_permissions [''toggle'', ''downtime'']))"
proof -
  obtain d' where b: "bootstrap sample_env 5 (Some ''r'') (Some ''s'') sample_options sample_db = (Inr (), d')"
    using sample_bootstrap by blast
  have "bo_demo_mode sample_options \<and> bo_demo_user sample_options \<noteq> []"
    "bo_demo_commands sample_options = [''toggle'', ''downtime'']"
    by (simp_all add: sample_options_def)
  with bootstrap_establishes_roles [OF sample_db_inv sample_names_distinct b] b show ?thesis by auto
qed

text \<open>
  C24. Starting is idempotent: a start that went through leaves the tables in a state that the next
  start, with the same configuration, does not change at all.
\<close>
theorem bootstrap_idempotent:
  assumes "db_inv (ae_coll env) d"
    and "distinct (map (ae_coll env) [RoleAdmin, RoleOperator, RoleGuest, RoleDemo])"
    and "bootstrap env now rnd salt opt d = (Inr (), d')" and "db_faults d' = []"
  shows "bootstrap env now' rnd' salt' opt d' = (Inr (), d')"
proof -
  note fin = bootstrap_done [OF assms(1-3)]
  have inv: "db_inv (ae_coll env) d'" by (rule keepsD [OF keeps_bootstrap assms(1,3)])
  obtain r where r: "r \<in> set (builtins opt)" "ro_name r = demo_role_name opt"
    using demo_role_builtin by blast
  with fin obtain rr' perms where rr': "rr' \<in> set (db_roles d')"
    "ae_coll env (rr_name rr') = ae_coll env (demo_role_name opt)" "rr_permissions rr' = Some perms"
    unfolding holds_role_def by metis
  have readable: "\<forall>rr \<in> set (db_roles d'). ae_coll env (rr_name rr) = ae_coll env (demo_role_name opt) \<longrightarrow>
      rr_permissions rr \<noteq> None"
    using role_row_unique [OF inv _ rr'(1)] rr'(2,3) by fastforce
  have "reconcile (ae_coll env) now' (builtins opt) d' = (Inr (), d')"
    using fin by (intro reconcile_idle [OF inv assms(4)]) blast
  moreover have "ensure_demo_user env now' rnd' salt' opt d' = (Inr (), d')"
    if "bo_demo_mode opt \<and> bo_demo_user opt \<noteq> []"
    using fin that readable by (intro ensure_demo_user_idle [OF inv assms(4)]) auto
  ultimately show ?thesis by (simp add: bootstrap_def)
qed

theorem bootstrap_idempotent_witness:
  "\<exists>d'. bootstrap sample_env 5 (Some ''r'') (Some ''s'') sample_options sample_db = (Inr (), d')
     \<and> bootstrap sample_env 9 None None sample_options d' = (Inr (), d')"
  using sample_bootstrap bootstrap_idempotent [OF sample_db_inv sample_names_distinct] by blast

end
