(* ===== verification/Migrate.thy ===== *)
theory Migrate
  imports GoStrings
begin

text \<open>
  The schema migrations (\<^verbatim>\<open>internal/migrate/migrate.go\<close>). The files embedded in the binary are a
  parameter, and so is what MySQL does with one of their statements: the effect on the schema, and
  whether it is one of those that end the open transaction (every \<open>CREATE TABLE\<close> does). A
  transaction is the state to return to; once a statement has ended it there is none, and what
  follows takes effect at once. \<open>mc_faults\<close> says which of the coming round trips fail; one that
  fails changes nothing.
\<close>

section \<open>The statements of a file\<close>

abbreviation newline :: char where "newline \<equiv> CHR 0x0A"

fun statements_loop :: "string list \<Rightarrow> string list \<Rightarrow> string \<Rightarrow> string list \<times> string" where
  "statements_loop [] out cur = (out, cur)"
| "statements_loop (line # lines) out cur =
     (let trimmed = trim_space line in
      if trimmed = [] \<or> has_prefix trimmed ''--'' then statements_loop lines out cur
      else
        let cur = cur @ line @ [newline] in
        if has_suffix trimmed '';'' then
          let s = trim_space (trim_suffix (trim_space cur) '';'') in
          statements_loop lines (if s \<noteq> [] then out @ [s] else out) []
        else statements_loop lines out cur)"

definition statements :: "string \<Rightarrow> string list" where
  "statements body =
     (case statements_loop (split_on newline body) [] [] of
        (out, cur) \<Rightarrow> let s = trim_space cur in if s \<noteq> [] then out @ [s] else out)"

section \<open>Running the migrations\<close>

record 'd tables =
  tb_versions :: "(string \<times> int64) list option"  \<comment> \<open>\<open>sei_schema_migrations\<close>, once it exists\<close>
  tb_schema :: 'd

record 'd mig_conn =
  mc_tables :: "'d tables"
  mc_undo :: "'d tables option"  \<comment> \<open>what a rollback of the open transaction restores\<close>
  mc_locked :: bool
  mc_faults :: "bool list"

record 'd mig_env =
  me_files :: "(string \<times> bool \<times> string) list"  \<comment> \<open>name, is a directory, content\<close>
  me_exec :: "string \<Rightarrow> 'd \<Rightarrow> 'd option"
  me_commits :: "string \<Rightarrow> bool"
  me_now :: "string \<Rightarrow> int64"
  me_coll :: "string \<Rightarrow> string"

datatype lock_reply = LockNull | LockValue int64

datatype migrate_error =
    AcquiringConnection
  | AcquiringLock
  | LockHeld
  | CreatingTable
  | ReadingVersions
  | ReadingFile string
  | BeginFailed string
  | StatementFailed string nat
  | RecordingFailed string
  | CommitFailed string

type_synonym ('d, 'a) mig_op = "('d mig_conn, migrate_error, 'a) step"

definition round_trip :: "migrate_error \<Rightarrow> ('d, 'a) mig_op \<Rightarrow> ('d, 'a) mig_op" where
  "round_trip e body c =
     (let c' = c\<lparr>mc_faults := tl (mc_faults c)\<rparr>
      in if mc_faults c \<noteq> [] \<and> hd (mc_faults c) then (Inl e, c') else body c')"

definition get_lock :: "lock_reply \<Rightarrow> ('d, unit) mig_op" where
  "get_lock got =
     round_trip AcquiringLock (\<lambda>c.
       if got = LockValue 1 then (Inr (), c\<lparr>mc_locked := True\<rparr>) else (Inl LockHeld, c))"

text \<open>The result of the release is not looked at: a connection that breaks loses the lock too.\<close>

definition release_lock :: "'d mig_conn \<Rightarrow> 'd mig_conn" where
  "release_lock c = c\<lparr>mc_faults := tl (mc_faults c), mc_locked := False\<rparr>"

definition versions_of :: "'d tables \<Rightarrow> (string \<times> int64) list" where
  "versions_of t = (case tb_versions t of None \<Rightarrow> [] | Some vs \<Rightarrow> vs)"

definition ensure_table :: "('d, unit) mig_op" where
  "ensure_table =
     round_trip CreatingTable (\<lambda>c.
       (Inr (), c\<lparr>mc_tables := (mc_tables c)\<lparr>tb_versions := Some (versions_of (mc_tables c))\<rparr>\<rparr>))"

definition applied_versions :: "('d, string list) mig_op" where
  "applied_versions =
     round_trip ReadingVersions (\<lambda>c. (Inr (map fst (versions_of (mc_tables c))), c))"

definition migration_names :: "'d mig_env \<Rightarrow> string list" where
  "migration_names env =
     sort (map fst (filter (\<lambda>(name, is_dir, _). \<not> is_dir \<and> has_suffix name ''.sql'') (me_files env)))"

definition version_of :: "string \<Rightarrow> string" where
  "version_of name = trim_suffix name ''.sql''"

definition read_file :: "'d mig_env \<Rightarrow> string \<Rightarrow> string option" where
  "read_file env name = map_option snd (map_of (me_files env) name)"

definition begin_tx :: "string \<Rightarrow> ('d, unit) mig_op" where
  "begin_tx version =
     round_trip (BeginFailed version) (\<lambda>c. (Inr (), c\<lparr>mc_undo := Some (mc_tables c)\<rparr>))"

definition exec_statement :: "'d mig_env \<Rightarrow> string \<Rightarrow> nat \<Rightarrow> string \<Rightarrow> ('d, unit) mig_op" where
  "exec_statement env version i stmt =
     round_trip (StatementFailed version (Suc i)) (\<lambda>c.
       let c' = (if me_commits env stmt then c\<lparr>mc_undo := None\<rparr> else c) in
       case me_exec env stmt (tb_schema (mc_tables c)) of
         None \<Rightarrow> (Inl (StatementFailed version (Suc i)), c')
       | Some d \<Rightarrow> (Inr (), c'\<lparr>mc_tables := (mc_tables c)\<lparr>tb_schema := d\<rparr>\<rparr>))"

fun exec_statements :: "'d mig_env \<Rightarrow> string \<Rightarrow> nat \<Rightarrow> string list \<Rightarrow> ('d, unit) mig_op" where
  "exec_statements env version i [] = return ()"
| "exec_statements env version i (stmt # stmts) =
     bind_step (exec_statement env version i stmt)
       (\<lambda>_. exec_statements env version (Suc i) stmts)"

text \<open>The row of a version: the key is compared by the collation and holds 190 characters.\<close>

definition record_version :: "'d mig_env \<Rightarrow> string \<Rightarrow> ('d, unit) mig_op" where
  "record_version env version =
     round_trip (RecordingFailed version) (\<lambda>c.
       let vs = versions_of (mc_tables c) in
       if tb_versions (mc_tables c) = None \<or> 190 < length (go_runes version)
          \<or> list_ex (\<lambda>(v, _). me_coll env v = me_coll env version) vs
       then (Inl (RecordingFailed version), c)
       else (Inr (), c\<lparr>mc_tables := (mc_tables c)
                         \<lparr>tb_versions := Some (vs @ [(version, me_now env version)])\<rparr>\<rparr>))"

definition commit_tx :: "string \<Rightarrow> ('d, unit) mig_op" where
  "commit_tx version = round_trip (CommitFailed version) (\<lambda>c. (Inr (), c\<lparr>mc_undo := None\<rparr>))"

text \<open>The deferred \<open>Rollback\<close>; after a commit there is nothing to return to.\<close>

definition roll_back :: "'d mig_conn \<Rightarrow> 'd mig_conn" where
  "roll_back c = (case mc_undo c of None \<Rightarrow> c | Some t \<Rightarrow> c\<lparr>mc_tables := t, mc_undo := None\<rparr>)"

definition apply_migration :: "'d mig_env \<Rightarrow> string \<Rightarrow> string \<Rightarrow> ('d, unit) mig_op" where
  "apply_migration env version body =
     bind_step (begin_tx version) (\<lambda>_.
       attempt
         (bind_step (exec_statements env version 0 (statements body)) (\<lambda>_.
          bind_step (record_version env version) (\<lambda>_.
          commit_tx version)))
         (\<lambda>r c. (r, roll_back c)))"

fun apply_all :: "'d mig_env \<Rightarrow> string list \<Rightarrow> string list \<Rightarrow> ('d, unit) mig_op" where
  "apply_all env applied [] = return ()"
| "apply_all env applied (name # names) =
     (if version_of name \<in> set applied then apply_all env applied names
      else case read_file env name of
        None \<Rightarrow> fail (ReadingFile name)
      | Some body \<Rightarrow>
          bind_step (apply_migration env (version_of name) body)
            (\<lambda>_. apply_all env applied names))"

definition run_migrations :: "'d mig_env \<Rightarrow> lock_reply \<Rightarrow> ('d, unit) mig_op" where
  "run_migrations env got =
     bind_step (round_trip AcquiringConnection (return ())) (\<lambda>_.
     bind_step (get_lock got) (\<lambda>_.
       attempt
         (bind_step ensure_table (\<lambda>_.
          bind_step applied_versions (\<lambda>applied.
          apply_all env applied (migration_names env))))
         (\<lambda>r c. (r, release_lock c))))"

section \<open>How far a run gets\<close>

abbreviation recorded :: "'d tables \<Rightarrow> string list" where
  "recorded t \<equiv> map fst (versions_of t)"

text \<open>The files a run has to apply, and their statements one after the other.\<close>

definition pending :: "'d mig_env \<Rightarrow> string list \<Rightarrow> string list" where
  "pending env applied = filter (\<lambda>name. version_of name \<notin> set applied) (migration_names env)"

definition stmts_of :: "'d mig_env \<Rightarrow> string \<Rightarrow> string list" where
  "stmts_of env name = (case read_file env name of None \<Rightarrow> [] | Some body \<Rightarrow> statements body)"

definition script :: "'d mig_env \<Rightarrow> string list \<Rightarrow> string list" where
  "script env names = concat (map (stmts_of env) names)"

lemma script_append [simp]: "script env (xs @ ys) = script env xs @ script env ys"
  by (simp add: script_def)

lemma script_Cons [simp]: "script env (x # xs) = stmts_of env x @ script env xs"
  by (simp add: script_def)

lemma apply_all_pending:
  "apply_all env applied names = apply_all env [] (filter (\<lambda>name. version_of name \<notin> set applied) names)"
proof (induction names)
  case (Cons name names)
  show ?case
  proof (cases "version_of name \<in> set applied")
    case False
    have "apply_all env applied (name # names)
        = (case read_file env name of None \<Rightarrow> fail (ReadingFile name) | Some body \<Rightarrow>
            bind_step (apply_migration env (version_of name) body) (\<lambda>_. apply_all env applied names))"
      using False by simp
    also have "\<dots> = apply_all env [] (filter (\<lambda>name. version_of name \<notin> set applied) (name # names))"
      unfolding Cons.IH using False by simp
    finally show ?thesis .
  qed (use Cons.IH in simp)
qed simp

lemma round_trip_cases:
  assumes "round_trip e body c = (r, c')"
  obtains "r = Inl e" "c' = c\<lparr>mc_faults := tl (mc_faults c)\<rparr>"
    | "body (c\<lparr>mc_faults := tl (mc_faults c)\<rparr>) = (r, c')"
proof (cases "mc_faults c \<noteq> [] \<and> hd (mc_faults c)")
  case True
  with assms show thesis by (intro that(1)) (simp_all add: round_trip_def Let_def)
next
  case False
  with assms show thesis by (intro that(2)) (simp add: round_trip_def Let_def)
qed

text \<open>
  \<open>Q i\<close> says of a schema that it is at least as far as the first \<open>i\<close> statements of a script
  \<open>A\<close>; \<open>advances\<close> are the two laws by which statements carry it on.
\<close>

definition advances :: "'d mig_env \<Rightarrow> string list \<Rightarrow> (nat \<Rightarrow> 'd \<Rightarrow> bool) \<Rightarrow> bool" where
  "advances env A Q \<longleftrightarrow>
     (\<forall>pre s post d d'. A = pre @ s # post \<longrightarrow> Q (length pre) d \<longrightarrow> me_exec env s d = Some d' \<longrightarrow>
        Q (Suc (length pre)) d')
     \<and> (\<forall>i k d. i \<le> k \<longrightarrow> Q k d \<longrightarrow> Q i d)"

lemma advances_step:
  assumes "advances env (pre @ s # post) Q" and "Q (length pre) d" and "me_exec env s d = Some d'"
  shows "Q (Suc (length pre)) d'"
  using assms(1) [unfolded advances_def, THEN conjunct1, rule_format, OF refl assms(2,3)] .

lemma advances_le:
  assumes "advances env A Q" and "Q k d" and "i \<le> k"
  shows "Q i d"
  using assms(1) [unfolded advances_def, THEN conjunct2, rule_format, OF assms(3,2)] .

lemma exec_statement_effect:
  assumes "exec_statement env v i s c = (r, c')"
  shows "tb_versions (mc_tables c') = tb_versions (mc_tables c) \<and> mc_locked c' = mc_locked c
    \<and> (mc_undo c' = mc_undo c \<or> mc_undo c' = None)
    \<and> (if r = Inr () then me_exec env s (tb_schema (mc_tables c)) = Some (tb_schema (mc_tables c'))
       else mc_tables c' = mc_tables c)"
  using assms unfolding exec_statement_def
  by (elim round_trip_cases) (auto simp: Let_def split: option.splits if_splits)

lemma exec_statements_progress:
  assumes "advances env (pre @ ss @ post) Q" and "Q (length pre) (tb_schema (mc_tables c))"
    and "exec_statements env v i ss c = (r, c')"
  shows "tb_versions (mc_tables c') = tb_versions (mc_tables c) \<and> mc_locked c' = mc_locked c
    \<and> (mc_undo c' = mc_undo c \<or> mc_undo c' = None) \<and> Q (length pre) (tb_schema (mc_tables c'))
    \<and> (r = Inr () \<longrightarrow> Q (length (pre @ ss)) (tb_schema (mc_tables c')))"
  using assms
proof (induction ss arbitrary: pre i c)
  case Nil
  then show ?case by simp
next
  case (Cons s ss)
  obtain r1 c1 where 1: "exec_statement env v i s c = (r1, c1)" by fastforce
  note e = exec_statement_effect [OF 1]
  show ?case
  proof (cases r1)
    case (Inl e1)
    with 1 Cons.prems(3) have "r = Inl e1" "c' = c1" by simp_all
    with e Inl Cons.prems(2) show ?thesis by simp
  next
    case (Inr u)
    with e have "me_exec env s (tb_schema (mc_tables c)) = Some (tb_schema (mc_tables c1))" by simp
    from advances_step [where pre = pre and post = "ss @ post" and Q = Q, OF _ Cons.prems(2) this] Cons.prems(1)
    have q: "Q (length (pre @ [s])) (tb_schema (mc_tables c1))" by simp
    have rest: "exec_statements env v (Suc i) ss c1 = (r, c')" using Cons.prems(3) 1 Inr by simp
    have adv: "advances env ((pre @ [s]) @ ss @ post) Q" using Cons.prems(1) by simp
    have ih: "tb_versions (mc_tables c') = tb_versions (mc_tables c1)
      \<and> mc_locked c' = mc_locked c1 \<and> (mc_undo c' = mc_undo c1 \<or> mc_undo c' = None)
      \<and> Q (length (pre @ [s])) (tb_schema (mc_tables c'))
      \<and> (r = Inr () \<longrightarrow> Q (length ((pre @ [s]) @ ss)) (tb_schema (mc_tables c')))"
      by (rule Cons.IH [OF adv q rest])
    then have "Q (length pre) (tb_schema (mc_tables c'))"
      using advances_le [where Q = Q, OF Cons.prems(1), of "length (pre @ [s])" _ "length pre"] by simp
    with ih e show ?thesis by auto
  qed
qed

text \<open>The tables after the first \<open>j\<close> of the files \<open>names\<close>, from what was recorded before.\<close>

definition standing ::
  "'d mig_env \<Rightarrow> (nat \<Rightarrow> 'd \<Rightarrow> bool) \<Rightarrow> string list \<Rightarrow> string list \<Rightarrow> nat \<Rightarrow> 'd tables \<Rightarrow> bool" where
  "standing env Q before names j t \<longleftrightarrow>
     j \<le> length names \<and> recorded t = before @ map version_of (take j names)
     \<and> Q (length (script env (take j names))) (tb_schema t)"

lemma apply_migration_progress:
  assumes adv: "advances env (script env names) Q" and at: "standing env Q before names j (mc_tables c)"
    and j: "j < length names" and body: "read_file env (names ! j) = Some body"
    and u: "mc_undo c = None"
    and run: "apply_migration env (version_of (names ! j)) body c = (r, c')"
  shows "mc_undo c' = None \<and> mc_locked c' = mc_locked c
    \<and> (standing env Q before names (Suc j) (mc_tables c')
       \<or> r \<noteq> Inr () \<and> standing env Q before names j (mc_tables c'))"
proof -
  let ?v = "version_of (names ! j)" and ?pre = "script env (take j names)"
  have split: "script env names = ?pre @ statements body @ script env (drop (Suc j) names)"
    using id_take_nth_drop [OF j] body by (metis script_append script_Cons stmts_of_def option.simps(5))
  have next_script: "script env (take (Suc j) names) = ?pre @ statements body"
    using j body by (simp add: take_Suc_conv_app_nth stmts_of_def script_def)
  obtain r0 c0 where 0: "begin_tx ?v c = (r0, c0)" by fastforce
  then have c0: "mc_tables c0 = mc_tables c \<and> mc_locked c0 = mc_locked c
      \<and> (r0 = Inr () \<and> mc_undo c0 = Some (mc_tables c) \<or> r0 \<noteq> Inr () \<and> mc_undo c0 = None)"
    using u unfolding begin_tx_def by (elim round_trip_cases) auto
  show ?thesis
  proof (cases r0)
    case (Inl e)
    with 0 run have "r = Inl e" "c' = c0" by (simp_all add: apply_migration_def)
    with c0 Inl at show ?thesis by simp
  next
    case (Inr x)
    with c0 have undo0: "mc_undo c0 = Some (mc_tables c)" by auto
    obtain r1 c1 where 1: "exec_statements env ?v 0 (statements body) c0 = (r1, c1)" by fastforce
    have e: "tb_versions (mc_tables c1) = tb_versions (mc_tables c0) \<and> mc_locked c1 = mc_locked c0
      \<and> (mc_undo c1 = mc_undo c0 \<or> mc_undo c1 = None) \<and> Q (length ?pre) (tb_schema (mc_tables c1))
      \<and> (r1 = Inr () \<longrightarrow> Q (length (?pre @ statements body)) (tb_schema (mc_tables c1)))"
      using exec_statements_progress [OF adv [unfolded split] _ 1] at c0
      by (simp add: standing_def)
    then have rec1: "recorded (mc_tables c1) = recorded (mc_tables c)" using c0 by (simp add: versions_of_def)
    have at1: "standing env Q before names j (mc_tables c1)"
      using e at rec1 by (simp add: standing_def)
    show ?thesis
    proof (cases r1)
      case (Inl e1)
      with 0 1 \<open>r0 = Inr x\<close> run have "r = Inl e1" "c' = roll_back c1" by (simp_all add: apply_migration_def)
      with e at1 at undo0 c0 show ?thesis by (auto simp: roll_back_def)
    next
      case (Inr y)
      obtain r2 c2 where 2: "record_version env ?v c1 = (r2, c2)" by fastforce
      then have c2: "tb_schema (mc_tables c2) = tb_schema (mc_tables c1) \<and> mc_locked c2 = mc_locked c1
        \<and> mc_undo c2 = mc_undo c1
        \<and> (if r2 = Inr () then recorded (mc_tables c2) = recorded (mc_tables c1) @ [?v]
           else mc_tables c2 = mc_tables c1)"
        unfolding record_version_def
        by (elim round_trip_cases) (auto simp: Let_def versions_of_def split: if_splits)
      show ?thesis
      proof (cases r2)
        case (Inl e2)
        with 0 1 2 \<open>r0 = Inr x\<close> \<open>r1 = Inr y\<close> run have "r = Inl e2" "c' = roll_back c2"
          by (simp_all add: apply_migration_def)
        with e at1 at undo0 c0 c2 Inl show ?thesis by (auto simp: roll_back_def)
      next
        case (Inr z)
        have at2: "standing env Q before names (Suc j) (mc_tables c2)"
          using c2 Inr e \<open>r1 = Inr y\<close> at j rec1 next_script
          by (simp add: standing_def take_Suc_conv_app_nth [OF j])
        obtain r3 c3 where 3: "commit_tx ?v c2 = (r3, c3)" by fastforce
        then have c3: "mc_tables c3 = mc_tables c2 \<and> mc_locked c3 = mc_locked c2
          \<and> (mc_undo c3 = None \<or> r3 \<noteq> Inr () \<and> mc_undo c3 = mc_undo c2)"
          unfolding commit_tx_def by (elim round_trip_cases) auto
        from 0 1 2 3 \<open>r0 = Inr x\<close> \<open>r1 = Inr y\<close> \<open>r2 = Inr z\<close> run have "r = r3" "c' = roll_back c3"
          by (simp_all add: apply_migration_def)
        with c3 at2 at e c0 c2 undo0 show ?thesis by (auto simp: roll_back_def)
      qed
    qed
  qed
qed

lemma apply_all_progress:
  assumes "advances env (script env names) Q" and "standing env Q before names j (mc_tables c)"
    and "mc_undo c = None" and "apply_all env [] (drop j names) c = (r, c')"
  shows "\<exists>j' \<ge> j. standing env Q before names j' (mc_tables c') \<and> (r = Inr () \<longrightarrow> j' = length names)
    \<and> mc_undo c' = None \<and> mc_locked c' = mc_locked c"
  using assms
proof (induction "length names - j" arbitrary: j c)
  case 0
  then have "j = length names" by (simp add: standing_def)
  with 0 show ?case by auto
next
  case (Suc n)
  then have j: "j < length names" by simp
  then have d: "drop j names = names ! j # drop (Suc j) names" by (simp add: Cons_nth_drop_Suc)
  show ?case
  proof (cases "read_file env (names ! j)")
    case None
    with Suc.prems d have "r = Inl (ReadingFile (names ! j))" "c' = c" by simp_all
    with Suc.prems show ?thesis by auto
  next
    case (Some body)
    obtain r1 c1 where 1: "apply_migration env (version_of (names ! j)) body c = (r1, c1)" by fastforce
    from apply_migration_progress [where Q = Q, OF Suc.prems(1,2) j Some Suc.prems(3) 1]
    have p: "mc_undo c1 = None" "mc_locked c1 = mc_locked c"
      "standing env Q before names (Suc j) (mc_tables c1)
       \<or> r1 \<noteq> Inr () \<and> standing env Q before names j (mc_tables c1)" by auto
    show ?thesis
    proof (cases r1)
      case (Inl e)
      with 1 Suc.prems(4) d Some have "r = Inl e" "c' = c1" by simp_all
      with p show ?thesis by (auto intro: exI [of _ j] exI [of _ "Suc j"])
    next
      case (Inr x)
      with 1 Suc.prems(4) d Some have "apply_all env [] (drop (Suc j) names) c1 = (r, c')" by simp
      moreover have "standing env Q before names (Suc j) (mc_tables c1)" "n = length names - Suc j"
        using p(3) Inr Suc.hyps(2) by auto
      ultimately show ?thesis using Suc.hyps(1) [of "Suc j" c1] Suc.prems(1) p(1,2)
        by (metis Suc_leD)
    qed
  qed
qed

lemma run_progress:
  assumes adv: "advances env (script env names) Q" and at: "standing env Q before names j (mc_tables c)"
    and rest: "pending env (recorded (mc_tables c)) = drop j names"
    and u: "mc_undo c = None" and l: "\<not> mc_locked c" and run: "run_migrations env got c = (r, c')"
  shows "(\<exists>j' \<ge> j. standing env Q before names j' (mc_tables c')
      \<and> (r = Inr () \<longrightarrow> j' = length names \<and> got = LockValue 1))
    \<and> (got \<noteq> LockValue 1 \<longrightarrow> mc_tables c' = mc_tables c) \<and> mc_undo c' = None \<and> \<not> mc_locked c'"
proof -
  let ?body = "bind_step ensure_table (\<lambda>_. bind_step applied_versions (\<lambda>applied.
      apply_all env applied (migration_names env)))"
  obtain r0 c0 where 0: "round_trip AcquiringConnection (return ()) c = (r0, c0)" by fastforce
  then have c0: "mc_tables c0 = mc_tables c" "mc_undo c0 = None" "\<not> mc_locked c0"
    using u l by (auto elim!: round_trip_cases)
  obtain r1 c1 where 1: "get_lock got c0 = (r1, c1)" by fastforce
  then have c1: "mc_tables c1 = mc_tables c" "mc_undo c1 = None"
    "if r1 = Inr () then got = LockValue 1 else \<not> mc_locked c1"
    using c0 unfolding get_lock_def by (auto elim!: round_trip_cases split: if_splits)
  show ?thesis
  proof (cases "r0 = Inr () \<and> r1 = Inr ()")
    case False
    then have "r \<noteq> Inr () \<and> mc_tables c' = mc_tables c \<and> mc_undo c' = None \<and> \<not> mc_locked c'"
      using run 0 1 c0 c1 by (cases r0; cases r1) (auto simp: run_migrations_def)
    with at show ?thesis by auto
  next
    case True
    obtain r2 c2 where 2: "?body c1 = (r2, c2)" by fastforce
    have r: "r = r2" "c' = release_lock c2"
      using run 0 1 2 True by (simp_all add: run_migrations_def)
    obtain r3 c3 where 3: "ensure_table c1 = (r3, c3)" by fastforce
    then have c3: "standing env Q before names j (mc_tables c3)" "mc_undo c3 = None"
      "recorded (mc_tables c3) = recorded (mc_tables c)"
      using at c1 unfolding ensure_table_def
      by (auto elim!: round_trip_cases simp: standing_def versions_of_def)
    have "\<exists>j' \<ge> j. standing env Q before names j' (mc_tables c2) \<and> (r2 = Inr () \<longrightarrow> j' = length names)
        \<and> mc_undo c2 = None"
    proof (cases r3)
      case (Inl e)
      with 2 3 have "r2 = Inl e" "c2 = c3" by simp_all
      with c3 show ?thesis by auto
    next
      case (Inr x)
      obtain r4 c4 where 4: "applied_versions c3 = (r4, c4)" by fastforce
      then have c4: "mc_tables c4 = mc_tables c3" "mc_undo c4 = None"
        "\<And>vs. r4 = Inr vs \<Longrightarrow> vs = recorded (mc_tables c)"
        using c3 unfolding applied_versions_def by (auto elim!: round_trip_cases)
      show ?thesis
      proof (cases r4)
        case (Inl e)
        with 2 3 4 Inr have "r2 = Inl e" "c2 = c4" by simp_all
        with c3 c4 show ?thesis by auto
      next
        case (Inr vs)
        have "apply_all env [] (drop j names) c4 = (r2, c2)"
          using 2 3 4 \<open>r3 = Inr x\<close> Inr c4(3) rest apply_all_pending [of env vs "migration_names env"]
          by (simp add: pending_def)
        from apply_all_progress [where Q = Q, OF adv _ c4(2) this] c3(1) c4(1) show ?thesis by auto
      qed
    qed
    with r c1 True show ?thesis by (auto simp: release_lock_def)
  qed
qed

lemma advances_always: "advances env A (\<lambda>_ _. True)"
  by (simp add: advances_def)

text \<open>
  C25. Whatever fails on the way, a run records the versions it had still to apply in the order of
  their file names and without a gap: what it recorded is a first part of what was pending, and all
  of it when the run reports success. A process that does not get the lock changes nothing, and no
  run leaves a transaction open or the lock held.
\<close>
theorem migrations_in_order:
  assumes "run_migrations env got c = (r, c')" and "mc_undo c = None" and "\<not> mc_locked c"
  shows "(\<exists>done. prefix done (pending env (recorded (mc_tables c)))
      \<and> recorded (mc_tables c') = recorded (mc_tables c) @ map version_of done
      \<and> (r = Inr () \<longrightarrow> done = pending env (recorded (mc_tables c)) \<and> got = LockValue 1))
    \<and> sorted (pending env (recorded (mc_tables c)))
    \<and> (got \<noteq> LockValue 1 \<longrightarrow> mc_tables c' = mc_tables c) \<and> mc_undo c' = None \<and> \<not> mc_locked c'"
proof -
  let ?names = "pending env (recorded (mc_tables c))"
  have "standing env (\<lambda>_ _. True) (recorded (mc_tables c)) ?names 0 (mc_tables c)"
    by (simp add: standing_def)
  from run_progress [OF advances_always this _ assms(2,3,1)]
  obtain j where "standing env (\<lambda>_ _. True) (recorded (mc_tables c)) ?names j (mc_tables c')"
    "r = Inr () \<longrightarrow> j = length ?names \<and> got = LockValue 1"
    and rest: "(got \<noteq> LockValue 1 \<longrightarrow> mc_tables c' = mc_tables c) \<and> mc_undo c' = None \<and> \<not> mc_locked c'"
    by auto
  then have "prefix (take j ?names) ?names
      \<and> recorded (mc_tables c') = recorded (mc_tables c) @ map version_of (take j ?names)
      \<and> (r = Inr () \<longrightarrow> take j ?names = ?names \<and> got = LockValue 1)"
    by (auto simp: standing_def take_is_prefix)
  moreover have "sorted ?names" by (simp add: pending_def migration_names_def sorted_wrt_filter)
  ultimately show ?thesis using rest by blast
qed

definition sample_mig_env :: "string list mig_env" where
  "sample_mig_env =
     \<lparr>me_files = [(''0002_b.sql'', False, ''CREATE b;''), (''0001_a.sql'', False, ''CREATE a;''),
                  (''notes.txt'', False, ''none''), (''old.sql'', True, [])],
      me_exec = (\<lambda>stmt d. Some (if stmt \<in> set d then d else d @ [stmt])), me_commits = (\<lambda>_. True),
      me_now = (\<lambda>_. 1700000000), me_coll = (\<lambda>v. v)\<rparr>"

definition sample_conn :: "bool list \<Rightarrow> string list mig_conn" where
  "sample_conn faults =
     \<lparr>mc_tables = \<lparr>tb_versions = None, tb_schema = []\<rparr>, mc_undo = None, mc_locked = False,
      mc_faults = faults\<rparr>"

lemma migrations_in_order_witness:
  "case run_migrations sample_mig_env (LockValue 1) (sample_conn []) of
     (r, c') \<Rightarrow> r = Inr () \<and> recorded (mc_tables c') = [''0001_a'', ''0002_b'']"
proof -
  obtain r c' where run: "run_migrations sample_mig_env (LockValue 1) (sample_conn []) = (r, c')"
    by fastforce
  have "fst (run_migrations sample_mig_env (LockValue 1) (sample_conn [])) = Inr ()" by code_simp
  with run have r: "r = Inr ()" by simp
  have c: "mc_undo (sample_conn []) = None" "\<not> mc_locked (sample_conn [])"
    "recorded (mc_tables (sample_conn [])) = []" by (simp_all add: sample_conn_def versions_of_def)
  have p: "map version_of (pending sample_mig_env []) = [''0001_a'', ''0002_b'']" by code_simp
  from migrations_in_order [OF run c(1,2)] r have "recorded (mc_tables c')
      = recorded (mc_tables (sample_conn [])) @ map version_of (pending sample_mig_env
          (recorded (mc_tables (sample_conn []))))" by blast
  with run r c(3) p show ?thesis by simp
qed

section \<open>Interrupted runs\<close>

text \<open>
  What the statements of the migrations do when they are made twice: \<open>made s d\<close> says that the schema
  \<open>d\<close> has what \<open>s\<close> creates. A statement makes it, no other one takes it away, and with
  \<open>IF NOT EXISTS\<close> one that finds it there does nothing.
\<close>

definition repeatable :: "'d mig_env \<Rightarrow> (string \<Rightarrow> 'd \<Rightarrow> bool) \<Rightarrow> bool" where
  "repeatable env made \<longleftrightarrow>
     (let A = set (script env (migration_names env)) in
      \<forall>s \<in> A. (\<forall>d d'. me_exec env s d = Some d' \<longrightarrow> made s d' \<and> (\<forall>t \<in> A. made t d \<longrightarrow> made t d'))
        \<and> (\<forall>d. made s d \<longrightarrow> me_exec env s d = Some d))"

lemma repeatable_exec:
  assumes "repeatable env made" and "s \<in> set (script env (migration_names env))"
    and "me_exec env s d = Some d'"
  shows "made s d' \<and> (\<forall>t \<in> set (script env (migration_names env)). made t d \<longrightarrow> made t d')"
  using assms(1) [unfolded repeatable_def Let_def, rule_format, OF assms(2), THEN conjunct1,
      rule_format, OF assms(3)] .

lemma repeatable_again:
  assumes "repeatable env made" and "s \<in> set (script env (migration_names env))" and "made s d"
  shows "me_exec env s d = Some d"
  using assms(1) [unfolded repeatable_def Let_def, rule_format, OF assms(2), THEN conjunct2,
      rule_format, OF assms(3)] .

fun exec_all :: "'d mig_env \<Rightarrow> string list \<Rightarrow> 'd \<Rightarrow> 'd option" where
  "exec_all env [] d = Some d"
| "exec_all env (s # ss) d = Option.bind (me_exec env s d) (exec_all env ss)"

lemma exec_all_append: "exec_all env (xs @ ys) d = Option.bind (exec_all env xs d) (exec_all env ys)"
proof (induction xs arbitrary: d)
  case (Cons x xs)
  then show ?case by (cases "me_exec env x d") simp_all
qed simp

definition beyond :: "'d mig_env \<Rightarrow> string list \<Rightarrow> 'd \<Rightarrow> nat \<Rightarrow> 'd \<Rightarrow> bool" where
  "beyond env A d0 i d \<longleftrightarrow> (\<exists>k \<ge> i. k \<le> length A \<and> exec_all env (take k A) d0 = Some d)"

lemma exec_all_made:
  assumes "repeatable env made" and "set ss \<subseteq> set (script env (migration_names env))"
    and "exec_all env ss d0 = Some d"
  shows "\<forall>s \<in> set ss. made s d"
  using assms(2,3)
proof (induction ss arbitrary: d rule: rev_induct)
  case (snoc s ss)
  then obtain e where e: "exec_all env ss d0 = Some e" "me_exec env s e = Some d"
    by (auto simp: exec_all_append bind_eq_Some_conv)
  with snoc have "\<forall>t \<in> set ss. made t e" by simp
  moreover have "made s d \<and> (\<forall>t \<in> set (script env (migration_names env)). made t e \<longrightarrow> made t d)"
    using snoc.prems(1) by (intro repeatable_exec [OF assms(1) _ e(2)]) simp
  ultimately show ?case using snoc.prems(1) by auto
qed simp

lemma advances_beyond:
  assumes "repeatable env made" and sub: "set A \<subseteq> set (script env (migration_names env))"
  shows "advances env A (beyond env A d0)"
  unfolding advances_def
proof (intro conjI allI impI)
  fix pre s post d d'
  assume A: "A = pre @ s # post" and b: "beyond env A d0 (length pre) d" and x: "me_exec env s d = Some d'"
  then obtain k where k: "length pre \<le> k" "k \<le> length A" "exec_all env (take k A) d0 = Some d"
    by (auto simp: beyond_def)
  show "beyond env A d0 (Suc (length pre)) d'"
  proof (cases "k = length pre")
    case True
    with k x A have "exec_all env (take (Suc (length pre)) A) d0 = Some d'"
      by (simp add: exec_all_append)
    with A show ?thesis unfolding beyond_def by (intro exI [of _ "Suc (length pre)"]) simp
  next
    case False
    with k(1) have "s \<in> set (take k A)" by (simp add: A take_Cons')
    with exec_all_made [OF assms(1) _ k(3)] sub have "made s d" by (meson order_trans set_take_subset)
    moreover have "s \<in> set (script env (migration_names env))" using sub A by auto
    ultimately have "me_exec env s d = Some d" by (intro repeatable_again [OF assms(1)])
    with x have "d' = d" by simp
    moreover have "Suc (length pre) \<le> k" using k(1) False by simp
    ultimately show ?thesis using k(2,3) unfolding beyond_def by blast
  qed
qed (auto simp: beyond_def intro: order_trans)

lemma set_script: "set (script env names) = (\<Union>n \<in> set names. set (stmts_of env n))"
  by (simp add: script_def)

lemma trim_suffix_append: "has_suffix s p \<Longrightarrow> s = trim_suffix s p @ p"
  unfolding trim_suffix_def has_suffix_def by (metis append_take_drop_id)

lemma distinct_versions:
  assumes "distinct (map fst (me_files env))"
  shows "distinct (map version_of (migration_names env))"
proof -
  have "distinct (migration_names env)"
    using assms by (simp add: migration_names_def distinct_map_filter)
  moreover have "inj_on version_of (set (migration_names env))"
  proof (rule inj_onI)
    fix a b
    assume a: "a \<in> set (migration_names env)" and b: "b \<in> set (migration_names env)"
      and same: "version_of a = version_of b"
    have whole: "n = version_of n @ ''.sql''" if "n \<in> set (migration_names env)" for n
      using that by (auto simp: migration_names_def version_of_def intro: trim_suffix_append)
    from whole [OF a] whole [OF b] same show "a = b" by simp
  qed
  ultimately show ?thesis by (simp add: distinct_map)
qed

lemma pending_drop:
  assumes "distinct (map version_of (migration_names env))" and "j \<le> length (pending env before)"
  shows "pending env (before @ map version_of (take j (pending env before))) = drop j (pending env before)"
proof -
  let ?N = "pending env before"
  have d: "distinct (map version_of ?N)"
    using assms(1) by (simp add: pending_def distinct_map_filter)
  have "pending env (before @ map version_of (take j ?N))
      = filter (\<lambda>n. version_of n \<notin> version_of ` set (take j ?N)) ?N"
    by (auto simp: pending_def filter_filter intro!: filter_cong)
  also have "\<dots> = filter (\<lambda>n. version_of n \<notin> version_of ` set (take j ?N)) (take j ?N @ drop j ?N)"
    by simp
  also have "\<dots> = drop j ?N"
  proof -
    have "version_of n \<notin> version_of ` set (take j ?N)" if "n \<in> set (drop j ?N)" for n
    proof -
      have "distinct (map version_of (take j ?N) @ map version_of (drop j ?N))"
        using d by (metis append_take_drop_id map_append)
      with that show ?thesis by (auto simp: disjoint_iff)
    qed
    then have "filter (\<lambda>n. version_of n \<notin> version_of ` set (take j ?N)) (drop j ?N) = drop j ?N"
      by (simp only: filter_id_conv) blast
    moreover have "filter (\<lambda>n. version_of n \<notin> version_of ` set (take j ?N)) (take j ?N) = []"
      by (auto simp: filter_empty_conv)
    ultimately show ?thesis by (simp only: filter_append append_Nil)
  qed
  finally show ?thesis .
qed

text \<open>Processes that start one after the other, each with what its request for the lock got.\<close>

fun runs :: "'d mig_env \<Rightarrow> lock_reply list \<Rightarrow> 'd mig_conn \<Rightarrow> 'd mig_conn" where
  "runs env [] c = c"
| "runs env (got # gots) c = runs env gots (snd (run_migrations env got c))"

lemma runs_progress:
  fixes c0 :: "'d mig_conn"
  assumes "repeatable env made" and "distinct (map fst (me_files env))"
    and N: "N = pending env before"
    and "standing env (beyond env (script env N) d0) before N j (mc_tables c0)"
    and "mc_undo c0 = None" and "\<not> mc_locked c0"
  shows "\<exists>j'. standing env (beyond env (script env N) d0) before N j' (mc_tables (runs env gots c0))
    \<and> mc_undo (runs env gots c0) = None \<and> \<not> mc_locked (runs env gots c0)"
  using assms(4,5,6)
proof (induction gots arbitrary: j c0)
  case (Cons got gots)
  obtain r c1 where run: "run_migrations env got c0 = (r, c1)" by fastforce
  have adv: "advances env (script env N) (beyond env (script env N) d0)"
    by (rule advances_beyond [OF assms(1)]) (auto simp: set_script N pending_def)
  have "pending env (recorded (mc_tables c0)) = drop j N"
    using Cons.prems(1) pending_drop [OF distinct_versions [OF assms(2)], of j before]
    by (simp add: standing_def N)
  from run_progress [OF adv Cons.prems(1) this Cons.prems(2,3) run]
  obtain j' where "standing env (beyond env (script env N) d0) before N j' (mc_tables c1)"
    "mc_undo c1 = None" "\<not> mc_locked c1" by blast
  from Cons.IH [OF this] run show ?case by simp
qed auto

lemma success_reaches_script:
  assumes "repeatable env made" and "distinct (map fst (me_files env))"
    and N: "N = pending env before"
    and at: "standing env (beyond env (script env N) d0) before N j (mc_tables c)"
    and "mc_undo c = None" and "\<not> mc_locked c" and run: "run_migrations env got c = (Inr (), c')"
  shows "recorded (mc_tables c') = before @ map version_of N
    \<and> exec_all env (script env N) d0 = Some (tb_schema (mc_tables c'))"
proof -
  have adv: "advances env (script env N) (beyond env (script env N) d0)"
    by (rule advances_beyond [OF assms(1)]) (auto simp: set_script N pending_def)
  have "pending env (recorded (mc_tables c)) = drop j N"
    using at pending_drop [OF distinct_versions [OF assms(2)], of j before]
    by (simp add: standing_def N)
  from run_progress [OF adv at this assms(5,6) run]
  have "standing env (beyond env (script env N) d0) before N (length N) (mc_tables c')" by auto
  then show ?thesis by (auto simp: standing_def beyond_def)
qed

text \<open>
  C9. A run that succeeds after any number of runs that broke off, wherever they broke off, leaves
  the same versions recorded and the same schema as one undisturbed run on the original tables,
  although \<open>CREATE TABLE\<close> cannot be rolled back: the statements of the migrations are repeatable.
\<close>
theorem interrupted_runs_converge:
  assumes "repeatable env made" and "distinct (map fst (me_files env))"
    and "mc_undo c = None" and "\<not> mc_locked c"
    and "run_migrations env got (runs env gots c) = (Inr (), broken)"
    and "run_migrations env got' (c\<lparr>mc_faults := faults\<rparr>) = (Inr (), clean)"
  shows "recorded (mc_tables broken) = recorded (mc_tables clean)
    \<and> tb_schema (mc_tables broken) = tb_schema (mc_tables clean)"
proof -
  let ?before = "recorded (mc_tables c)" and ?d0 = "tb_schema (mc_tables c)"
  let ?N = "pending env ?before"
  let ?Q = "beyond env (script env ?N) ?d0"
  have start: "standing env ?Q ?before ?N 0 (mc_tables c)"
    by (auto simp: standing_def beyond_def script_def intro: exI [of _ 0])
  from runs_progress [OF assms(1,2) refl start assms(3,4)] obtain j where
    "standing env ?Q ?before ?N j (mc_tables (runs env gots c))"
    "mc_undo (runs env gots c) = None" "\<not> mc_locked (runs env gots c)" by blast
  from success_reaches_script [OF assms(1,2) refl this assms(5)]
  have "recorded (mc_tables broken) = ?before @ map version_of ?N
    \<and> exec_all env (script env ?N) ?d0 = Some (tb_schema (mc_tables broken))" .
  moreover have "recorded (mc_tables clean) = ?before @ map version_of ?N
    \<and> exec_all env (script env ?N) ?d0 = Some (tb_schema (mc_tables clean))"
    using success_reaches_script [OF assms(1,2) refl _ _ _ assms(6), of ?before ?d0 0] start assms(3,4)
    by simp
  ultimately show ?thesis by simp
qed

lemma sample_repeatable: "repeatable sample_mig_env (\<lambda>s d. s \<in> set d)"
  by (simp add: repeatable_def sample_mig_env_def Let_def)

text \<open>The second statement's connection breaks, and the next start goes on.\<close>

lemma interrupted_runs_converge_witness:
  "case run_migrations sample_mig_env (LockValue 1)
       (runs sample_mig_env [LockValue 1] (sample_conn [False, False, False, False, False, False, True])) of
     (r, broken) \<Rightarrow> r = Inr () \<and> tb_schema (mc_tables broken) = [''CREATE a'', ''CREATE b'']"
proof -
  let ?c = "sample_conn [False, False, False, False, False, False, True]"
  let ?broken = "run_migrations sample_mig_env (LockValue 1) (runs sample_mig_env [LockValue 1] ?c)"
  let ?clean = "run_migrations sample_mig_env (LockValue 1) (?c\<lparr>mc_faults := []\<rparr>)"
  have "fst ?broken = Inr ()" by code_simp
  then obtain broken where broken: "?broken = (Inr (), broken)" by (cases ?broken) auto
  have "fst ?clean = Inr ()" by code_simp
  then obtain clean where clean: "?clean = (Inr (), clean)" by (cases ?clean) auto
  have "tb_schema (mc_tables (snd ?clean)) = [''CREATE a'', ''CREATE b'']" by code_simp
  with clean have schema: "tb_schema (mc_tables clean) = [''CREATE a'', ''CREATE b'']" by simp
  have c: "mc_undo ?c = None" "\<not> mc_locked ?c" by (simp_all add: sample_conn_def)
  have files: "distinct (map fst (me_files sample_mig_env))" by (simp add: sample_mig_env_def)
  from interrupted_runs_converge [OF sample_repeatable files c broken clean] schema
  have "tb_schema (mc_tables broken) = [''CREATE a'', ''CREATE b'']" by simp
  with broken show ?thesis by (simp del: runs.simps)
qed

text \<open>
  The comment on \<open>Run\<close> has each migration in its own transaction. A second statement that fails
  leaves the first one's table behind all the same.
\<close>

lemma half_applied_migration:
  fixes env :: "string list mig_env"
  defines "env \<equiv> sample_mig_env\<lparr>me_files := [(''1.sql'', False, ''CREATE a;'' @ newline # ''CREATE b;'')]\<rparr>"
  shows "case run_migrations env (LockValue 1) (sample_conn [False, False, False, False, False, False, True]) of
     (r, c) \<Rightarrow> r = Inl (StatementFailed ''1'' 2) \<and> recorded (mc_tables c) = []
       \<and> tb_schema (mc_tables c) = [''CREATE a'']"
  unfolding env_def by code_simp

section \<open>Reading back what a file was written from\<close>

definition ascii :: "string \<Rightarrow> bool" where
  "ascii s \<longleftrightarrow> list_all (\<lambda>c. byte c < 128) s"

abbreviation space :: "char \<Rightarrow> bool" where "space c \<equiv> is_space (byte c)"

definition trim_ascii :: "string \<Rightarrow> string" where
  "trim_ascii s = rev (dropWhile space (rev (dropWhile space s)))"

lemma ascii_simps [simp]:
  "ascii []" "ascii (c # s) \<longleftrightarrow> byte c < 128 \<and> ascii s" "ascii (s @ t) \<longleftrightarrow> ascii s \<and> ascii t"
  by (simp_all add: ascii_def)

lemma go_runes_ascii_string: "ascii s \<Longrightarrow> go_runes s = map (\<lambda>c. (byte c, [c])) s"
  by (induction s) (simp_all add: go_runes_ascii del: go_runes.simps(2))

lemma trim_space_ascii: "ascii s \<Longrightarrow> trim_space s = trim_ascii s"
proof -
  assume "ascii s"
  moreover have "concat (map (\<lambda>c. [c]) xs) = xs" for xs :: string by (induction xs) auto
  ultimately show ?thesis
    by (simp add: trim_space_def trim_ascii_def go_runes_ascii_string dropWhile_map rev_map comp_def)
qed

lemma dropWhile_stop: "s \<noteq> [] \<Longrightarrow> \<not> P (hd s) \<Longrightarrow> dropWhile P s = s"
  by (cases s) auto

definition solid :: "string \<Rightarrow> bool" where
  "solid s \<longleftrightarrow> s \<noteq> [] \<and> \<not> space (hd s) \<and> \<not> space (last s)"

lemma space_chars [simp]: "space newline" "\<not> space CHR 0x3B" "byte newline < 128" "byte CHR 0x3B < 128"
  by (simp_all add: is_space_def byte_def)

lemma trim_ascii_solid: "solid s \<Longrightarrow> trim_ascii s = s"
  by (simp add: trim_ascii_def solid_def dropWhile_stop hd_rev)

lemma trim_ascii_newline: "trim_ascii (s @ [newline]) = trim_ascii s"
proof (cases "dropWhile space s = []")
  case True
  then have "dropWhile space (s @ [newline]) = []" by (simp add: dropWhile_append dropWhile_eq_Nil_conv)
  with True show ?thesis by (simp only: trim_ascii_def rev.simps dropWhile.simps)
next
  case False
  then have "dropWhile space (s @ [newline]) = dropWhile space s @ [newline]"
    by (simp add: dropWhile_append dropWhile_eq_Nil_conv)
  then show ?thesis by (simp add: trim_ascii_def)
qed

lemma trim_ascii_semicolon: "s \<noteq> [] \<Longrightarrow> \<not> space (last s) \<Longrightarrow> trim_ascii (s @ '';'') = trim_ascii s @ '';''"
proof -
  assume s: "s \<noteq> []" "\<not> space (last s)"
  then have d: "dropWhile space (s @ '';'') = dropWhile space s @ '';''" "dropWhile space s \<noteq> []"
    by (auto simp: dropWhile_append dropWhile_eq_Nil_conv intro: last_in_set)
  have "s = takeWhile space s @ dropWhile space s" by simp
  with d(2) have "last (dropWhile space s) = last s" by (metis last_append)
  with s d show ?thesis by (simp add: trim_ascii_def dropWhile_stop hd_rev)
qed

text \<open>
  A statement is written line by line, the last line with the semicolon; no line of it is blank,
  a comment, or ends with a semicolon before its last. Blank lines and comments may precede it.
\<close>

definition skipped :: "string \<Rightarrow> bool" where
  "skipped line \<longleftrightarrow> ascii line \<and> newline \<notin> set line
     \<and> (trim_space line = [] \<or> has_prefix (trim_space line) ''--'')"

definition code_line :: "string \<Rightarrow> bool" where
  "code_line line \<longleftrightarrow> ascii line \<and> newline \<notin> set line
     \<and> trim_space line \<noteq> [] \<and> \<not> has_prefix (trim_space line) ''--''"

definition statement_lines :: "string list \<Rightarrow> bool" where
  "statement_lines ls \<longleftrightarrow> ls \<noteq> [] \<and> list_all code_line ls
     \<and> list_all (\<lambda>l. \<not> has_suffix (trim_space l) '';'') (butlast ls)
     \<and> \<not> space (hd (hd ls)) \<and> hd ls \<noteq> [] \<and> last ls \<noteq> [] \<and> \<not> space (last (last ls))"

definition written :: "string list \<times> string list \<Rightarrow> string list" where
  "written p = (case p of (comments, ls) \<Rightarrow> comments @ butlast ls @ [last ls @ '';''])"

definition file_of :: "(string list \<times> string list) list \<Rightarrow> string" where
  "file_of ps = join [newline] (concat (map written ps) @ [[]])"

lemma loop_skips: "list_all skipped ls \<Longrightarrow> statements_loop (ls @ rest) out cur = statements_loop rest out cur"
  by (induction ls) (auto simp: skipped_def)

lemma loop_collects:
  "list_all code_line ls \<Longrightarrow> list_all (\<lambda>l. \<not> has_suffix (trim_space l) '';'') ls \<Longrightarrow>
     statements_loop (ls @ rest) out cur
       = statements_loop rest out (cur @ concat (map (\<lambda>l. l @ [newline]) ls))"
  by (induction ls arbitrary: cur) (auto simp: code_line_def Let_def)

lemma lines_joined:
  "ls \<noteq> [] \<Longrightarrow> concat (map (\<lambda>l. l @ [newline]) (butlast ls)) @ last ls = join [newline] ls"
  by (induction ls) (auto simp: join_Cons)

lemma ascii_join: "list_all ascii ls \<Longrightarrow> ascii (join [newline] ls)"
  by (induction ls) (auto simp: join_Cons)

lemma statement_text:
  assumes "statement_lines ls"
  shows "solid (join [newline] ls) \<and> ascii (join [newline] ls)"
proof -
  from assms have ls: "ls \<noteq> []" "hd ls \<noteq> []" "last ls \<noteq> []" by (auto simp: statement_lines_def)
  have "last (join [newline] ls) = last (last ls)"
    using lines_joined [OF ls(1)] ls(3) by (metis last_append append_is_Nil_conv)
  moreover have "hd (join [newline] ls) = hd (hd ls)" "join [newline] ls \<noteq> []"
    using ls(1,2) by (cases ls; simp add: join_Cons)+
  moreover have "list_all ascii ls"
    using assms by (auto simp: statement_lines_def code_line_def list_all_iff)
  ultimately show ?thesis
    using assms ascii_join by (simp add: solid_def statement_lines_def)
qed

lemma last_line:
  assumes "code_line l" and "l \<noteq> []" and "\<not> space (last l)"
  shows "trim_space (l @ '';'') = trim_space l @ '';''"
    and "\<not> has_prefix (trim_space (l @ '';'')) ''--''" and "has_suffix (trim_space (l @ '';'')) '';''"
proof -
  from assms show t: "trim_space (l @ '';'') = trim_space l @ '';''"
    by (simp add: code_line_def trim_space_ascii trim_ascii_semicolon)
  have "\<not> has_prefix (trim_space l) ''--''" using assms(1) by (simp add: code_line_def)
  then show "\<not> has_prefix (trim_space (l @ '';'')) ''--''"
    unfolding t by (cases "trim_space l"; cases "tl (trim_space l)") (auto simp: has_prefix_def)
  show "has_suffix (trim_space (l @ '';'')) '';''" unfolding t by (simp add: has_suffix_def)
qed

lemma loop_statement:
  assumes "list_all skipped comments" and "statement_lines ls"
  shows "statements_loop (written (comments, ls) @ rest) out []
    = statements_loop rest (out @ [join [newline] ls]) []"
proof -
  let ?cur = "concat (map (\<lambda>l. l @ [newline]) (butlast ls))" and ?l = "last ls" and ?s = "join [newline] ls"
  from assms(2) have ls: "ls \<noteq> []" by (simp add: statement_lines_def)
  have l: "code_line ?l" "?l \<noteq> []" "\<not> space (last ?l)"
    using assms(2) by (auto simp: statement_lines_def list_all_iff)
  note l' = last_line [OF l]
  have butlast: "list_all code_line (butlast ls)"
    "list_all (\<lambda>l. \<not> has_suffix (trim_space l) '';'') (butlast ls)"
    using assms(2) by (auto simp: statement_lines_def list_all_iff dest: in_set_butlastD)
  have cur: "?cur @ (?l @ '';'') @ [newline] = (?s @ '';'') @ [newline]"
    using lines_joined [OF ls] by (metis append.assoc)
  have s: "solid ?s" "ascii ?s" using statement_text [OF assms(2)] by auto
  have "trim_space ((?s @ '';'') @ [newline]) = ?s @ '';''"
    using s by (simp only: trim_space_ascii ascii_simps space_chars simp_thms trim_ascii_newline
        trim_ascii_semicolon solid_def trim_ascii_solid [unfolded solid_def])
  then have again: "trim_space (trim_suffix (trim_space (?cur @ (?l @ '';'') @ [newline])) '';'') = ?s"
    unfolding cur using s by (simp add: trim_suffix_def has_suffix_def trim_space_ascii trim_ascii_solid)
  have "statements_loop (written (comments, ls) @ rest) out []
      = statements_loop ((?l @ '';'') # rest) out ?cur"
    using loop_skips [OF assms(1)] loop_collects [OF butlast] by (simp add: written_def)
  also have "\<dots> = statements_loop rest (out @ [?s]) []"
    using l' again s(1) by (simp add: Let_def solid_def)
  finally show ?thesis .
qed

lemma loop_file:
  "list_all (\<lambda>(comments, ls). list_all skipped comments \<and> statement_lines ls) ps \<Longrightarrow>
     statements_loop (concat (map written ps) @ rest) out []
       = statements_loop rest (out @ map (join [newline] \<circ> snd) ps) []"
proof (induction ps arbitrary: out)
  case (Cons p ps)
  obtain comments ls where "p = (comments, ls)" by fastforce
  with Cons show ?case using loop_statement [of comments ls "concat (map written ps) @ rest" out] by simp
qed simp

lemma written_lines:
  assumes "list_all skipped comments" and "statement_lines ls" and "l \<in> set (written (comments, ls))"
  shows "newline \<notin> set l"
  using assms
  by (auto simp: written_def skipped_def statement_lines_def code_line_def list_all_iff
      dest: in_set_butlastD)

text \<open>
  C26. A migration file written as statements, each ended by a semicolon at the end of a line, with
  blank lines and comments between them, is read back as exactly these statements, without the
  comments and the semicolons.
\<close>
theorem statements_read_back:
  assumes "list_all (\<lambda>(comments, ls). list_all skipped comments \<and> statement_lines ls) ps"
  shows "statements (file_of ps) = map (join [newline] \<circ> snd) ps"
proof -
  have "split_on newline (file_of ps) = concat (map written ps) @ [[]]"
    unfolding file_of_def
  proof (rule split_on_join)
    fix w assume "w \<in> set (concat (map written ps) @ [[]])"
    then consider "w = []" | comments ls where "(comments, ls) \<in> set ps" "w \<in> set (written (comments, ls))"
      by auto
    then show "newline \<notin> set w"
    proof cases
      case 2
      with assms have "list_all skipped comments" "statement_lines ls" by (auto simp: list_all_iff)
      from written_lines [OF this 2(2)] show ?thesis .
    qed simp
  qed simp
  with loop_file [OF assms, of "[[]]" "[]"] show ?thesis by (simp add: statements_def)
qed

lemma statements_read_back_witness:
  "statements (file_of [([''-- accounts'', []], [''CREATE TABLE a ('', '' id INT'', '')'']), ([], [''DROP b''])])
     = [join [newline] [''CREATE TABLE a ('', '' id INT'', '')''], ''DROP b'']"
proof -
  let ?ps = "[([''-- accounts'', []], [''CREATE TABLE a ('', '' id INT'', '')'']), ([], [''DROP b''])]"
  have "list_all (\<lambda>(comments, ls). list_all skipped comments \<and> statement_lines ls) ?ps"
    by code_simp
  from statements_read_back [OF this] show ?thesis by simp
qed

end
