(* ===== verification/Seid.thy ===== *)
theory Seid
  imports ServerSafety Bootstrap Migrate
begin

text \<open>
  The daemon (\<^verbatim>\<open>cmd/seid\<close>): its subcommands, what every one of them does before it starts, the
  account commands, and how \<open>serve\<close> puts the server together; with the connection pool's settings
  (\<^verbatim>\<open>internal/database\<close>) and the choice of the frontend (\<^verbatim>\<open>internal/webui\<close>). Parameters are the MySQL driver, the terminal, the directories on
  disk and the time zone's rendering of a timestamp. What a start only logs is in \<^theory_text>\<open>Lifecycle\<close>.
\<close>

section \<open>The connection pool\<close>

record db_options =
  do_dsn :: string
  do_max_open :: int
  do_max_life :: duration

record pool =
  pl_dsn :: string
  pl_max_open :: int
  pl_max_idle :: int
  pl_max_life :: duration

record driver =
  dr_open :: "string \<Rightarrow> string option"  \<comment> \<open>what is wrong with a data source name\<close>
  dr_ping :: "string \<Rightarrow> string option"  \<comment> \<open>what keeps the server from answering\<close>

definition open_database :: "driver \<Rightarrow> db_options \<Rightarrow> string + pool" where
  "open_database dr opt =
     (case dr_open dr (do_dsn opt) of
        Some why \<Rightarrow> Inl (''database: opening: '' @ why)
      | None \<Rightarrow>
          let db = \<lparr>pl_dsn = do_dsn opt, pl_max_open = do_max_open opt, pl_max_idle = do_max_open opt,
                    pl_max_life = do_max_life opt\<rparr>
          in case dr_ping dr (do_dsn opt) of
               Some why \<Rightarrow> Inl (''database: connecting: '' @ why)
             | None \<Rightarrow> Inr db)"

section \<open>What a run works on\<close>

text \<open>The database as the migrations and as the accounts see it, and the lines printed.\<close>

record 'd machine =
  mh_schema :: "'d mig_conn"
  mh_accounts :: db
  mh_audit :: audit_db
  mh_out :: "string list"

text \<open>\<open>tm_typed\<close> is what a terminal without echo returns, or why it cannot.\<close>

record terminal =
  tm_is_terminal :: bool
  tm_stdin :: string
  tm_typed :: "(string + string) list"

record 'd cli_env =
  ci_os :: os
  ci_driver :: driver
  ci_migrations :: "'d mig_env"
  ci_lock :: lock_reply
  ci_auth :: auth_env
  ci_now :: int64
  ci_random :: "string option"
  ci_salt :: "string option"
  ci_new_salt :: "string option"
  ci_terminal :: terminal
  ci_time_text :: "int64 \<Rightarrow> string"
  ci_dir :: "string \<Rightarrow> ui"
  ci_embedded :: ui
  ci_replies :: "wire_reply list"
  ci_version :: string

datatype cli_error =
    CliText string
  | ConfigFailed config_error
  | FlagFailed flag_error
  | MigrationFailed migrate_error
  | StoreFailed auth_error
  | HashingFailed hash_error

type_synonym ('d, 'a) cli_step = "('d machine, cli_error, 'a) step"

definition on_accounts :: "'a store_op \<Rightarrow> ('d machine, auth_error, 'a) step" where
  "on_accounts m s = (case m (mh_accounts s) of (r, d) \<Rightarrow> (r, s\<lparr>mh_accounts := d\<rparr>))"

definition lift_error :: "('e \<Rightarrow> cli_error) \<Rightarrow> ('d machine, 'e, 'a) step \<Rightarrow> ('d, 'a) cli_step" where
  "lift_error wrap m s = (case m s of (r, s') \<Rightarrow> (case r of Inl e \<Rightarrow> Inl (wrap e) | Inr x \<Rightarrow> Inr x, s'))"

definition store_call :: "'a store_op \<Rightarrow> ('d, 'a) cli_step" where
  "store_call m = lift_error StoreFailed (on_accounts m)"

definition migrate_schema :: "'d cli_env \<Rightarrow> ('d, unit) cli_step" where
  "migrate_schema env =
     lift_error MigrationFailed (\<lambda>s.
       case run_migrations (ci_migrations env) (ci_lock env) (mh_schema s) of
         (r, c) \<Rightarrow> (r, s\<lparr>mh_schema := c\<rparr>))"

definition print_line :: "string \<Rightarrow> ('d, unit) cli_step" where
  "print_line l s = (Inr (), s\<lparr>mh_out := mh_out s @ [l]\<rparr>)"

definition lift_result :: "('e \<Rightarrow> cli_error) \<Rightarrow> 'e + 'a \<Rightarrow> ('d, 'a) cli_step" where
  "lift_result wrap r = (case r of Inl e \<Rightarrow> fail (wrap e) | Inr x \<Rightarrow> return x)"

definition bootstrap_options_of :: "config \<Rightarrow> bootstrap_options" where
  "bootstrap_options_of cfg =
     \<lparr>bo_demo_mode = cf_demo_mode cfg, bo_demo_user = cf_demo_user cfg,
      bo_demo_commands = cf_demo_commands cfg\<rparr>"

text \<open>Connecting, migrating and bringing the roles up to date, as every subcommand does.\<close>

definition prepare :: "'d cli_env \<Rightarrow> config \<Rightarrow> int \<Rightarrow> ('d, unit) cli_step" where
  "prepare env cfg conns =
     bind_step (lift_result CliText (open_database (ci_driver env)
       \<lparr>do_dsn = cf_mysql_dsn cfg, do_max_open = conns, do_max_life = cf_mysql_conn_max_life cfg\<rparr>)) (\<lambda>_.
     bind_step (migrate_schema env) (\<lambda>_.
     store_call (bootstrap (ci_auth env) (ci_now env) (ci_random env) (ci_salt env)
       (bootstrap_options_of cfg))))"

section \<open>Account commands\<close>

record user_args =
  ua_username :: string
  ua_role :: string
  ua_display :: string
  ua_email :: string
  ua_password :: string
  ua_config :: string
  ua_dsn :: string

definition store_flags :: "(string \<times> user_args flag) list" where
  "store_flags =
     [(''config'', StringFlag (\<lambda>v. ua_config_update (\<lambda>_. v))),
      (''mysql-dsn'', StringFlag (\<lambda>v. ua_dsn_update (\<lambda>_. v)))]"

definition config_args :: "user_args \<Rightarrow> string list" where
  "config_args a =
     (if ua_config a \<noteq> [] then [''-config'', ua_config a] else [])
     @ (if ua_dsn a \<noteq> [] then [''-mysql-dsn'', ua_dsn a] else [])"

definition with_store ::
  "'d cli_env \<Rightarrow> string list \<Rightarrow> (string \<times> user_args flag) list \<Rightarrow> string \<Rightarrow> (user_args \<Rightarrow> ('d, unit) cli_step)
     \<Rightarrow> ('d, unit) cli_step" where
  "with_store env argv own_flags default_role fn =
     (let start = \<lparr>ua_username = [], ua_role = default_role, ua_display = [], ua_email = [], ua_password = [],
                   ua_config = (case os_env (ci_os env) ''SEI_CONFIG'' of None \<Rightarrow> [] | Some p \<Rightarrow> p), ua_dsn = []\<rparr>
      in case parse_flags (map_of (own_flags @ store_flags)) argv start of
           (Some e, _) \<Rightarrow> fail (FlagFailed e)
         | (None, a) \<Rightarrow>
             bind_step (lift_result ConfigFailed (load (ci_os env) (config_args a))) (\<lambda>cfg.
             bind_step (lift_result CliText (new_logger ''warn'' (cf_log_format cfg))) (\<lambda>_.
             bind_step (prepare env cfg 2) (\<lambda>_.
             fn a))))"

text \<open>The floor under passwords, counted in characters.\<close>

definition check_password :: "string \<Rightarrow> string option" where
  "check_password p =
     (if length (go_runes p) < 12 then Some ''password must be at least 12 characters'' else None)"

definition trim_line_end :: "string \<Rightarrow> string" where
  "trim_line_end s = rev (dropWhile (\<lambda>c. c = CHR 0x0D \<or> c = CHR 0x0A) (rev s))"

definition prompt_password :: "terminal \<Rightarrow> bool \<Rightarrow> string + string" where
  "prompt_password t confirm =
     (if \<not> tm_is_terminal t then
        (case cut newline (tm_stdin t) of
           (line, _, ended) \<Rightarrow>
             if \<not> ended \<and> line = [] then Inl ''reading password from stdin: EOF''
             else Inr (trim_line_end (if ended then line @ [newline] else line)))
      else case tm_typed t of
        [] \<Rightarrow> Inl ''reading password: EOF''
      | Inl why # _ \<Rightarrow> Inl (''reading password: '' @ why)
      | Inr first # typed \<Rightarrow>
          if \<not> confirm then Inr first
          else case typed of
            [] \<Rightarrow> Inl ''reading password: EOF''
          | Inl why # _ \<Rightarrow> Inl (''reading password: '' @ why)
          | Inr again # _ \<Rightarrow>
              if first \<noteq> again then Inl ''the two passwords do not match'' else Inr first)"

text \<open>The password given or asked for, checked and hashed.\<close>

definition new_password_hash :: "'d cli_env \<Rightarrow> string \<Rightarrow> ('d, string) cli_step" where
  "new_password_hash env given =
     bind_step (if given = [] then lift_result CliText (prompt_password (ci_terminal env) True)
                else return given) (\<lambda>password.
       case check_password password of
         Some why \<Rightarrow> fail (CliText why)
       | None \<Rightarrow>
           lift_result HashingFailed
             (hash_password (ae_idkey (ci_auth env)) (ae_version (ci_auth env)) (ci_new_salt env) password))"

definition find_role_named :: "'d cli_env \<Rightarrow> string \<Rightarrow> string \<Rightarrow> ('d, role) cli_step" where
  "find_role_named env who name =
     attempt (on_accounts (role_by_name (ae_coll (ci_auth env)) name)) (\<lambda>r.
       case r of
         Inl e \<Rightarrow> fail (if is_not_found e then CliText (who @ '': no role named '' @ go_quote name)
                        else StoreFailed e)
       | Inr role \<Rightarrow> return role)"

definition find_account :: "'d cli_env \<Rightarrow> string \<Rightarrow> string \<Rightarrow> ('d, user) cli_step" where
  "find_account env who name =
     attempt (on_accounts (user_by_username (ae_coll (ci_auth env)) name)) (\<lambda>r.
       case r of
         Inl e \<Rightarrow> fail (if is_not_found e then CliText (who @ '': no such user: '' @ name) else StoreFailed e)
       | Inr u \<Rightarrow> return u)"

definition create_account :: "'d cli_env \<Rightarrow> user_args \<Rightarrow> ('d, unit) cli_step" where
  "create_account env a =
     (if ua_username a = [] then fail (CliText ''user create: -username is required'')
      else
        bind_step (find_role_named env ''user create'' (ua_role a)) (\<lambda>role.
        bind_step (new_password_hash env (ua_password a)) (\<lambda>h.
        bind_step (store_call (create_user (ae_coll (ci_auth env)) (ci_now env)
          \<lparr>us_id = 0, us_username = ua_username a, us_password_hash = h,
           us_display_name = (if ua_display a = [] then ua_username a else ua_display a),
           us_email = ua_email a, us_role_id = ro_id role, us_role_name = [], us_is_active = True,
           us_created_at = 0, us_last_login_at = None\<rparr>)) (\<lambda>_.
        print_line (''created user '' @ go_quote (ua_username a) @ '' with role '' @ go_quote (ro_name role))))))"

definition change_password :: "'d cli_env \<Rightarrow> user_args \<Rightarrow> ('d, unit) cli_step" where
  "change_password env a =
     (if ua_username a = [] then fail (CliText ''user passwd: -username is required'')
      else
        bind_step (find_account env ''user passwd'' (ua_username a)) (\<lambda>u.
        bind_step (new_password_hash env (ua_password a)) (\<lambda>h.
        bind_step (store_call (set_password (ci_now env) (us_id u) h)) (\<lambda>_.
        bind_step (store_call (delete_user_sessions (us_id u))) (\<lambda>_.
        print_line (''password updated for '' @ go_quote (ua_username a) @ ''; existing sessions were ended''))))))"

definition change_role :: "'d cli_env \<Rightarrow> user_args \<Rightarrow> ('d, unit) cli_step" where
  "change_role env a =
     (if ua_username a = [] \<or> ua_role a = [] then fail (CliText ''user role: -username and -role are required'')
      else
        bind_step (find_account env ''user role'' (ua_username a)) (\<lambda>u.
        bind_step (find_role_named env ''user role'' (ua_role a)) (\<lambda>role.
        bind_step (store_call (set_role (ci_now env) (us_id u) (ro_id role))) (\<lambda>_.
        print_line (go_quote (ua_username a) @ '' is now on role '' @ go_quote (ro_name role))))))"

text \<open>The lines as they go into the table writer, cells separated by tabs.\<close>

definition account_line :: "'d cli_env \<Rightarrow> user \<Rightarrow> string" where
  "account_line env u =
     join [CHR 0x09]
       [us_username u, us_role_name u, if us_is_active u then ''true'' else ''false'',
        case us_last_login_at u of None \<Rightarrow> ''never'' | Some t \<Rightarrow> ci_time_text env t]"

fun print_lines :: "string list \<Rightarrow> ('d, unit) cli_step" where
  "print_lines [] = return ()"
| "print_lines (l # ls) = bind_step (print_line l) (\<lambda>_. print_lines ls)"

definition list_accounts :: "'d cli_env \<Rightarrow> user_args \<Rightarrow> ('d, unit) cli_step" where
  "list_accounts env a =
     bind_step (store_call (list_users (ae_coll (ci_auth env)))) (\<lambda>users.
       if users = [] then
         print_line ''no accounts yet; create one with: seid user create -username <name> -role admin''
       else
         print_lines (join [CHR 0x09] [''USERNAME'', ''ROLE'', ''ACTIVE'', ''LAST LOGIN'']
           # map (account_line env) users))"

definition name_flag :: "string \<times> user_args flag" where
  "name_flag = (''username'', StringFlag (\<lambda>v. ua_username_update (\<lambda>_. v)))"

definition role_flag :: "string \<times> user_args flag" where
  "role_flag = (''role'', StringFlag (\<lambda>v. ua_role_update (\<lambda>_. v)))"

definition password_flag :: "string \<times> user_args flag" where
  "password_flag = (''password'', StringFlag (\<lambda>v. ua_password_update (\<lambda>_. v)))"

definition user_create :: "'d cli_env \<Rightarrow> string list \<Rightarrow> ('d, unit) cli_step" where
  "user_create env argv =
     with_store env argv
       [name_flag, role_flag,
        (''display-name'', StringFlag (\<lambda>v. ua_display_update (\<lambda>_. v))),
        (''email'', StringFlag (\<lambda>v. ua_email_update (\<lambda>_. v))), password_flag]
       RoleOperator (create_account env)"

definition user_passwd :: "'d cli_env \<Rightarrow> string list \<Rightarrow> ('d, unit) cli_step" where
  "user_passwd env argv = with_store env argv [name_flag, password_flag] [] (change_password env)"

definition user_role :: "'d cli_env \<Rightarrow> string list \<Rightarrow> ('d, unit) cli_step" where
  "user_role env argv = with_store env argv [name_flag, role_flag] [] (change_role env)"

definition user_list :: "'d cli_env \<Rightarrow> string list \<Rightarrow> ('d, unit) cli_step" where
  "user_list env argv = with_store env argv [] [] (list_accounts env)"

definition user_command :: "'d cli_env \<Rightarrow> string list \<Rightarrow> ('d, unit) cli_step" where
  "user_command env argv =
     (case argv of
        [] \<Rightarrow> fail (CliText ''user: expected one of create, passwd, role, list'')
      | sub # rest \<Rightarrow>
          if sub = ''create'' then user_create env rest
          else if sub = ''passwd'' then user_passwd env rest
          else if sub = ''role'' then user_role env rest
          else if sub = ''list'' then user_list env rest
          else fail (CliText (''user: unknown subcommand '' @ go_quote sub
                 @ ''; expected create, passwd, role or list'')))"

section \<open>Starting the server\<close>

definition demo_user_or_empty :: "config \<Rightarrow> string" where
  "demo_user_or_empty cfg = (if \<not> cf_demo_mode cfg then [] else cf_demo_user cfg)"

text \<open>A bundle without an index page is a build without a frontend.\<close>

definition embedded_ui :: "ui \<Rightarrow> ui option" where
  "embedded_ui u = (if ui_stat u ''index.html'' = None then None else Some u)"

definition resolve_ui :: "'d cli_env \<Rightarrow> config \<Rightarrow> ui option" where
  "resolve_ui env cfg =
     (if cf_ui_dir cfg \<noteq> [] then
        let dir = ci_dir env (cf_ui_dir cfg) in if ui_stat dir ''index.html'' = None then None else Some dir
      else embedded_ui (ci_embedded env))"

definition auth_options_of :: "config \<Rightarrow> auth_options" where
  "auth_options_of cfg =
     \<lparr>ao_session_ttl = cf_session_ttl cfg, ao_login_rate_limit = cf_login_rate_limit cfg,
      ao_login_rate_window = cf_login_rate_window cfg, ao_demo_user = demo_user_or_empty cfg,
      ao_demo_commands = cf_demo_commands cfg\<rparr>"

definition start_hub :: "config \<Rightarrow> hub option" where
  "start_hub cfg = (if events_enabled cfg then Some (new_hub 0 (cf_max_event_clients cfg)) else None)"

text \<open>How long the audit is kept; \<open>None\<close> when no loop prunes it.\<close>

definition audit_keep :: "config \<Rightarrow> duration option" where
  "audit_keep cfg =
     (if cf_audit_retention_days cfg > 0
      then Some (wrap64 (wrap64 (cf_audit_retention_days cfg * 24) * hour)) else None)"

record started =
  su_web :: web
  su_site :: site
  su_source :: "(string \<times> string) option"
  su_keep :: "duration option"

definition new_started :: "'d cli_env \<Rightarrow> config \<Rightarrow> 'd machine \<Rightarrow> started" where
  "new_started env cfg s =
     \<lparr>su_web = new_web cfg (resolve_ui env cfg) (ci_version env),
      su_site = new_site cfg (new_service (mh_accounts s) (auth_options_of cfg))
        \<lparr>wi_sent = [], wi_replies = ci_replies env\<rparr> (mh_audit s) (start_hub cfg),
      su_source = (if events_enabled cfg then Some (cf_worker_events_url cfg, cf_worker_events_key cfg)
                   else None),
      su_keep = audit_keep cfg\<rparr>"

definition start_server :: "'d cli_env \<Rightarrow> string list \<Rightarrow> ('d, started) cli_step" where
  "start_server env argv =
     bind_step (lift_result ConfigFailed (load (ci_os env) argv)) (\<lambda>cfg.
     bind_step (lift_result CliText (new_logger (cf_log_level cfg) (cf_log_format cfg))) (\<lambda>_.
     bind_step (prepare env cfg (cf_mysql_max_open_conns cfg)) (\<lambda>_.
     bind_step (store_call (list_users (ae_coll (ci_auth env)))) (\<lambda>users s.
       (Inr (new_started env cfg s), s)))))"

definition migrate_only :: "'d cli_env \<Rightarrow> string list \<Rightarrow> ('d, unit) cli_step" where
  "migrate_only env argv =
     bind_step (lift_result ConfigFailed (load (ci_os env) argv)) (\<lambda>cfg.
     bind_step (lift_result CliText (new_logger (cf_log_level cfg) (cf_log_format cfg))) (\<lambda>_.
     prepare env cfg 2))"

text \<open>The subcommand and its arguments; \<open>serve\<close> when the first argument is a flag or missing.\<close>

definition subcommand :: "string list \<Rightarrow> string \<times> string list" where
  "subcommand argv =
     (case argv of
        a # rest \<Rightarrow> if a \<noteq> [] \<and> hd a \<noteq> CHR ''-'' then (a, rest) else (''serve'', argv)
      | [] \<Rightarrow> (''serve'', argv))"

definition usage_lines :: "string list" where
  "usage_lines =
     [''seid - Statusengine Web Interface'', [], ''Usage:'',
      ''  seid [serve] [flags]        Run the API and web server (default)'',
      ''  seid migrate [flags]        Apply the sei_* schema and exit'',
      ''  seid user <sub> [flags]     Manage accounts: create, passwd, role, list'',
      ''  seid version                Print the build version'', [],
      ''Run '' @ go_quote ''seid serve -h'' @ '' or '' @ go_quote ''seid user create -h''
        @ '' for the flags of each.'']"

definition run_seid :: "'d cli_env \<Rightarrow> string list \<Rightarrow> ('d, started option) cli_step" where
  "run_seid env argv =
     (case subcommand argv of (cmd, rest) \<Rightarrow>
        if cmd = ''serve'' then bind_step (start_server env rest) (\<lambda>st. return (Some st))
        else if cmd = ''migrate'' then bind_step (migrate_only env rest) (\<lambda>_. return None)
        else if cmd = ''user'' then bind_step (user_command env rest) (\<lambda>_. return None)
        else if cmd = ''version'' then bind_step (print_line (ci_version env)) (\<lambda>_. return None)
        else if cmd = ''help'' \<or> cmd = ''-h'' \<or> cmd = ''--help''
        then bind_step (print_lines usage_lines) (\<lambda>_. return None)
        else bind_step (print_lines usage_lines) (\<lambda>_. fail (CliText (''unknown command '' @ go_quote cmd))))"

section \<open>What a start has established\<close>

lemma store_call_Inr:
  "store_call m s = (Inr x, s') \<longleftrightarrow> (\<exists>d. m (mh_accounts s) = (Inr x, d) \<and> s' = s\<lparr>mh_accounts := d\<rparr>)"
  by (auto simp: store_call_def lift_error_def on_accounts_def split: prod.splits sum.splits)

lemma lift_result_Inr [guard_simps]: "lift_result wrap r s = (Inr x, s') \<longleftrightarrow> r = Inr x \<and> s' = s"
  by (auto simp: lift_result_def split: sum.splits)

lemma migrate_schema_Inr:
  "migrate_schema env s = (Inr (), s') \<longleftrightarrow>
     (\<exists>c. run_migrations (ci_migrations env) (ci_lock env) (mh_schema s) = (Inr (), c)
        \<and> s' = s\<lparr>mh_schema := c\<rparr>)"
  by (auto simp: migrate_schema_def lift_error_def split: prod.splits sum.splits)

lemma prepare_Inr:
  assumes "prepare env cfg n s = (Inr (), s')"
  obtains c d where "run_migrations (ci_migrations env) (ci_lock env) (mh_schema s) = (Inr (), c)"
    and "bootstrap (ci_auth env) (ci_now env) (ci_random env) (ci_salt env) (bootstrap_options_of cfg)
      (mh_accounts s) = (Inr (), d)"
    and "s' = s\<lparr>mh_schema := c, mh_accounts := d\<rparr>"
  using assms by (auto simp: prepare_def guard_simps store_call_Inr migrate_schema_Inr)

lemma run_success_recorded:
  assumes "run_migrations env got c = (Inr (), c')" and "mc_undo c = None" and "\<not> mc_locked c"
  shows "set (map version_of (migration_names env)) \<subseteq> set (recorded (mc_tables c'))"
proof -
  let ?names = "pending env (recorded (mc_tables c))"
  have "standing env (\<lambda>_ _. True) (recorded (mc_tables c)) ?names 0 (mc_tables c)"
    by (simp add: standing_def)
  from run_progress [OF advances_always this _ assms(2,3,1)]
  have "standing env (\<lambda>_ _. True) (recorded (mc_tables c)) ?names (length ?names) (mc_tables c')" by auto
  then show ?thesis by (auto simp: standing_def pending_def)
qed

lemma load_valid: "load os argv = Inr cfg \<Longrightarrow> validate_config cfg = []"
  by (auto simp: load_Inr)

lemma start_server_Inr:
  assumes "start_server env argv s = (Inr st, s')"
  obtains cfg s1 d where "load (ci_os env) argv = Inr cfg"
    and "prepare env cfg (cf_mysql_max_open_conns cfg) s = (Inr (), s1)"
    and "d = pop_fault (mh_accounts s1)" and "s' = s1\<lparr>mh_accounts := d\<rparr>" and "st = new_started env cfg s'"
proof -
  from assms obtain cfg users s1 d where x: "load (ci_os env) argv = Inr cfg"
    "prepare env cfg (cf_mysql_max_open_conns cfg) s = (Inr (), s1)"
    "list_users (ae_coll (ci_auth env)) (mh_accounts s1) = (Inr users, d)" "s' = s1\<lparr>mh_accounts := d\<rparr>"
    "st = new_started env cfg s'"
    by (auto simp: start_server_def guard_simps store_call_Inr)
  moreover have "d = pop_fault (mh_accounts s1)"
    using query_state(6) [of "ae_coll (ci_auth env)" "mh_accounts s1"] x(3) by simp
  ultimately show thesis by (intro that)
qed

lemma started_sel [simp]:
  "wb_cfg (su_web (new_started env cfg s)) = cfg"
  "su_site (new_started env cfg s) = new_site cfg (new_service (mh_accounts s) (auth_options_of cfg))
     \<lparr>wi_sent = [], wi_replies = ci_replies env\<rparr> (mh_audit s) (start_hub cfg)"
  by (simp_all add: new_started_def new_web_def)

lemma new_service_sel [simp]:
  "sv_db (new_service d opt) = d" "ao_demo_user (sv_opt (new_service d opt)) = ao_demo_user opt"
  "sv_limiter (new_service d opt) = new_window (ao_login_rate_limit opt) (ao_login_rate_window opt)"
  by (simp_all add: new_service_def Let_def)

lemma new_site_auth [simp]: "st_auth (new_site c sv wr ad h) = sv"
  by (simp add: new_site_def)

text \<open>
  C10. A server that starts has a schema with every migration recorded, a configuration that passed
  its checks, and every built-in role with exactly the permissions its definition in code names;
  whatever it then serves, its state stays sound; and without demonstration mode nobody gets in
  without a password.
\<close>
theorem server_starts_ready:
  assumes "start_server env argv s = (Inr st, s')"
    and "db_inv (ae_coll (ci_auth env)) (mh_accounts s)" and "audit_inv (mh_audit s)"
    and "distinct (map (ae_coll (ci_auth env)) [RoleAdmin, RoleOperator, RoleGuest, RoleDemo])"
    and "mc_undo (mh_schema s) = None" and "\<not> mc_locked (mh_schema s)"
    and "cf_login_rate_window (wb_cfg (su_web st)) < max_duration"
  shows "set (map version_of (migration_names (ci_migrations env))) \<subseteq> set (recorded (mc_tables (mh_schema s')))
    \<and> validate_config (wb_cfg (su_web st)) = []
    \<and> (\<forall>r \<in> set (builtins (bootstrap_options_of (wb_cfg (su_web st)))).
         holds_role (ae_coll (ci_auth env)) r (sv_db (st_auth (su_site st))))
    \<and> (\<forall>w t. site_reachable (ci_auth env) w (su_site st) t \<longrightarrow> site_inv (ci_auth env) t)
    \<and> (cf_demo_mode (wb_cfg (su_web st))
       \<or> (\<forall>now rnd ua ip. fst (login_demo (ci_auth env) now rnd ua ip (st_auth (su_site st)))
            = Inl InvalidCredentials))"
proof -
  from start_server_Inr [OF assms(1)] obtain cfg s1 where
    cfg: "load (ci_os env) argv = Inr cfg" and p: "prepare env cfg (cf_mysql_max_open_conns cfg) s = (Inr (), s1)"
    and s': "s' = s1\<lparr>mh_accounts := pop_fault (mh_accounts s1)\<rparr>" and st: "st = new_started env cfg s'" by metis
  from prepare_Inr [OF p] obtain c d where
    c: "run_migrations (ci_migrations env) (ci_lock env) (mh_schema s) = (Inr (), c)" and
    d: "bootstrap (ci_auth env) (ci_now env) (ci_random env) (ci_salt env) (bootstrap_options_of cfg)
      (mh_accounts s) = (Inr (), d)" and s1: "s1 = s\<lparr>mh_schema := c, mh_accounts := d\<rparr>" by metis
  have sel: "mh_schema s' = c" "mh_accounts s' = pop_fault d" "mh_audit s' = mh_audit s"
    by (simp_all add: s' s1)
  have inv: "db_inv (ae_coll (ci_auth env)) (pop_fault d)"
    using keepsD [OF keeps_bootstrap assms(2) d] by simp
  have "window_inv (new_window (cf_login_rate_limit cfg) (cf_login_rate_window cfg))"
    using assms(7) by (simp add: st new_window_inv)
  then have "site_inv (ci_auth env) (su_site st)"
    using inv assms(3) sel
    by (simp add: st site_inv_def service_inv_def new_site_def new_command_limiter_inv start_hub_def
        new_hub_inv auth_options_of_def new_service_def Let_def)
  then have sound: "\<forall>w t. site_reachable (ci_auth env) w (su_site st) t \<longrightarrow> site_inv (ci_auth env) t"
    using site_reachable_inv by blast
  have roles: "\<forall>r \<in> set (builtins (bootstrap_options_of cfg)). holds_role (ae_coll (ci_auth env)) r d"
    using bootstrap_done [OF assms(2,4) d] by blast
  have demo: "cf_demo_mode cfg \<or> (\<forall>now rnd ua ip.
      fst (login_demo (ci_auth env) now rnd ua ip (st_auth (su_site st))) = Inl InvalidCredentials)"
    by (simp add: st login_demo_def Let_def auth_options_of_def demo_user_or_empty_def)
  show ?thesis
    using run_success_recorded [OF c assms(5,6)] load_valid [OF cfg] roles sound demo
    by (simp add: st sel)
qed

section \<open>A new password\<close>

lemma find_account_Inr:
  assumes "find_account env who name s = (Inr u, s')"
  shows "s' = s\<lparr>mh_accounts := pop_fault (mh_accounts s)\<rparr> \<and>
    (\<exists>ur \<in> set (db_users (mh_accounts s)). \<exists>rr.
       ae_coll (ci_auth env) (ur_username ur) = ae_coll (ci_auth env) name \<and> u = user_of ur rr)"
proof -
  from assms obtain d where "user_by_username (ae_coll (ci_auth env)) name (mh_accounts s) = (Inr u, d)"
    "s' = s\<lparr>mh_accounts := d\<rparr>"
    by (auto simp: find_account_def on_accounts_def attempt_def split: prod.splits sum.splits)
  with user_by_username_Inr [OF this(1)] show ?thesis by blast
qed

lemma new_password_hash_Inr:
  assumes "new_password_hash env given s = (Inr h, s')"
  shows "s' = s \<and> (\<exists>password. 12 \<le> length (go_runes password) \<and> (given \<noteq> [] \<longrightarrow> password = given)
    \<and> hash_password (ae_idkey (ci_auth env)) (ae_version (ci_auth env)) (ci_new_salt env) password = Inr h)"
  using assms
  by (auto simp: new_password_hash_def guard_simps check_password_def not_less split: if_splits option.splits)

lemma set_password_Inr:
  assumes "set_password now i h d = (Inr (), d')"
  shows "db_sessions d' = db_sessions d
    \<and> db_users d' = map (\<lambda>u. if ur_id u = i then u\<lparr>ur_password_hash := h, ur_updated_at := now\<rparr> else u) (db_users d)"
  using affect_one_Inr [OF assms [unfolded set_password_def]] by simp

lemma filter_others:
  "(\<And>v. ur_id (f v) = ur_id v) \<Longrightarrow>
     filter (\<lambda>v. ur_id v \<noteq> i) (map (\<lambda>v. if ur_id v = i then f v else v) vs) = filter (\<lambda>v. ur_id v \<noteq> i) vs"
  by (induction vs) auto

text \<open>
  C11. A password change takes over: afterwards the account's stored hash accepts exactly the new
  password, which is the one given, if any, and has at least twelve characters; every session of the
  account is gone and every other session is still there, and no other account has changed.
\<close>
theorem password_change_takes_over:
  assumes "change_password env a s = (Inr (), s')"
    and "ae_version (ci_auth env) < 2 ^ 63"
    and "\<And>pw sl t m p n. length (ae_idkey (ci_auth env) pw sl t m p n) = n"
  shows "\<exists>ur \<in> set (db_users (mh_accounts s')). \<exists>password salt.
    ae_coll (ci_auth env) (ur_username ur) = ae_coll (ci_auth env) (ua_username a)
    \<and> 12 \<le> length (go_runes password) \<and> (ua_password a \<noteq> [] \<longrightarrow> password = ua_password a)
    \<and> (\<forall>candidate. verify_password (ae_idkey (ci_auth env)) (ae_version (ci_auth env)) candidate (ur_password_hash ur)
         = Inr (ae_idkey (ci_auth env) candidate salt argonTime argonMemory argonThreads argonKeyLen
                = ae_idkey (ci_auth env) password salt argonTime argonMemory argonThreads argonKeyLen))
    \<and> db_sessions (mh_accounts s') = filter (\<lambda>x. se_user_id x \<noteq> ur_id ur) (db_sessions (mh_accounts s))
    \<and> filter (\<lambda>v. ur_id v \<noteq> ur_id ur) (db_users (mh_accounts s'))
      = filter (\<lambda>v. ur_id v \<noteq> ur_id ur) (db_users (mh_accounts s))"
proof -
  from assms(1) obtain u h s1 s2 d3 d4 where
    1: "find_account env ''user passwd'' (ua_username a) s = (Inr u, s1)" and
    2: "new_password_hash env (ua_password a) s1 = (Inr h, s2)" and
    3: "set_password (ci_now env) (us_id u) h (mh_accounts s2) = (Inr (), d3)" and
    4: "delete_user_sessions (us_id u) d3 = (Inr (), d4)" and s': "mh_accounts s' = d4"
    by (auto simp: change_password_def guard_simps store_call_Inr print_line_def split: if_splits)
  from find_account_Inr [OF 1] obtain ur rr where
    ur: "ur \<in> set (db_users (mh_accounts s))" "ae_coll (ci_auth env) (ur_username ur) = ae_coll (ci_auth env) (ua_username a)"
    and u: "u = user_of ur rr" and s1: "mh_accounts s1 = pop_fault (mh_accounts s)" by auto
  from new_password_hash_Inr [OF 2] obtain password where
    pw: "12 \<le> length (go_runes password)" "ua_password a \<noteq> [] \<longrightarrow> password = ua_password a"
    and h: "hash_password (ae_idkey (ci_auth env)) (ae_version (ci_auth env)) (ci_new_salt env) password = Inr h"
    and s2: "s2 = s1" by blast
  obtain salt where salt: "ci_new_salt env = Some salt" using h by (auto simp: hash_password_def split: option.splits)
  have verify: "verify_password (ae_idkey (ci_auth env)) (ae_version (ci_auth env)) candidate h
      = Inr (ae_idkey (ci_auth env) candidate salt argonTime argonMemory argonThreads argonKeyLen
             = ae_idkey (ci_auth env) password salt argonTime argonMemory argonThreads argonKeyLen)" for candidate
    using verify_hashed [OF h assms(2,3), of candidate] salt by simp
  define ur' where "ur' = ur\<lparr>ur_password_hash := h, ur_updated_at := ci_now env\<rparr>"
  have i: "us_id u = ur_id ur" "ur_id ur' = ur_id ur" "ur_username ur' = ur_username ur" "ur_password_hash ur' = h"
    by (simp_all add: u ur'_def)
  note set_password_Inr [OF 3]
  then have users: "db_users d3 = map (\<lambda>v. if ur_id v = ur_id ur
        then v\<lparr>ur_password_hash := h, ur_updated_at := ci_now env\<rparr> else v) (db_users (mh_accounts s))"
    and sessions: "db_sessions d3 = db_sessions (mh_accounts s)" by (simp_all add: i s2 s1)
  have d4: "db_users d4 = db_users d3" "db_sessions d4 = filter (\<lambda>x. se_user_id x \<noteq> ur_id ur) (db_sessions d3)"
    using delete_user_sessions_Inr [OF 4] by (simp_all add: delete_sessions_def i)
  have "ur' \<in> set (db_users d4)" using ur(1) unfolding d4 users ur'_def by force
  moreover have "filter (\<lambda>v. ur_id v \<noteq> ur_id ur) (db_users d4) = filter (\<lambda>v. ur_id v \<noteq> ur_id ur) (db_users (mh_accounts s))"
    unfolding d4 users by (rule filter_others) simp
  ultimately show ?thesis
    unfolding s' using ur(2) pw verify d4(2) sessions i
    by (intro bexI [of _ ur'] exI [of _ password] exI [of _ salt]) simp_all
qed

section \<open>A small deployment\<close>

definition sample_cli :: "terminal \<Rightarrow> string list cli_env" where
  "sample_cli t =
     \<lparr>ci_os = sample_os, ci_driver = \<lparr>dr_open = (\<lambda>_. None), dr_ping = (\<lambda>_. None)\<rparr>,
      ci_migrations = sample_mig_env, ci_lock = LockValue 1, ci_auth = sample_env, ci_now = 5,
      ci_random = Some ''r'', ci_salt = Some ''s'', ci_new_salt = Some ''salt'', ci_terminal = t,
      ci_time_text = fmt_int, ci_dir = (\<lambda>_. \<lparr>ui_file = (\<lambda>_. None), ui_hash = id\<rparr>),
      ci_embedded = \<lparr>ui_file = (\<lambda>_. None), ui_hash = id\<rparr>,
      ci_replies = [], ci_version = ''dev''\<rparr>"

definition sample_terminal :: terminal where
  "sample_terminal = \<lparr>tm_is_terminal = False, tm_stdin = ''new-password'' @ [newline], tm_typed = []\<rparr>"

definition sample_machine :: "string list machine" where
  "sample_machine =
     \<lparr>mh_schema = sample_conn [], mh_accounts = sample_db\<lparr>db_sessions := [sample_session_row ''tok'' 1, sample_session_row ''demo'' 2]\<rparr>,
      mh_audit = \<lparr>ad_rows = [], ad_next = 1, ad_faults = []\<rparr>, mh_out = []\<rparr>"

definition sample_user_args :: user_args where
  "sample_user_args =
     \<lparr>ua_username = ''Ann'', ua_role = [], ua_display = [], ua_email = [], ua_password = [], ua_config = [], ua_dsn = []\<rparr>"

lemma sample_kdf_length: "length (sample_kdf pw sl t m p n) = n"
  by (simp add: sample_kdf_def)

lemma password_change_takes_over_witness:
  "\<exists>s'. change_password (sample_cli sample_terminal) sample_user_args sample_machine = (Inr (), s')
     \<and> (\<exists>ur \<in> set (db_users (mh_accounts s')). lower_ascii (ur_username ur) = ''ann''
          \<and> filter (\<lambda>x. se_user_id x = ur_id ur) (db_sessions (mh_accounts s')) = [])"
proof -
  let ?run = "change_password (sample_cli sample_terminal) sample_user_args sample_machine"
  have "\<not> isl (fst ?run)" by code_simp
  then obtain s' where s': "?run = (Inr (), s')" using not_isl_unit [of ?run] by blast
  have env: "ae_version (ci_auth (sample_cli sample_terminal)) < 2 ^ 63"
    "\<And>pw sl t m p n. length (ae_idkey (ci_auth (sample_cli sample_terminal)) pw sl t m p n) = n"
    "ae_coll (ci_auth (sample_cli sample_terminal)) = lower_ascii" "lower_ascii (ua_username sample_user_args) = ''ann''"
    by (simp_all add: sample_cli_def sample_env_def sample_kdf_length) code_simp
  from password_change_takes_over [OF s' env(1,2)] obtain ur where
    "ur \<in> set (db_users (mh_accounts s'))" "lower_ascii (ur_username ur) = ''ann''"
    "db_sessions (mh_accounts s') = filter (\<lambda>x. se_user_id x \<noteq> ur_id ur) (db_sessions (mh_accounts sample_machine))"
    unfolding env(3,4) by blast
  then have "filter (\<lambda>x. se_user_id x = ur_id ur) (db_sessions (mh_accounts s')) = []"
    by (auto simp: filter_empty_conv)
  with s' \<open>ur \<in> set (db_users (mh_accounts s'))\<close> \<open>lower_ascii (ur_username ur) = ''ann''\<close>
  show ?thesis by blast
qed

lemma sample_machine_inv:
  "db_inv (ae_coll (ci_auth (sample_cli t))) (mh_accounts sample_machine)" "audit_inv (mh_audit sample_machine)"
  "distinct (map (ae_coll (ci_auth (sample_cli t))) [RoleAdmin, RoleOperator, RoleGuest, RoleDemo])"
  "mc_undo (mh_schema sample_machine) = None" "\<not> mc_locked (mh_schema sample_machine)"
  using sample_names_distinct
  by (simp_all add: sample_machine_def sample_cli_def sample_conn_def audit_inv_def db_inv_def sample_db_def
      sample_env_def roles_ok_def users_ok_def sessions_ok_def sample_role_def sample_user_def
      lower_ascii_def byte_def sample_session_row_def)

lemma server_starts_ready_witness:
  "\<exists>st s'. start_server (sample_cli sample_terminal) [] sample_machine = (Inr st, s')
     \<and> ''0002_b'' \<in> set (recorded (mc_tables (mh_schema s')))
     \<and> fst (login_demo sample_env 0 None [] [] (st_auth (su_site st))) = Inl InvalidCredentials"
proof -
  let ?run = "start_server (sample_cli sample_terminal) [] sample_machine"
  have "(case fst ?run of Inl e \<Rightarrow> False
      | Inr st \<Rightarrow> \<not> cf_demo_mode (wb_cfg (su_web st)) \<and> cf_login_rate_window (wb_cfg (su_web st)) < max_duration)"
    by code_simp
  then obtain st s' where run: "?run = (Inr st, s')" and st: "\<not> cf_demo_mode (wb_cfg (su_web st))"
    "cf_login_rate_window (wb_cfg (su_web st)) < max_duration"
    by (cases ?run; cases "fst ?run") auto
  have "''0002_b'' \<in> set (map version_of (migration_names (ci_migrations (sample_cli sample_terminal))))"
    by code_simp
  moreover have "ci_auth (sample_cli sample_terminal) = sample_env" by (simp add: sample_cli_def)
  ultimately show ?thesis
    using server_starts_ready [OF run sample_machine_inv st(2)] st(1) run
    by (intro exI [of _ st] exI [of _ s']) auto
qed

section \<open>Where the code says one thing and does another\<close>

text \<open>
  \<open>-h\<close> and \<open>--help\<close> are cases of the switch over the subcommands, but an argument that starts with
  a dash is never a subcommand: they reach the server's flags, and the process ends with an error.
\<close>

lemma help_flag_is_an_error:
  "case fst (run_seid (sample_cli sample_terminal) [''-h''] sample_machine) of
     Inl (ConfigFailed (FlagError HelpRequested)) \<Rightarrow> True | _ \<Rightarrow> False"
  "fst (subcommand [''--help'']) = ''serve''"
  by code_simp+

text \<open>
  An account is created under the name as given, but a login trims the name it looks for: an account
  created with a leading space cannot be signed in to.
\<close>

lemma padded_name_cannot_sign_in:
  "case create_account (sample_cli sample_terminal)
      (sample_user_args\<lparr>ua_username := '' bob'', ua_role := ''operator'', ua_password := ''correct horse''\<rparr>)
      sample_machine of
     (r, s') \<Rightarrow> r = Inr ()
       \<and> fst (login sample_env 0 (Some ''t'') '' bob'' ''correct horse'' [] []
                (sample_service\<lparr>sv_db := mh_accounts s'\<rparr>)) = Inl InvalidCredentials"
  by code_simp

text \<open>
  The audit's retention is multiplied out in 64 bits: 584 years come out as less than half an hour,
  and the loop deletes what is older.
\<close>

lemma huge_retention_prunes_early:
  "case audit_keep (default_config\<lparr>cf_audit_retention_days := 213504\<rparr>) of
     None \<Rightarrow> False | Some keep \<Rightarrow> 0 < keep \<and> keep < 30 * minute"
  by code_simp

end
