(* ===== verification/WorkerSource.thy ===== *)
theory WorkerSource
  imports Events Urls
begin

text \<open>
  The life of the worker source (\<^verbatim>\<open>internal/events/worker.go\<close>): whether it runs at all, the address it
  dials, and the reconnects up to the end of the process. How an address is taken apart and written
  out is \<^verbatim>\<open>net/url\<close>'s; of its parts only the scheme and the query matter here.
\<close>

section \<open>The address\<close>

record 'u url =
  ul_scheme :: string
  ul_raw_query :: string
  ul_rest :: 'u  \<comment> \<open>user, host, path and fragment\<close>

definition socket_scheme :: "string \<Rightarrow> string option" where
  "socket_scheme sch =
     (if sch = ''ws'' \<or> sch = ''wss'' then Some sch
      else if sch = ''http'' then Some ''ws''
      else if sch = ''https'' then Some ''wss''
      else None)"

definition source_target ::
  "(string \<Rightarrow> string + 'u url) \<Rightarrow> ('u url \<Rightarrow> string) \<Rightarrow> string \<Rightarrow> string + string" where
  "source_target parse_url url_text addr =
     (case parse_url addr of
        Inl e \<Rightarrow> Inl (''events: parsing '' @ go_quote addr @ '': '' @ e)
      | Inr u \<Rightarrow>
          (case socket_scheme (ul_scheme u) of
             None \<Rightarrow> Inl (''events: '' @ go_quote addr @ '' is not a WebSocket URL'')
           | Some sch \<Rightarrow>
               let q = set_value ''topics'' (join '','' topics) (parse_query (ul_raw_query u))
               in Inr (url_text (u\<lparr>ul_scheme := sch, ul_raw_query := encode_values q\<rparr>))))"

section \<open>The loop and its ends\<close>

text \<open>
  What the source logs. The connections to come end with the process: \<open>broken\<close> is the one that was
  open, or being dialled, when the context ended, \<open>None\<close> when the loop ended while it waited.
\<close>

datatype source_log =
    SourceOff
  | SourceUnusable string
  | SourceRetries retry_log

definition run_worker_source ::
  "(string \<Rightarrow> string + 'u url) \<Rightarrow> ('u url \<Rightarrow> string) \<Rightarrow> string \<Rightarrow> string \<Rightarrow> (connection \<times> int) list
     \<Rightarrow> connection option \<Rightarrow> hub \<Rightarrow> source_log list \<times> hub" where
  "run_worker_source parse_url url_text addr key cs broken h =
     (if \<not> enabled addr key then ([SourceOff], h)
      else
        case source_target parse_url url_text addr of
          Inl e \<Rightarrow> ([SourceUnusable e], h)
        | Inr target \<Rightarrow>
            let (logs, h) = run_source 0 cs h
            in (map SourceRetries logs,
                case broken of None \<Rightarrow> h | Some c \<Rightarrow> set_connected False (snd (connect c h))))"

section \<open>What that comes to\<close>

lemma source_target_Inr:
  assumes "source_target parse_url url_text addr = Inr target"
  obtains u sch q where "parse_url addr = Inr u" and "socket_scheme (ul_scheme u) = Some sch"
    and "q = set_value ''topics'' (join '','' topics) (parse_query (ul_raw_query u))"
    and "target = url_text (u\<lparr>ul_scheme := sch, ul_raw_query := encode_values q\<rparr>)"
  using assms by (auto simp: source_target_def Let_def split: sum.splits option.splits)

text \<open>
  The source only ever dials a WebSocket, encrypted exactly when the configured address was, and
  asks the worker for its own topics whatever the configured query said of them; everything else of
  the address is as configured.
\<close>

lemma source_dials_configured:
  assumes "source_target parse_url url_text addr = Inr target"
  shows "\<exists>u v. parse_url addr = Inr u \<and> target = url_text v \<and> ul_rest v = ul_rest u
    \<and> ul_scheme v \<in> {''ws'', ''wss''} \<and> (ul_scheme v = ''wss'' \<longleftrightarrow> ul_scheme u \<in> {''wss'', ''https''})
    \<and> map_of (parse_query (ul_raw_query v))
        = (map_of (parse_query (ul_raw_query u)))(''topics'' \<mapsto> [join '','' topics])"
proof -
  obtain u sch q where u: "parse_url addr = Inr u" "socket_scheme (ul_scheme u) = Some sch"
    and q: "q = set_value ''topics'' (join '','' topics) (parse_query (ul_raw_query u))"
    and target: "target = url_text (u\<lparr>ul_scheme := sch, ul_raw_query := encode_values q\<rparr>)"
    using assms by (rule source_target_Inr)
  have "values_inv q" unfolding q by (intro values_inv_set values_inv_parse)
  then have "map_of (parse_query (encode_values q))
      = (map_of (parse_query (ul_raw_query u)))(''topics'' \<mapsto> [join '','' topics])"
    by (simp add: query_reads_back) (simp add: q set_value_def update_conv')
  moreover have "sch \<in> {''ws'', ''wss''}" "sch = ''wss'' \<longleftrightarrow> ul_scheme u \<in> {''wss'', ''https''}"
    using u(2) by (auto simp: socket_scheme_def split: if_splits)
  ultimately show ?thesis
    using u(1) target
    by (intro exI [of _ u] exI [of _ "u\<lparr>ul_scheme := sch, ul_raw_query := encode_values q\<rparr>"]) simp
qed

lemma disconnected_after: "\<not> hu_connected (set_connected False h)"
  by (simp add: set_connected_def)

lemma run_source_disconnects: "\<not> hu_connected h \<Longrightarrow> \<not> hu_connected (snd (run_source tries cs h))"
proof (induction cs arbitrary: tries h)
  case (Cons x cs)
  then show ?case
    using disconnected_after by (cases x) (simp add: case_prod_beta Let_def)
qed simp

text \<open>However it ends, the hub does not go on telling the browsers that events are flowing.\<close>

lemma source_leaves_disconnected:
  assumes "\<not> hu_connected h"
  shows "\<not> hu_connected (snd (run_worker_source parse_url url_text addr key cs broken h))"
  using run_source_disconnects [OF assms, of 0 cs] assms disconnected_after
  by (auto simp: run_worker_source_def Let_def case_prod_beta split: sum.splits option.splits)

text \<open>A switched-off or unusable source says so once and leaves the hub alone.\<close>

lemma source_not_running:
  assumes "\<not> enabled addr key \<or> isl (source_target parse_url url_text addr)"
  shows "snd (run_worker_source parse_url url_text addr key cs broken h) = h
    \<and> length (fst (run_worker_source parse_url url_text addr key cs broken h)) = 1"
  using assms by (auto simp: run_worker_source_def isl_def)

lemma source_target_example:
  "source_target (\<lambda>_. Inr \<lparr>ul_scheme = ''https'', ul_raw_query = ''b=2&topics=x&a=1+1&%zz'', ul_rest = ()\<rparr>)
     (\<lambda>u. ul_scheme u @ ''://worker/ws?'' @ ul_raw_query u) ''https://worker/ws?b=2&topics=x&a=1+1&%zz''
   = Inr (''wss://worker/ws?a=1+1&b=2&topics='' @ query_escape (join '','' topics))"
  by code_simp

end
