(* ===== verification/Lifecycle.thy ===== *)
theory Lifecycle
  imports Seid WorkerSource
begin

text \<open>
  The life of the server process (\<^verbatim>\<open>cmd/seid/main.go\<close>, \<open>ListenAndServe\<close> of
  \<^verbatim>\<open>internal/httpapi/server.go\<close>): what it says about its configuration when it starts, what ends it,
  and the status it exits with. What the listener and the signals do is the list of events to come;
  how the standard library's shutdown ended is a parameter.
\<close>

section \<open>What a start says\<close>

record log_record =
  lr_level :: log_level
  lr_message :: string
  lr_values :: "(string \<times> string) list"

definition say :: "log_level \<Rightarrow> string \<Rightarrow> log_record" where
  "say l message = \<lparr>lr_level = l, lr_message = message, lr_values = []\<rparr>"

text \<open>
  \<open>v6_loopback\<close> is the verdict of \<^verbatim>\<open>net\<close> on an address in colon form. A name is no address, so it is
  not known to be loopback.
\<close>

definition is_loopback :: "(string \<Rightarrow> bool) \<Rightarrow> string \<Rightarrow> bool" where
  "is_loopback v6_loopback addr =
     (let host = (case split_host_port addr of None \<Rightarrow> addr | Some h \<Rightarrow> h) in
      if host = [] then False
      else case find (\<lambda>c. c = CHR ''.'' \<or> c = CHR '':'') host of
        None \<Rightarrow> False
      | Some c \<Rightarrow>
          if c = CHR ''.'' then (case parse_ipv4 host of None \<Rightarrow> False | Some ns \<Rightarrow> ns ! 0 = 127)
          else v6_loopback host)"

definition demo_records :: "(string \<Rightarrow> bool) \<Rightarrow> config \<Rightarrow> log_record list" where
  "demo_records v6_loopback cfg =
     (if \<not> cf_demo_mode cfg then []
      else
        (if cf_demo_commands cfg \<noteq> [] then
           [\<lparr>lr_level = LevelWarn, lr_message = ''the public demo account may submit external commands'',
             lr_values = [(''commands'', join '','' (cf_demo_commands cfg)),
                          (''per_visitor_per_minute'', fmt_int (cf_demo_command_rate_limit cfg)),
                          (''max_objects_per_command'', fmt_int (cf_demo_max_targets cfg))]\<rparr>]
         else
           [\<lparr>lr_level = LevelInfo, lr_message = ''demo mode is on and read-only'',
             lr_values = [(''account'', cf_demo_user cfg)]\<rparr>])
        @ (if \<not> cf_secure_cookies cfg \<and> \<not> is_loopback v6_loopback (cf_listen_addr cfg) then
             [say LevelWarn (''demo mode is reachable off this machine without secure_cookies: ''
                @ ''the session cookie will travel in the clear unless something in front sets it right'')]
           else []))"

definition ui_records :: "'d cli_env \<Rightarrow> config \<Rightarrow> log_record list" where
  "ui_records env cfg =
     (if cf_ui_dir cfg \<noteq> [] then
        (if ui_stat (ci_dir env (cf_ui_dir cfg)) ''index.html'' = None then
           [\<lparr>lr_level = LevelWarn, lr_message = ''ui_dir has no index.html; serving no frontend'',
             lr_values = [(''dir'', cf_ui_dir cfg)]\<rparr>]
         else
           [\<lparr>lr_level = LevelInfo, lr_message = ''serving frontend from disk'',
             lr_values = [(''dir'', cf_ui_dir cfg)]\<rparr>])
      else if embedded_ui (ci_embedded env) = None then
        [say LevelInfo ''no frontend embedded in this build; API only'']
      else [])"

text \<open>From the list of accounts to the server's construction.\<close>

definition start_records :: "'d cli_env \<Rightarrow> (string \<Rightarrow> bool) \<Rightarrow> config \<Rightarrow> user list \<Rightarrow> log_record list" where
  "start_records env v6_loopback cfg users =
     (if users = [] then
        [say LevelWarn (''no accounts exist yet - create the first one with: ''
           @ ''seid user create -username <name> -role admin'')] else [])
     @ (if \<not> commands_enabled cfg then
          [say LevelWarn ''external commands are disabled: set worker_command_key to enable them''] else [])
     @ (if \<not> events_enabled cfg then
          [say LevelWarn (''live updates are disabled: set worker_events_key to enable them; ''
             @ ''the UI will poll instead'')] else [])
     @ demo_records v6_loopback cfg
     @ ui_records env cfg"

text \<open>What a logger of a level writes of it.\<close>

definition written :: "log_level \<Rightarrow> log_record list \<Rightarrow> log_record list" where
  "written configured rs = filter (\<lambda>r. log_enabled configured (lr_level r)) rs"

text \<open>What it says was added to a built-in role and taken from it (\<^verbatim>\<open>internal/auth/bootstrap.go\<close>).\<close>

definition missing :: "string list \<Rightarrow> string list \<Rightarrow> string list" where
  "missing want have_now = filter (\<lambda>p. p \<notin> set have_now) want"

section \<open>What ends it\<close>

text \<open>
  The listener ends by itself, with an error or because it was closed, or a signal cancels the
  context. The first of them decides: an end of the listener is the result, a cancelled context
  leaves it to the shutdown, which has fifteen seconds.
\<close>

datatype listener_end = ServerClosed | ListenFailed string

datatype server_event = ListenerEnded listener_end | ContextDone

definition shutdown_limit :: duration where "shutdown_limit = 15 * second"

definition listen_and_serve :: "string option \<Rightarrow> server_event list \<Rightarrow> string option option" where
  "listen_and_serve shutdown evs =
     (case evs of
        [] \<Rightarrow> None
      | ListenerEnded ServerClosed # _ \<Rightarrow> Some None
      | ListenerEnded (ListenFailed e) # _ \<Rightarrow> Some (Some e)
      | ContextDone # _ \<Rightarrow> Some shutdown)"

text \<open>
  The status of the process: an error of any subcommand is status 1, everything else 0; a server
  that is still running has none.
\<close>

definition process_status :: "string option \<Rightarrow> server_event list \<Rightarrow> cli_error + started option \<Rightarrow> int option" where
  "process_status shutdown evs r =
     (case r of
        Inl _ \<Rightarrow> Some 1
      | Inr None \<Rightarrow> Some 0
      | Inr (Some st) \<Rightarrow> map_option (\<lambda>e. if e = None then 0 else 1) (listen_and_serve shutdown evs))"

definition seid_main :: "'d cli_env \<Rightarrow> string option \<Rightarrow> server_event list \<Rightarrow> string list \<Rightarrow> 'd machine
    \<Rightarrow> int option \<times> 'd machine" where
  "seid_main env shutdown evs argv s =
     (case run_seid env argv s of (r, s') \<Rightarrow> (process_status shutdown evs r, s'))"

section \<open>What that comes to\<close>

text \<open>
  The two lists account for the change of a role as a set. A role stored with a permission twice is
  written again all the same, and then the line names nothing.
\<close>

lemma missing_accounts:
  "set want = set old - set (missing old want) \<union> set (missing want old)"
  "missing want old = [] \<and> missing old want = [] \<longleftrightarrow> set want = set old"
  by (auto simp: missing_def filter_empty_conv)

lemma doubled_permission_names_nothing:
  "\<not> same_permissions [PermHostsRead, PermHostsRead] [PermHostsRead]"
  "missing [PermHostsRead] [PermHostsRead, PermHostsRead] = []"
  "missing [PermHostsRead, PermHostsRead] [PermHostsRead] = []"
  by code_simp+

text \<open>The source a server starts is one that is switched on.\<close>

lemma started_source_enabled:
  "su_source (new_started env cfg s) = Some (addr, key) \<Longrightarrow> enabled addr key"
  by (auto simp: new_started_def events_enabled_def enabled_def split: if_splits)

lemma listen_and_serve_cases:
  "listen_and_serve shutdown evs = None \<longleftrightarrow> evs = []"
  "listen_and_serve shutdown (ContextDone # evs) = Some shutdown"
  "listen_and_serve shutdown (ListenerEnded (ListenFailed e) # evs) = Some (Some e)"
  by (auto simp: listen_and_serve_def split: list.splits server_event.splits listener_end.splits)

lemma warnings_seen: "log_enabled configured LevelWarn \<longleftrightarrow> configured \<noteq> LevelError"
  by (cases configured) (simp_all add: log_enabled_def less_eq_log_level_def)

lemma loopback_is_dotted_127:
  assumes "is_loopback (\<lambda>_. False) addr"
  obtains host ns where "split_host_port addr = Some host \<or> split_host_port addr = None \<and> host = addr"
    "parse_ipv4 host = Some ns" "ns ! 0 = 127"
proof -
  define host where "host = (case split_host_port addr of None \<Rightarrow> addr | Some h \<Rightarrow> h)"
  have "split_host_port addr = Some host \<or> split_host_port addr = None \<and> host = addr"
    by (simp add: host_def split: option.splits)
  moreover obtain ns where "parse_ipv4 host = Some ns" "ns ! 0 = 127"
    using assms unfolding is_loopback_def Let_def host_def [symmetric]
    by (auto split: if_splits option.splits)
  ultimately show thesis by (rule that)
qed

text \<open>
  A demonstration server whose cookies would travel in the clear says so, whatever its logger is
  set to short of errors only; listening on every address counts as reachable.
\<close>

lemma clear_cookies_warned:
  assumes "cf_demo_mode cfg" and "\<not> cf_secure_cookies cfg" and "\<not> is_loopback v6 (cf_listen_addr cfg)"
    and "configured \<noteq> LevelError"
  shows "\<exists>r \<in> set (written configured (start_records env v6 cfg users)). lr_level r = LevelWarn
    \<and> prefix ''demo mode is reachable off this machine'' (lr_message r)"
proof -
  let ?r = "say LevelWarn (''demo mode is reachable off this machine without secure_cookies: ''
    @ ''the session cookie will travel in the clear unless something in front sets it right'')"
  have "?r \<in> set (start_records env v6 cfg users)"
    using assms(1-3) by (simp add: start_records_def demo_records_def)
  then have "?r \<in> set (written configured (start_records env v6 cfg users))"
    using warnings_seen assms(4) by (simp add: written_def say_def)
  then show ?thesis by (rule bexI [rotated]) (simp add: say_def)
qed

lemma every_address_is_reachable: "\<not> is_loopback v6 '':8080''"
  by code_simp

text \<open>
  The check is said to tell whether an address only accepts connections from this machine; it knows
  numbers only, so that a demonstration server on \<open>localhost\<close> is warned about in vain.
\<close>

lemma localhost_counts_as_reachable:
  "\<not> is_loopback v6 ''localhost:8090''" "is_loopback v6 ''127.0.0.1:8090''"
  by code_simp+

end
