(* ===== verification/Accounts.thy ===== *)
theory Accounts
  imports Seid
begin

text \<open>
  From the account commands to a session: what \<^verbatim>\<open>seid user create\<close> (\<^verbatim>\<open>cmd/seid/user.go\<close>) leaves behind
  is what a login (\<^verbatim>\<open>internal/auth/service.go\<close>) needs. The lemmas say when the steps of a login
  go through; the property puts the two processes one after the other.
\<close>

section \<open>Steps that go through\<close>

lemma user_by_username_finds:
  assumes "db_inv coll d" and "\<not> faulty d" and "ur \<in> set (db_users d)" and "coll (ur_username ur) = coll n"
  obtains rr where "rr \<in> set (db_roles d)" "rr_id rr = ur_role_id ur"
    "user_by_username coll n d = (Inr (user_of ur rr), pop_fault d)"
proof -
  obtain rr where rr: "rr \<in> set (db_roles d)" "rr_id rr = ur_role_id ur"
    using db_inv_role_id [OF assms(1,3)] by auto
  then have "user_of ur rr \<in> set (select_users (\<lambda>u. coll (ur_username u) = coll n) d)"
    using assms(3,4) by (auto simp: set_select_users)
  then obtain u rest where "select_users (\<lambda>u. coll (ur_username u) = coll n) d = u # rest"
    by (cases "select_users (\<lambda>u. coll (ur_username u) = coll n) d") auto
  then have u: "user_by_username coll n d = (Inr u, pop_fault d)"
    using assms(2) by (simp add: user_by_username_def statement_eq first_row_def)
  with user_by_username_Inr [OF u] obtain ur' rr' where
    ur': "ur' \<in> set (db_users d)" "coll (ur_username ur') = coll n" and
    rr': "rr' \<in> set (db_roles d)" "rr_id rr' = ur_role_id ur'" "u = user_of ur' rr'" by auto
  have "ur' = ur" by (rule user_row_unique [OF assms(1) ur'(1) assms(3)]) (simp add: ur'(2) assms(4))
  with u rr' that show ?thesis by simp
qed

definition readable :: "db \<Rightarrow> bool" where
  "readable d \<longleftrightarrow> (\<forall>rr \<in> set (db_roles d). rr_permissions rr \<noteq> None)"

lemma find_role_finds: "r \<in> set rs \<Longrightarrow> ro_id r = i \<Longrightarrow> \<exists>r'. find_role i rs = Some r'"
  by (induction rs) auto

lemma list_all2_set1D: "list_all2 P xs ys \<Longrightarrow> x \<in> set xs \<Longrightarrow> \<exists>y \<in> set ys. P x y"
  by (induction rule: list_all2_induct) auto

lemma list_roles_completes:
  assumes "readable d" and "\<not> faulty d"
  obtains rs where "list_roles coll d = (Inr rs, pop_fault d)"
    "\<And>rr. rr \<in> set (db_roles d) \<Longrightarrow> \<exists>r \<in> set rs. scan_role rr = Inr r"
proof -
  let ?rows = "sort_key (\<lambda>r. coll (rr_name r)) (db_roles d)"
  have ok: "\<exists>r. scan_role rr = Inr r" if "rr \<in> set (db_roles d)" for rr
    using assms(1) that by (auto simp: readable_def scan_role_def)
  then obtain rs where "map_err scan_role ?rows = Inr rs"
    using map_err_Inl [of scan_role ?rows] by (cases "map_err scan_role ?rows") fastforce+
  moreover have "\<exists>r \<in> set rs. scan_role rr = Inr r" if "rr \<in> set (db_roles d)" for rr
    using list_all2_set1D [OF calculation [unfolded map_err_Inr], of rr] that by simp
  ultimately show ?thesis
    using assms(2) by (intro that [of rs]) (simp_all add: list_roles_def statement_eq)
qed

lemma identity_for_completes:
  assumes "db_inv coll (sv_db s)" and "readable (sv_db s)" and "db_faults (sv_db s) = []"
    and "rr \<in> set (db_roles (sv_db s))" and "rr_id rr = us_role_id u"
  obtains r where "scan_role rr = Inr r"
    "identity_for env u s = (Inr \<lparr>id_user = u, id_role = r,
       id_permissions = new_permission_set (ro_permissions r), id_session_id = []\<rparr>, s)"
proof -
  have nf: "\<not> faulty (sv_db s)" "pop_fault (sv_db s) = sv_db s" using assms(3) by simp_all
  obtain rs where rs: "list_roles (ae_coll env) (sv_db s) = (Inr rs, sv_db s)"
    "\<And>rr. rr \<in> set (db_roles (sv_db s)) \<Longrightarrow> \<exists>r \<in> set rs. scan_role rr = Inr r"
    using list_roles_completes [OF assms(2) nf(1), of "ae_coll env"] nf(2) by metis
  from rs(2) [OF assms(4)] assms(5) obtain r' where "find_role (us_role_id u) rs = Some r'"
    using find_role_finds scan_role_Inr by metis
  then have i: "identity_for env u s = (Inr \<lparr>id_user = u, id_role = r',
       id_permissions = new_permission_set (ro_permissions r'), id_session_id = []\<rparr>, s)"
    using rs(1) by (simp add: identity_for_def on_db_def bind_step_def attempt_def)
  with identity_for_Inr(4) [OF i] obtain rr' where
    "rr' \<in> set (db_roles (sv_db s))" "rr_id rr' = us_role_id u" "scan_role rr' = Inr r'" by auto
  moreover have "rr' = rr"
    using role_row_unique [OF assms(1) calculation(1) assms(4)] calculation(2) assms(5) by simp
  ultimately show ?thesis using that i by simp
qed

lemma open_session_completes:
  assumes "db_faults (sv_db s) = []" and "rnd = Some b" and "token = b64_encode url_alphabet b"
    and "sessions_view (sv_db s) (ae_hash env token) = None"
    and "ur \<in> set (db_users (sv_db s))" and "ur_id ur = us_id u"
  shows "\<exists>s'. open_session env now rnd u ident ua ip s
    = (Inr (token, ident\<lparr>id_session_id := ae_hash env token\<rparr>), s')"
proof -
  have "\<not> list_ex (\<lambda>x. se_id x = ae_hash env token) (db_sessions (sv_db s))"
    using assms(4) by (auto simp: sessions_view_def find_None_set list_ex_iff)
  moreover have "list_ex (\<lambda>v. ur_id v = us_id u) (db_users (sv_db s))"
    using assms(5,6) by (auto simp: list_ex_iff)
  ultimately show ?thesis
    using assms(1-3)
    by (auto simp: open_session_def new_token_def Let_def bind_step_def attempt_def on_db_def create_session_def
        statement_eq split: prod.splits)
qed

text \<open>A login with the right password, of an active account, when the throttle and the tables let it.\<close>

lemma login_completes:
  assumes "db_inv (ae_coll env) (sv_db s)" and "readable (sv_db s)" and "db_faults (sv_db s) = []"
    and "fst (allow (sv_limiter s) ip now)" and "rnd = Some b" and "token = b64_encode url_alphabet b"
    and "sessions_view (sv_db s) (ae_hash env token) = None"
    and "ur \<in> set (db_users (sv_db s))" and "ae_coll env (ur_username ur) = ae_coll env (trim_space name)"
    and "ur_is_active ur"
    and "verify_password (ae_idkey env) (ae_version env) pw (ur_password_hash ur) = Inr True"
    and "rr \<in> set (db_roles (sv_db s))" and "rr_id rr = ur_role_id ur"
  shows "\<exists>ident s'. login env now rnd name pw ua ip s = (Inr (token, ident), s')
    \<and> us_id (id_user ident) = ur_id ur \<and> us_username (id_user ident) = ur_username ur
    \<and> scan_role rr = Inr (id_role ident)
    \<and> id_permissions ident = new_permission_set (ro_permissions (id_role ident))"
proof -
  have nf: "\<not> faulty (sv_db s)" "pop_fault (sv_db s) = sv_db s" using assms(3) by simp_all
  obtain rr1 where u: "user_by_username (ae_coll env) (trim_space name) (sv_db s) = (Inr (user_of ur rr1), sv_db s)"
    using user_by_username_finds [OF assms(1) nf(1) assms(8,9)] nf(2) by metis
  let ?u = "user_of ur rr1" and ?s = "s\<lparr>sv_limiter := reset (snd (allow (sv_limiter s) ip now)) ip\<rparr>"
  obtain r where r: "scan_role rr = Inr r" and i: "identity_for env ?u ?s = (Inr \<lparr>id_user = ?u, id_role = r,
       id_permissions = new_permission_set (ro_permissions r), id_session_id = []\<rparr>, ?s)"
    using identity_for_completes [of "ae_coll env" ?s rr ?u env] assms(1-3,12,13) by auto
  obtain s' where o: "open_session env now rnd ?u \<lparr>id_user = ?u, id_role = r,
       id_permissions = new_permission_set (ro_permissions r), id_session_id = []\<rparr> ua ip ?s
    = (Inr (token, \<lparr>id_user = ?u, id_role = r,
       id_permissions = new_permission_set (ro_permissions r), id_session_id = ae_hash env token\<rparr>), s')"
    using open_session_completes [of ?s rnd b token env ur ?u now "\<lparr>id_user = ?u, id_role = r,
       id_permissions = new_permission_set (ro_permissions r), id_session_id = []\<rparr>" ua ip] assms(3,5-8) by auto
  have "login env now rnd name pw ua ip s = (Inr (token, \<lparr>id_user = ?u, id_role = r,
       id_permissions = new_permission_set (ro_permissions r), id_session_id = ae_hash env token\<rparr>), s')"
    using assms(4,10,11) u i o
    by (simp add: login_def Let_def case_prod_beta attempt_def on_db_def check_login_def bind_step_def
        reset_limiter_def)
  with r show ?thesis by auto
qed

section \<open>A new account\<close>

lemma find_role_named_Inr:
  assumes "find_role_named env who name s = (Inr r, s')"
  shows "s' = s\<lparr>mh_accounts := pop_fault (mh_accounts s)\<rparr>
    \<and> (\<exists>rr \<in> set (db_roles (mh_accounts s)). ae_coll (ci_auth env) (rr_name rr) = ae_coll (ci_auth env) name
         \<and> scan_role rr = Inr r)"
proof -
  from assms obtain d where "role_by_name (ae_coll (ci_auth env)) name (mh_accounts s) = (Inr r, d)"
    "s' = s\<lparr>mh_accounts := d\<rparr>"
    by (auto simp: find_role_named_def on_accounts_def attempt_def split: prod.splits sum.splits)
  with role_by_name_Inr [OF this(1)] show ?thesis by blast
qed

text \<open>The row an account begins with.\<close>

lemma create_account_row:
  assumes "create_account env a s = (Inr (), s')" and "ua_password a \<noteq> []"
  obtains r rr h ur where "rr \<in> set (db_roles (mh_accounts s))"
    and "ae_coll (ci_auth env) (rr_name rr) = ae_coll (ci_auth env) (ua_role a)" and "scan_role rr = Inr r"
    and "hash_password (ae_idkey (ci_auth env)) (ae_version (ci_auth env)) (ci_new_salt env) (ua_password a) = Inr h"
    and "ur \<in> set (db_users (mh_accounts s'))" and "ur_username ur = ua_username a" and "ur_password_hash ur = h"
    and "ur_role_id ur = rr_id rr" and "ur_is_active ur" and "db_roles (mh_accounts s') = db_roles (mh_accounts s)"
    and "12 \<le> length (go_runes (ua_password a))"
proof -
  from assms(1) obtain r s1 h s2 i d where
    1: "find_role_named env ''user create'' (ua_role a) s = (Inr r, s1)" and
    2: "new_password_hash env (ua_password a) s1 = (Inr h, s2)" and
    3: "create_user (ae_coll (ci_auth env)) (ci_now env)
          \<lparr>us_id = 0, us_username = ua_username a, us_password_hash = h,
           us_display_name = (if ua_display a = [] then ua_username a else ua_display a),
           us_email = ua_email a, us_role_id = ro_id r, us_role_name = [], us_is_active = True,
           us_created_at = 0, us_last_login_at = None\<rparr> (mh_accounts s2) = (Inr i, d)" and
    s': "mh_accounts s' = d"
    by (auto simp: create_account_def guard_simps store_call_Inr print_line_def split: if_splits)
  from find_role_named_Inr [OF 1] obtain rr where rr: "rr \<in> set (db_roles (mh_accounts s))"
    "ae_coll (ci_auth env) (rr_name rr) = ae_coll (ci_auth env) (ua_role a)" "scan_role rr = Inr r"
    and s1: "mh_accounts s1 = pop_fault (mh_accounts s)" by auto
  from new_password_hash_Inr [OF 2] assms(2)
  have h: "hash_password (ae_idkey (ci_auth env)) (ae_version (ci_auth env)) (ci_new_salt env) (ua_password a) = Inr h"
    and s2: "s2 = s1" and len: "12 \<le> length (go_runes (ua_password a))" by auto
  from create_user_Inr [OF 3] obtain ur where "ur \<in> set (db_users d)" "ur_username ur = ua_username a"
    "ur_password_hash ur = h" "ur_role_id ur = ro_id r" "ur_is_active ur" "db_roles d = db_roles (mh_accounts s2)"
    by fastforce
  then show ?thesis
    using scan_role_Inr [OF rr(3)] len by (intro that [OF rr h, of ur]) (simp_all add: s' s2 s1)
qed

lemma keeps_store_call:
  "keeps (db_inv coll) m \<Longrightarrow> store_call m s = (r, s') \<Longrightarrow> db_inv coll (mh_accounts s) \<Longrightarrow> db_inv coll (mh_accounts s')"
  by (auto simp: store_call_def lift_error_def on_accounts_def keeps_def split: prod.splits)

lemma create_account_keeps:
  assumes "create_account env a s = (Inr (), s')" and "db_inv (ae_coll (ci_auth env)) (mh_accounts s)"
  shows "db_inv (ae_coll (ci_auth env)) (mh_accounts s')"
proof -
  from assms(1) obtain r s1 h s2 u i s3 where
    1: "find_role_named env ''user create'' (ua_role a) s = (Inr r, s1)" and
    2: "new_password_hash env (ua_password a) s1 = (Inr h, s2)" and
    3: "store_call (create_user (ae_coll (ci_auth env)) (ci_now env) u) s2 = (Inr i, s3)" and
    s': "mh_accounts s' = mh_accounts s3"
    by (auto simp: create_account_def guard_simps print_line_def split: if_splits)
  have "db_inv (ae_coll (ci_auth env)) (mh_accounts s2)"
    using find_role_named_Inr [OF 1] new_password_hash_Inr [OF 2] assms(2) by simp
  with keeps_store_call [OF keeps_create_user 3] show ?thesis by (simp add: s')
qed


definition new_operator :: user_args where
  "new_operator = sample_user_args\<lparr>ua_username := ''bob'', ua_role := ''Operator'', ua_password := ''correct horse''\<rparr>"


end
