(* ===== verification/Spec2Isabelle.thy ===== *)
theory Spec2Isabelle
  imports Interleaving Lifecycle Accounts
begin

text \<open>
  \<^bold>\<open>Statusengine Interface.\<close> A verification library for the Go code of the web interface of
  Statusengine: a daemon that serves an API and a frontend over the tables a monitoring worker
  writes, signs operators in, carries their commands to the worker and records every one of them.

  \<^bold>\<open>Shape of the model.\<close> Every Go function is one definition of the same name, in snake case. A call
  that reads or changes state is a function from the state to a result and the next state, the type
  \<open>step\<close> of \<^theory_text>\<open>Prelude\<close>; an error is the left side of a sum, and every early return is a branch.
  \<open>int\<close> and \<open>int64\<close> are integers whose operations wrap where the code can leave the range
  (\<open>wrap64\<close>), identifiers are 32-bit words, strings are lists of bytes with Go's decoding of runes
  over them. Where the code leaves a choice to the world it is an argument: the collation of MySQL,
  the statements that fail (a list of faults, one per round trip), the clock at each of the places
  that read it, random bytes, argon2, the YAML decoder, the replies of the worker, the files on disk.

  \<^bold>\<open>The parts, in the order of the code.\<close>

  \<^item> \<^theory_text>\<open>Prelude\<close>, \<^theory_text>\<open>GoStrings\<close>, \<^theory_text>\<open>Json\<close>, \<^theory_text>\<open>Urls\<close>: integers, guards, steps and the invariants they
    keep (\<open>keeps\<close>, with its collection of rules), runes, splitting, numbers, JSON and queries of URLs
    as the standard library reads and writes them. \<^theory_text>\<open>Logging\<close> (\<^verbatim>\<open>internal/logging\<close>): the levels as a
    linear order and the configured logger.
  \<^item> \<^theory_text>\<open>Commands\<close> (\<^verbatim>\<open>internal/commands/naemon.go\<close>): the builders of external commands, their checks
    and the bulk. Its lemmas read every line back with a model of the core's parser and find exactly
    the command that was meant.
  \<^item> \<^theory_text>\<open>Client\<close> (\<^verbatim>\<open>client.go\<close>) and \<^theory_text>\<open>CommandAudit\<close> (\<^verbatim>\<open>audit.go\<close>): one submission to the worker, with
    the locale \<open>transport\<close> for what the handlers rely on, and the table of recorded commands with its
    batches, pages and pruning.
  \<^item> \<^theory_text>\<open>RateLimit\<close> (\<^verbatim>\<open>internal/ratelimit\<close>): the fixed window, and the locale \<open>throttle\<close> with what it
    promises to the login and the command limits.
  \<^item> \<^theory_text>\<open>Permissions\<close>, \<^theory_text>\<open>Password\<close>, \<^theory_text>\<open>AuthStore\<close>, \<^theory_text>\<open>AuthService\<close>, \<^theory_text>\<open>Bootstrap\<close>
    (\<^verbatim>\<open>internal/auth\<close>): accounts, roles and sessions as tables with their keys, of which every
    statement keeps \<open>db_inv\<close>; the locale \<open>session_store\<close> says what the service relies on. On top
    login, demonstration login, authentication and what a start does to the roles.
  \<^item> \<^theory_text>\<open>Interleaving\<close>: the same operations, with the pruning and the account commands of other processes,
    as programs of atoms, one statement or one call of the throttle each, and all their
    interleavings as the relation \<open>interleaved\<close>; run alone the programs are the operations
    (\<open>programs_are_operations\<close>). The locale \<open>atom_invariant\<close> holds what a property has to be kept by
    to hold throughout, and is interpreted for the tables and for a session that was ended.
  \<^item> \<^theory_text>\<open>Config\<close> (\<^verbatim>\<open>internal/config\<close>): defaults, file, environment, flags, validation. The maps the code
    ranges over in random order are lists in any order.
  \<^item> \<^theory_text>\<open>Domain\<close>, \<^theory_text>\<open>Query\<close>, \<^theory_text>\<open>Listing\<close>, \<^theory_text>\<open>StatusLists\<close>, \<^theory_text>\<open>ProblemList\<close>, \<^theory_text>\<open>WindowLists\<close>,
    \<^theory_text>\<open>HistoryLists\<close>, \<^theory_text>\<open>Summary\<close> (\<^verbatim>\<open>internal/domain\<close>, \<^verbatim>\<open>internal/repository/mysql\<close>): a statement is
    built as data, rendered as text with placeholders, and evaluated on rows; the lemmas refine each
    list to the set of rows its filter asks for. The locales \<open>list_statement\<close> and
    \<open>sorted_statement\<close> hold what the lists share.
  \<^item> \<^theory_text>\<open>Metrics\<close> (\<^verbatim>\<open>internal/metrics\<close>): buckets and series of performance data; the locale
    \<open>metrics_provider\<close> is the interface, interpreted for MySQL, for Graphite and for the choice
    between them.
  \<^item> \<^theory_text>\<open>Events\<close>, \<^theory_text>\<open>WorkerSource\<close> (\<^verbatim>\<open>internal/events\<close>): the hub as a step relation, whose steps are the sections under
    its mutex and the single sends on channels, so every interleaving is a path of \<open>hub_step\<close>; the
    worker source, from its address over the connections to come to its end, and the event stream as text.
  \<^item> \<^theory_text>\<open>Http\<close>, \<^theory_text>\<open>Middleware\<close>, \<^theory_text>\<open>CommandHandlers\<close>, \<^theory_text>\<open>ListHandlers\<close>, \<^theory_text>\<open>SessionHandlers\<close>, \<^theory_text>\<open>WebUi\<close>,
    \<^theory_text>\<open>Server\<close> (\<^verbatim>\<open>internal/httpapi\<close>): parameters and responses, what stands in front of a handler,
    every handler, and the table of routes; \<open>serve\<close> takes a request from the socket to the answer.
    The state is \<open>site\<close>: the service with its tables, the limiters, the worker's wire, the audit,
    the hub and the access log.
  \<^item> \<^theory_text>\<open>ServerSafety\<close>: the properties of \<open>serve\<close> that span these parts, and the reachable sites.
  \<^item> \<^theory_text>\<open>Migrate\<close> (\<^verbatim>\<open>internal/migrate\<close>): the lock, the version table, transactions that a
    \<open>CREATE TABLE\<close> ends, and the splitting of a file into statements.
  \<^item> \<^theory_text>\<open>Seid\<close> (\<^verbatim>\<open>cmd/seid\<close>, \<^verbatim>\<open>internal/logging\<close>, \<^verbatim>\<open>internal/database\<close>, \<^verbatim>\<open>internal/webui\<close>): the
    subcommands, the accounts from the command line, and a server put together from all the above.
    \<^theory_text>\<open>Accounts\<close> follows an account from \<open>user create\<close> to its first session.
  \<^item> \<^theory_text>\<open>Lifecycle\<close> (\<^verbatim>\<open>cmd/seid/main.go\<close>, \<open>ListenAndServe\<close>): what a start says of its configuration, what
    ends the server, and the status the process exits with.

  \<^bold>\<open>What the lemmas show.\<close> For commands: a request reaches the worker only with the permission its
  route names, carries exactly the objects named and the text the core reads as meant, and is
  recorded once per object. For accounts: who gets in, with which permissions and for how long, what
  ends a session, whatever interleaves with it, and how often a password can be tried. For the lists: what is shown is what the
  filter asks for, read within bounds, and no text of a caller reaches a statement. For the start:
  migrations converge however often they are interrupted, and a server that runs has its roles as
  the code defines them. For the server as a whole: its invariant over every reachable state, and an
  answer to every request.

  \<^bold>\<open>Requests and interleaving.\<close> For \<open>serve\<close> a request is one step of the site. Its calls reach the
  database one statement at a time, each with its own chance to fail; the rows the worker writes may
  differ from one read of a request to the next (\<open>ht_server\<close> is indexed by the read). Between
  requests the pruning loops and the hub move. Where requests share tables they write, the accounts,
  \<^theory_text>\<open>Interleaving\<close> lets them take turns statement by statement; the limiters and the hub have a mutex
  of their own, and their atoms are its sections. The audit is written by one statement a request
  and needs no more.

  \<^bold>\<open>Bounds and fuel.\<close> No definition takes fuel: loops are recursions over their input, with measures
  where they are not structural (the hours of the trend, the flags of a command line, durations).
  Loops that never end by design, the pruning, the reconnects and the event stream, run over the list
  of events to come.

  \<^bold>\<open>Not modelled.\<close> The socket loop, the timeouts and the shutdown inside the standard library's
  server, of which \<open>listen_and_serve\<close> takes the end as an event; the delivery of signals and the
  start of goroutines; the text of log lines; the alignment of the account table; the WebSocket and
  SQL drivers; deadlines, which show as reads that fail with them; the cache of the frontend's tags;
  and the frontend itself, which is not Go.

  \<^bold>\<open>Where the code and its comments part.\<close> Lemmas without a claim show it on concrete inputs, next to
  the definitions they are about: for instance \<open>flush_races_with_unsubscribe\<close>,
  \<open>batch_lost_on_split_rune\<close>, \<open>worker_key_refused_signs_out\<close>, \<open>dotted_host_page_missing\<close>,
  \<open>config_after_another_flag_is_ignored\<close>, \<open>downtime_length_wraps\<close>, \<open>half_applied_migration\<close>,
  \<open>padded_name_cannot_sign_in\<close>, \<open>huge_retention_prunes_early\<close>, \<open>password_change_misses_login\<close> and
  \<open>localhost_counts_as_reachable\<close>.
\<close>

end
